(* ===== verification/Prelude.thy ===== *)
theory Prelude
  imports Main
begin

text \<open>
  Shared vocabulary of the development.

  * Go errors: \<^verbatim>\<open>goerr\<close>, with nil as \<^verbatim>\<open>None\<close>; the two functions of the
    trace package the program uses everywhere (\<^verbatim>\<open>trace_wrap\<close> and
    \<^verbatim>\<open>new_aggregate\<close>) with their documented treatment of nil.
    The text of a message is reduced to a short tag that names the call site.
  * Programs: a Go function that talks to the outside world is a value of type
    \<^verbatim>\<open>prog\<close>: it receives the world (what the API server, the remote
    process and the clock answer), the state of its receiver and the history of
    calls made so far, and returns an error or a value, the new state and the
    longer history.  Go's deferred functions are the combinators
    \<^verbatim>\<open>finally_do\<close> and \<^verbatim>\<open>on_error_do\<close>.
  * The collections \<^verbatim>\<open>prog_simps\<close> (evaluation of the combinators) and
    \<^verbatim>\<open>err_simps\<close> (the error functions) carry the component proofs.
\<close>

named_theorems prog_simps "evaluation of programs"
named_theorems err_simps "trace.Wrap and trace.NewAggregate"

section \<open>Errors\<close>

datatype errkind = Plain | NotFound | Conflict | NotExist | Deadline

datatype goerr = LeafErr errkind string | WrapErr string goerr | AggErr "goerr list"

type_synonym error = "goerr option"

definition errorf :: "string \<Rightarrow> goerr" where
  "errorf tag = LeafErr Plain tag"

text \<open>trace.Wrap keeps nil and otherwise adds context.\<close>
definition trace_wrap :: "string \<Rightarrow> error \<Rightarrow> error" where
  "trace_wrap tag e = map_option (WrapErr tag) e"

text \<open>trace.NewAggregate drops the nils and is nil when nothing is left.\<close>
definition new_aggregate :: "error list \<Rightarrow> error" where
  "new_aggregate es = (case List.map_filter id es of [] \<Rightarrow> None | xs \<Rightarrow> Some (AggErr xs))"

text \<open>The leaves an error was built from: what errors.Is and the Is-predicates see.\<close>
fun causes :: "goerr \<Rightarrow> (errkind \<times> string) list" where
  "causes (LeafErr k s) = [(k, s)]"
| "causes (WrapErr _ e) = causes e"
| "causes (AggErr es) = concat (map causes es)"

text \<open>trace.IsNotFound, kerrors.IsNotFound, os.IsNotExist look through wrapping.\<close>
fun is_kind :: "errkind \<Rightarrow> goerr \<Rightarrow> bool" where
  "is_kind k (LeafErr k' _) = (k = k')"
| "is_kind k (WrapErr _ e) = is_kind k e"
| "is_kind k (AggErr es) = list_ex (is_kind k) es"

lemma trace_wrap_None [simp, err_simps]: "trace_wrap t None = None"
  and trace_wrap_Some [simp, err_simps]: "trace_wrap t (Some e) = Some (WrapErr t e)"
  and trace_wrap_eq_None [simp, err_simps]: "trace_wrap t eo = None \<longleftrightarrow> eo = None"
  by (auto simp: trace_wrap_def)

lemma new_aggregate_eq_None [simp, err_simps]:
  "new_aggregate es = None \<longleftrightarrow> (\<forall>e \<in> set es. e = None)"
  by (induction es) (auto simp: new_aggregate_def List.map_filter_def split: list.splits)

lemma new_aggregate_causes:
  "new_aggregate es = Some x \<Longrightarrow> causes x = concat (map causes (List.map_filter id es))"
  by (auto simp: new_aggregate_def split: list.splits)

lemma new_aggregate_pair [err_simps]:
  "new_aggregate [None, None] = None"
  "new_aggregate [Some a, None] = Some (AggErr [a])"
  "new_aggregate [None, Some b] = Some (AggErr [b])"
  "new_aggregate [Some a, Some b] = Some (AggErr [a, b])"
  by (simp_all add: new_aggregate_def List.map_filter_def)

section \<open>Programs\<close>

type_synonym ('w, 'e, 's, 'a) gprog =
  "'w \<Rightarrow> 's \<Rightarrow> 'e list \<Rightarrow> (goerr + 'a) \<times> 's \<times> 'e list"

definition ret :: "'a \<Rightarrow> ('w, 'e, 's, 'a) gprog" where
  "ret x = (\<lambda>w s tr. (Inr x, s, tr))"

definition fail :: "goerr \<Rightarrow> ('w, 'e, 's, 'a) gprog" where
  "fail e = (\<lambda>w s tr. (Inl e, s, tr))"

definition bnd :: "('w, 'e, 's, 'a) gprog \<Rightarrow> ('a \<Rightarrow> ('w, 'e, 's, 'b) gprog)
    \<Rightarrow> ('w, 'e, 's, 'b) gprog" where
  "bnd m f = (\<lambda>w s tr. case m w s tr of
      (Inl e, s', tr') \<Rightarrow> (Inl e, s', tr')
    | (Inr x, s', tr') \<Rightarrow> f x w s' tr')"

definition thn :: "('w, 'e, 's, unit) gprog \<Rightarrow> ('w, 'e, 's, 'b) gprog
    \<Rightarrow> ('w, 'e, 's, 'b) gprog" where
  "thn m n = bnd m (\<lambda>_. n)"

text \<open>The receiver's fields.\<close>
definition get_st :: "('w, 'e, 's, 's) gprog" where
  "get_st = (\<lambda>w s tr. (Inr s, s, tr))"

definition upd_st :: "('s \<Rightarrow> 's) \<Rightarrow> ('w, 'e, 's, unit) gprog" where
  "upd_st f = (\<lambda>w s tr. (Inr (), f s, tr))"

text \<open>An early return: \<^verbatim>\<open>if c { return err }\<close>.\<close>
definition guard :: "bool \<Rightarrow> goerr \<Rightarrow> ('w, 'e, 's, unit) gprog" where
  "guard c e = (if c then ret () else fail e)"

definition lift_err :: "error \<Rightarrow> ('w, 'e, 's, unit) gprog" where
  "lift_err e = (case e of None \<Rightarrow> ret () | Some x \<Rightarrow> fail x)"

definition lift_res :: "goerr + 'a \<Rightarrow> ('w, 'e, 's, 'a) gprog" where
  "lift_res r = (\<lambda>w s tr. (r, s, tr))"

text \<open>\<^verbatim>\<open>if err != nil { return trace.Wrap(err, tag) }\<close>\<close>
definition wrapping :: "string \<Rightarrow> ('w, 'e, 's, 'a) gprog \<Rightarrow> ('w, 'e, 's, 'a) gprog" where
  "wrapping tag m = (\<lambda>w s tr. case m w s tr of
      (Inl e, s', tr') \<Rightarrow> (Inl (WrapErr tag e), s', tr')
    | (Inr x, s', tr') \<Rightarrow> (Inr x, s', tr'))"

text \<open>The error a call left behind, for code that stores it instead of returning.\<close>
definition err_of :: "goerr + 'a \<Rightarrow> error" where
  "err_of r = (case r of Inl e \<Rightarrow> Some e | Inr _ \<Rightarrow> None)"

text \<open>
  \<^verbatim>\<open>defer func() { ... }()\<close> with the error kept in the function's named
  result: \<^verbatim>\<open>finally_do\<close> always runs the deferred program on the error so far and
  takes the error it leaves; \<^verbatim>\<open>on_error_do\<close> runs it only when there is one.
\<close>
definition finally_do :: "(error \<Rightarrow> ('w, 'e, 's, error) gprog) \<Rightarrow> ('w, 'e, 's, 'a) gprog
    \<Rightarrow> ('w, 'e, 's, 'a) gprog" where
  "finally_do c m = (\<lambda>w s tr. case m w s tr of (r, s', tr') \<Rightarrow>
     (case c (err_of r) w s' tr' of
        (Inl e, s'', tr'') \<Rightarrow> (Inl e, s'', tr'')
      | (Inr (Some e), s'', tr'') \<Rightarrow> (Inl e, s'', tr'')
      | (Inr None, s'', tr'') \<Rightarrow> (r, s'', tr'')))"

definition on_error_do :: "(error \<Rightarrow> ('w, 'e, 's, error) gprog) \<Rightarrow> ('w, 'e, 's, 'a) gprog
    \<Rightarrow> ('w, 'e, 's, 'a) gprog" where
  "on_error_do c m = finally_do (\<lambda>e. if e = None then ret None else c e) m"

text \<open>\<^verbatim>\<open>for _, x := range xs { if err := f(x); err != nil { return err } }\<close>\<close>
fun for_each :: "('b \<Rightarrow> ('w, 'e, 's, unit) gprog) \<Rightarrow> 'b list \<Rightarrow> ('w, 'e, 's, unit) gprog" where
  "for_each f [] = ret ()"
| "for_each f (x # xs) = thn (f x) (for_each f xs)"

text \<open>The same loop, appending each result to a slice.\<close>
fun map_each :: "('b \<Rightarrow> ('w, 'e, 's, 'c) gprog) \<Rightarrow> 'b list \<Rightarrow> ('w, 'e, 's, 'c list) gprog" where
  "map_each f [] = ret []"
| "map_each f (x # xs) = bnd (f x) (\<lambda>y. bnd (map_each f xs) (\<lambda>ys. ret (y # ys)))"

text \<open>Run a method of a component that lives inside a larger state.\<close>
definition zoom :: "('s \<Rightarrow> 't) \<Rightarrow> ('t \<Rightarrow> 's \<Rightarrow> 's) \<Rightarrow> ('w, 'e, 't, 'a) gprog
    \<Rightarrow> ('w, 'e, 's, 'a) gprog" where
  "zoom g p m = (\<lambda>w s tr. case m w (g s) tr of (r, t, tr') \<Rightarrow> (r, p t s, tr'))"

text \<open>A value with methods that lives only during one call.\<close>
definition with_local :: "'t \<Rightarrow> ('w, 'e, 't, 'a) gprog \<Rightarrow> ('w, 'e, 's, 'a) gprog" where
  "with_local t m = (\<lambda>w s tr. case m w t tr of (r, _, tr') \<Rightarrow> (r, s, tr'))"

lemma ret_run [simp, prog_simps]: "ret x w s tr = (Inr x, s, tr)"
  and fail_run [simp, prog_simps]: "fail e w s tr = (Inl e, s, tr)"
  and get_st_run [simp, prog_simps]: "get_st w s tr = (Inr s, s, tr)"
  and upd_st_run [simp, prog_simps]: "upd_st f w s tr = (Inr (), f s, tr)"
  and lift_res_run [simp, prog_simps]: "lift_res r w s tr = (r, s, tr)"
  by (simp_all add: ret_def fail_def get_st_def upd_st_def lift_res_def)

lemma bnd_run [prog_simps]:
  "bnd m f w s tr = (case m w s tr of
      (Inl e, s', tr') \<Rightarrow> (Inl e, s', tr')
    | (Inr x, s', tr') \<Rightarrow> f x w s' tr')"
  by (simp add: bnd_def)

lemma thn_run [prog_simps]:
  "thn m n w s tr = (case m w s tr of
      (Inl e, s', tr') \<Rightarrow> (Inl e, s', tr')
    | (Inr _, s', tr') \<Rightarrow> n w s' tr')"
  by (simp add: thn_def bnd_def)

lemma wrapping_run [prog_simps]:
  "wrapping tag m w s tr = (case m w s tr of
      (Inl e, s', tr') \<Rightarrow> (Inl (WrapErr tag e), s', tr')
    | (Inr x, s', tr') \<Rightarrow> (Inr x, s', tr'))"
  by (simp add: wrapping_def)

lemma guard_run [simp, prog_simps]:
  "guard c e w s tr = (if c then Inr () else Inl e, s, tr)"
  by (simp add: guard_def)

lemma lift_err_run [simp, prog_simps]:
  "lift_err e w s tr = (case e of None \<Rightarrow> Inr () | Some x \<Rightarrow> Inl x, s, tr)"
  by (simp add: lift_err_def split: option.splits)

lemma err_of_simps [simp, prog_simps]: "err_of (Inl e) = Some e" "err_of (Inr x) = None"
  by (simp_all add: err_of_def)

lemma finally_do_run [prog_simps]:
  "finally_do c m w s tr = (case m w s tr of (r, s', tr') \<Rightarrow>
     (case c (err_of r) w s' tr' of
        (Inl e, s'', tr'') \<Rightarrow> (Inl e, s'', tr'')
      | (Inr (Some e), s'', tr'') \<Rightarrow> (Inl e, s'', tr'')
      | (Inr None, s'', tr'') \<Rightarrow> (r, s'', tr'')))"
  by (simp add: finally_do_def)

lemma on_error_do_run [prog_simps]:
  "on_error_do c m w s tr = (case m w s tr of
      (Inr x, s', tr') \<Rightarrow> (Inr x, s', tr')
    | (Inl e, s', tr') \<Rightarrow>
     (case c (Some e) w s' tr' of
        (Inl e', s'', tr'') \<Rightarrow> (Inl e', s'', tr'')
      | (Inr (Some e'), s'', tr'') \<Rightarrow> (Inl e', s'', tr'')
      | (Inr None, s'', tr'') \<Rightarrow> (Inl e, s'', tr'')))"
  by (auto simp: on_error_do_def finally_do_def split: prod.splits sum.splits)

lemma zoom_run [prog_simps]:
  "zoom g p m w s tr = (case m w (g s) tr of (r, t, tr') \<Rightarrow> (r, p t s, tr'))"
  by (simp add: zoom_def)

lemma with_local_run [prog_simps]:
  "with_local t m w s tr = (case m w t tr of (r, _, tr') \<Rightarrow> (r, s, tr'))"
  by (simp add: with_local_def)

text \<open>
  The same facts as elimination rules: taking a run of a composite program apart
  into one case per early return.
\<close>
named_theorems prog_elims "case analysis of a run"

lemma bndE [prog_elims]:
  assumes "bnd m f w s tr = (r, s', tr')"
  obtains e where "m w s tr = (Inl e, s', tr')" "r = Inl e"
  | x s1 tr1 where "m w s tr = (Inr x, s1, tr1)" "f x w s1 tr1 = (r, s', tr')"
  using assms by (auto simp: prog_simps split: prod.splits sum.splits)

lemma thnE [prog_elims]:
  assumes "thn m n w s tr = (r, s', tr')"
  obtains e where "m w s tr = (Inl e, s', tr')" "r = Inl e"
  | s1 tr1 where "m w s tr = (Inr (), s1, tr1)" "n w s1 tr1 = (r, s', tr')"
  using assms by (auto simp: prog_simps split: prod.splits sum.splits)

lemma wrappingE [prog_elims]:
  assumes "wrapping tag m w s tr = (r, s', tr')"
  obtains e where "m w s tr = (Inl e, s', tr')" "r = Inl (WrapErr tag e)"
  | x where "m w s tr = (Inr x, s', tr')" "r = Inr x"
  using assms by (auto simp: prog_simps split: prod.splits sum.splits)

lemma on_errorE [prog_elims]:
  assumes "on_error_do c m w s tr = (r, s', tr')"
  obtains x where "m w s tr = (Inr x, s', tr')" "r = Inr x"
  | e s1 tr1 rc where "m w s tr = (Inl e, s1, tr1)" "c (Some e) w s1 tr1 = (rc, s', tr')"
      "\<exists>e'. r = Inl e'"
  using assms by (auto simp: prog_simps split: prod.splits sum.splits option.splits)

lemma finallyE [prog_elims]:
  assumes "finally_do c m w s tr = (r, s', tr')"
  obtains rm s1 tr1 rc where "m w s tr = (rm, s1, tr1)" "c (err_of rm) w s1 tr1 = (rc, s', tr')"
    "r = (case rc of Inl e \<Rightarrow> Inl e | Inr (Some e) \<Rightarrow> Inl e | Inr None \<Rightarrow> rm)"
  using assms by (auto simp: prog_simps split: prod.splits sum.splits option.splits)

lemma with_localE [prog_elims]:
  assumes "with_local t m w s tr = (r, s', tr')"
  obtains t' where "m w t tr = (r, t', tr')" "s' = s"
  using assms by (auto simp: prog_simps split: prod.splits)

lemma zoomE [prog_elims]:
  assumes "zoom g p m w s tr = (r, s', tr')"
  obtains t where "m w (g s) tr = (r, t, tr')" "s' = p t s"
  using assms by (auto simp: prog_simps split: prod.splits)

text \<open>The monad laws, so that programs may be regrouped.\<close>

lemma ret_bnd [simp]: "bnd (ret x) f = f x"
  by (rule ext)+ (simp add: prog_simps)

lemma bnd_ret [simp]: "bnd m ret = m"
  by (rule ext)+ (simp add: prog_simps split: prod.splits sum.splits)

lemma bnd_assoc: "bnd (bnd m f) g = bnd m (\<lambda>x. bnd (f x) g)"
  by (rule ext)+ (simp add: prog_simps split: prod.splits sum.splits)

section \<open>Partial correctness over histories\<close>

text \<open>
  \<^verbatim>\<open>extends\<close>: a program only appends to the history.  Every program built from
  the combinators and the calls of World has the property, so a fact about
  what was called stays true later on.
\<close>
definition extends :: "('w, 'e, 's, 'a) gprog \<Rightarrow> bool" where
  "extends m \<longleftrightarrow> (\<forall>w s tr. \<exists>new. snd (snd (m w s tr)) = tr @ new)"

text \<open>Hoare triples with a postcondition for the result, the state and the history.\<close>
definition triple :: "'w \<Rightarrow> ('s \<Rightarrow> 'e list \<Rightarrow> bool) \<Rightarrow> ('w, 'e, 's, 'a) gprog
    \<Rightarrow> (goerr + 'a \<Rightarrow> 's \<Rightarrow> 'e list \<Rightarrow> bool) \<Rightarrow> bool" where
  "triple w P m Q \<longleftrightarrow> (\<forall>s tr. P s tr \<longrightarrow> (case m w s tr of (r, s', tr') \<Rightarrow> Q r s' tr'))"

named_theorems extends_intros "programs that only append to the history"

lemma tripleI: "(\<And>s tr r s' tr'. P s tr \<Longrightarrow> m w s tr = (r, s', tr') \<Longrightarrow> Q r s' tr') \<Longrightarrow> triple w P m Q"
  by (auto simp: triple_def split: prod.splits)

lemma tripleD: "triple w P m Q \<Longrightarrow> P s tr \<Longrightarrow> m w s tr = (r, s', tr') \<Longrightarrow> Q r s' tr'"
  unfolding triple_def by fastforce

lemma triple_bnd:
  assumes "triple w P m R"
    and "\<And>x. triple w (\<lambda>s tr. R (Inr x) s tr) (f x) Q"
    and "\<And>e s tr. R (Inl e) s tr \<Longrightarrow> Q (Inl e) s tr"
  shows "triple w P (bnd m f) Q"
proof (rule tripleI)
  fix s tr r s' tr'
  assume P: "P s tr" and run: "bnd m f w s tr = (r, s', tr')"
  obtain r1 s1 tr1 where m: "m w s tr = (r1, s1, tr1)" by (metis prod_cases3)
  have R: "R r1 s1 tr1" using tripleD [OF assms(1) P m] .
  show "Q r s' tr'"
  proof (cases r1)
    case (Inl e)
    with run m have "r = Inl e" "s' = s1" "tr' = tr1" by (auto simp: prog_simps)
    with R Inl assms(3) show ?thesis by simp
  next
    case (Inr x)
    with run m have "f x w s1 tr1 = (r, s', tr')" by (simp add: prog_simps)
    with tripleD [OF assms(2) _ this] R Inr show ?thesis by simp
  qed
qed

lemma triple_conseq:
  "triple w P' m Q' \<Longrightarrow> (\<And>s tr. P s tr \<Longrightarrow> P' s tr) \<Longrightarrow> (\<And>r s tr. Q' r s tr \<Longrightarrow> Q r s tr)
    \<Longrightarrow> triple w P m Q"
  unfolding triple_def by (fastforce split: prod.splits)

lemma extendsD: "extends m \<Longrightarrow> m w s tr = (r, s', tr') \<Longrightarrow> \<exists>new. tr' = tr @ new"
  unfolding extends_def by (metis snd_conv)

lemma extendsI: "(\<And>w s tr r s' tr'. m w s tr = (r, s', tr') \<Longrightarrow> \<exists>new. tr' = tr @ new) \<Longrightarrow> extends m"
  unfolding extends_def by (metis prod.collapse)

lemma extends_basic [extends_intros, simp]:
  "extends (ret x)" "extends (fail e)" "extends get_st" "extends (upd_st f)"
  "extends (guard c e)" "extends (lift_err e')" "extends (lift_res r)"
  by (auto simp: extends_def)

lemma extends_bnd [extends_intros]:
  assumes "extends m" "\<And>x. extends (f x)"
  shows "extends (bnd m f)"
proof (rule extendsI)
  fix w s tr r s' tr'
  assume run: "bnd m f w s tr = (r, s', tr')"
  obtain r1 s1 tr1 where m: "m w s tr = (r1, s1, tr1)" by (metis prod_cases3)
  obtain n1 where n1: "tr1 = tr @ n1" using extendsD [OF assms(1) m] by blast
  show "\<exists>new. tr' = tr @ new"
  proof (cases r1)
    case (Inl e)
    with run m have "tr' = tr1" by (auto simp: prog_simps)
    with n1 show ?thesis by simp
  next
    case (Inr x)
    with run m have "f x w s1 tr1 = (r, s', tr')" by (simp add: prog_simps)
    with extendsD [OF assms(2)] n1 show ?thesis by fastforce
  qed
qed

lemma extends_thn [extends_intros]: "extends m \<Longrightarrow> extends n \<Longrightarrow> extends (thn m n)"
  by (simp add: thn_def extends_bnd)

lemma extends_wrapping [extends_intros]: "extends m \<Longrightarrow> extends (wrapping t m)"
  by (auto simp: extends_def prog_simps split: prod.splits sum.splits) (metis snd_conv)+

lemma extends_if [extends_intros]: "extends m \<Longrightarrow> extends n \<Longrightarrow> extends (if b then m else n)"
  by simp

lemma extends_finally [extends_intros]:
  assumes "extends m" "\<And>e. extends (c e)"
  shows "extends (finally_do c m)"
proof (rule extendsI)
  fix w s tr r s' tr'
  assume run: "finally_do c m w s tr = (r, s', tr')"
  obtain r1 s1 tr1 where m: "m w s tr = (r1, s1, tr1)" by (metis prod_cases3)
  obtain r2 s2 tr2 where c: "c (err_of r1) w s1 tr1 = (r2, s2, tr2)" by (metis prod_cases3)
  have "tr' = tr2" using run m c by (auto simp: prog_simps split: sum.splits option.splits)
  with extendsD [OF assms(1) m] extendsD [OF assms(2) c] show "\<exists>new. tr' = tr @ new" by auto
qed

lemma extends_on_error [extends_intros]:
  "extends m \<Longrightarrow> (\<And>e. extends (c e)) \<Longrightarrow> extends (on_error_do c m)"
  unfolding on_error_do_def by (intro extends_finally) auto

lemma extends_for_each [extends_intros]:
  "(\<And>x. extends (f x)) \<Longrightarrow> extends (for_each f xs)"
  by (induction xs) (auto intro: extends_intros)

lemma extends_map_each [extends_intros]:
  "(\<And>x. extends (f x)) \<Longrightarrow> extends (map_each f xs)"
  by (induction xs) (auto intro!: extends_intros)

lemma extends_zoom [extends_intros]: "extends m \<Longrightarrow> extends (zoom g p m)"
  by (auto simp: extends_def prog_simps split: prod.splits) (metis snd_conv)

lemma extends_with_local [extends_intros]: "extends m \<Longrightarrow> extends (with_local t m)"
  by (auto simp: extends_def prog_simps split: prod.splits) (metis snd_conv)

lemmas run_splits = prod.splits sum.splits option.splits if_splits

end
