(* ===== verification/Proto.thy ===== *)
theory Proto
  imports Prelude
begin

text \<open>
  The values that cross the gRPC channel and the Kubernetes API: the protobuf
  messages of \<^verbatim>\<open>src/pkg/grpc/proto\<close>, and the Kubernetes objects with the fields
  that the program sets or reads.  Times are nanoseconds since Go's zero time, so
  the zero \<^verbatim>\<open>time.Time\<close> is 0; durations are nanoseconds; a quantity is its
  number of base units.
\<close>

type_synonym gotime = int
type_synonym duration = int
type_synonym quantity = int
type_synonym strmap = "string \<rightharpoonup> string"

definition second :: duration where "second = 1000000000"
definition minute :: duration where "minute = 60 * second"
definition hour :: duration where "hour = 60 * minute"

definition is_zero_time :: "gotime \<Rightarrow> bool" where "is_zero_time t \<longleftrightarrow> t = 0"

section \<open>Protobuf messages\<close>

datatype varname = PGHOST | PGPORT | PGDATABASE | PGUSER | PGREQUIREAUTH
  | PGSSLMODE | PGSSLCERT | PGSSLKEY | PGSSLROOTCERT

type_synonym env_variables = "(varname \<times> string) list"

record s3_credentials_msg =
  m_access_key_id :: string
  m_secret_access_key :: string
  m_session_token :: string
  m_region :: string
  m_endpoint :: string
  m_force_path_style :: bool

datatype request =
    CopyFilesRequest string string
  | SyncFilesRequest string string "string list" "string list"
  | ListDirectoryRequest string
  | DumpAllRequest env_variables string "duration option"
  | RestoreRequest env_variables string
  | S3SyncRequest s3_credentials_msg string string "gotime option"

datatype response = EmptyResponse | EntriesResponse "string list"

section \<open>Kubernetes objects\<close>

record objmeta =
  om_name :: string
  om_genname :: string
  om_ns :: string
  om_labels :: "strmap option"
  om_created :: gotime
  om_owners :: "(string \<times> string) list"   \<comment> \<open>kind and name of each owner\<close>

record condition =
  co_type :: string
  co_status :: string

definition cond_ready :: string where "cond_ready = ''Ready''"
definition cond_true :: string where "cond_true = ''True''"

text \<open>metav1.LabelSelector: matchLabels and the number of matchExpressions.\<close>
record label_selector =
  ls_labels :: "(string \<times> string) list"
  ls_exprs :: "string list"

record typed_ref =
  tr_group :: string
  tr_kind :: string
  tr_name :: string

record pvc =
  pvc_meta :: objmeta
  pvc_access :: "string list"
  pvc_size :: "quantity option"   \<comment> \<open>the storage request\<close>
  pvc_source :: "typed_ref option"
  pvc_class :: "string option"

record key_to_path =
  kp_key :: string
  kp_path :: string

record secret_source =
  ss_name :: string
  ss_mode :: nat
  ss_items :: "key_to_path list"

record volume_source =
  vs_pvc :: "string option"
  vs_secret :: "secret_source option"

record volume =
  vol_name :: string
  vol_source :: volume_source

record volume_mount =
  vm_name :: string
  vm_path :: string

record security_context =
  sc_user :: nat
  sc_group :: nat
  sc_nonroot :: bool
  sc_drop :: "string list"
  sc_add :: "string list"
  sc_privileged :: bool
  sc_readonly_root :: bool
  sc_escalation :: bool
  sc_seccomp :: string

record pod_security_context =
  psc_user :: nat
  psc_group :: nat
  psc_nonroot :: bool
  psc_seccomp :: string

record probe =
  pb_port :: nat
  pb_service :: string
  pb_timeout :: nat
  pb_period :: nat
  pb_success :: nat
  pb_failure :: nat

record container_port =
  cp_name :: string
  cp_port :: nat
  cp_proto :: string

record container =
  ct_name :: string
  ct_image :: string
  ct_command :: "string list"
  ct_args :: "string list"
  ct_mounts :: "volume_mount list"
  ct_ports :: "container_port list"
  ct_security :: security_context
  ct_startup :: "probe option"
  ct_readiness :: "probe option"
  ct_liveness :: "probe option"

record pod =
  pod_meta :: objmeta
  pod_containers :: "container list"
  pod_volumes :: "volume list"
  pod_restart :: string
  pod_security :: pod_security_context
  pod_conditions :: "condition list"
  pod_ip :: string

datatype service_type = ExternalName | LoadBalancer | NodePort | ClusterIP | OtherService string

record ingress = ing_ip :: string  ing_host :: string

record service =
  svc_meta :: objmeta
  svc_type :: service_type
  svc_cluster_ip :: string
  svc_cluster_ips :: "string list"
  svc_ingress :: "ingress list"

record endpoint_slice =
  eps_meta :: objmeta
  eps_addresses :: "string list list"

record job =
  job_meta :: objmeta
  job_conditions :: "condition list"

record issuer_ref =
  ir_name :: string
  ir_kind :: string
  ir_group :: string

record name_constraints =
  nc_critical :: bool
  nc_dns :: "string list"
  nc_ips :: "string list"
  nc_emails :: "string list"
  nc_uris :: "string list"

record private_key =
  pk_algorithm :: string
  pk_size :: int
  pk_encoding :: string
  pk_rotation :: string

record certificate =
  cert_meta :: objmeta
  cert_is_ca :: bool
  cert_constraints :: "name_constraints option"
  cert_cn :: string
  cert_dns :: "string list"
  cert_ips :: "string list"
  cert_uris :: "string list"
  cert_emails :: "string list"
  cert_usages :: "string list option"
  cert_key :: "private_key option"
  cert_secret :: string
  cert_secret_labels :: "strmap option"
  cert_duration :: "duration option"
  cert_issuer :: issuer_ref
  cert_encode_usages :: bool
  cert_conditions :: "condition list"

datatype issuer_config = SelfSigned | CAIssuer string

record issuer =
  iss_meta :: objmeta
  iss_config :: issuer_config
  iss_conditions :: "condition list"

record crp_constraints =
  cc_min_duration :: "duration option"
  cc_max_duration :: "duration option"
  cc_algorithm :: "string option"
  cc_min_size :: "int option"
  cc_max_size :: "int option"

text \<open>An allowed value: the list and whether it is required.\<close>
record crp_allowed =
  ca_cn :: "(string \<times> bool) option"
  ca_dns :: "(string list \<times> bool) option"
  ca_ips :: "(string list \<times> bool) option"
  ca_uris :: "(string list \<times> bool) option"
  ca_emails :: "(string list \<times> bool) option"
  ca_is_ca :: "bool option"
  ca_usages :: "string list option"

record crp_spec =
  cs_namespaces :: "string list"
  cs_issuer :: issuer_ref
  cs_constraints :: "crp_constraints option"
  cs_allowed :: "crp_allowed option"

record crp =
  crp_meta :: objmeta
  crp_policy :: crp_spec
  crp_conditions :: "condition list"

record plugin_config =
  pl_name :: string
  pl_archiver :: "bool option"
  pl_params :: strmap

record external_cluster =
  ec_name :: string
  ec_plugin :: plugin_config

datatype recovery_target = TargetImmediate | TargetTime string

record recovery =
  rc_source :: string
  rc_data :: typed_ref
  rc_wal :: "typed_ref option"
  rc_target :: recovery_target
  rc_database :: string
  rc_owner :: string

record bootstrap =
  bs_initdb :: "(string \<times> string) option"        \<comment> \<open>database, owner\<close>
  bs_basebackup :: "(string \<times> string) option"
  bs_recovery :: "recovery option"

record cluster_certs =
  clc_server_tls :: string
  clc_server_ca :: string
  clc_client_ca :: string
  clc_replication :: string

record cluster =
  cl_meta :: objmeta
  cl_instances :: nat
  cl_image :: string
  cl_bootstrap :: "bootstrap option"
  cl_size :: string
  cl_class :: "string option"
  cl_resources :: string
  cl_certs :: "cluster_certs option"
  cl_pghba :: "string list"
  cl_external :: "external_cluster list"
  cl_plugins :: "plugin_config list"
  cl_conditions :: "condition list"
  cl_primary :: string
  cl_write_service :: string

datatype backup_phase = PhaseCompleted | PhaseFailed | PhaseWalArchivingFailing | PhaseOther string

record backup =
  bk_meta :: objmeta
  bk_cluster :: string
  bk_method :: string
  bk_target :: string
  bk_online :: bool
  bk_wait_archive :: bool
  bk_phase :: backup_phase
  bk_snapshots :: "(string \<times> string) list"   \<comment> \<open>element type and snapshot name\<close>

record snapshot_status =
  sns_ready :: "bool option"
  sns_restore_size :: "quantity option"
  sns_created :: "gotime option"

record snapshot =
  sn_meta :: objmeta
  sn_source :: "string option"
  sn_class :: "string option"
  sn_status :: "snapshot_status option"

record group_snapshot =
  gs_meta :: objmeta
  gs_selector :: label_selector
  gs_class :: "string option"
  gs_status :: "snapshot_status option"

record object_store =
  os_meta :: objmeta
  os_server_name :: string

text \<open>A zero metav1.ObjectMeta.\<close>
definition empty_meta :: objmeta where
  "empty_meta = \<lparr> om_name = [], om_genname = [], om_ns = [], om_labels = None,
     om_created = 0, om_owners = [] \<rparr>"

text \<open>The first condition of the given type decides: the loop of every Is...Ready.\<close>
fun condition_true :: "string \<Rightarrow> condition list \<Rightarrow> bool" where
  "condition_true ty [] = False"
| "condition_true ty (c # cs) = (if co_type c \<noteq> ty then condition_true ty cs
                                  else co_status c = cond_true)"

end
