(* ===== verification/World.thy ===== *)
theory World
  imports Proto "HOL-Library.Multiset"
begin

text \<open>
  The outside world.  Everything the program cannot see into (the API server
  behind client-go, the peer of the gRPC channel, the clock, the uuid generator,
  Kubernetes' quantity parser) is a field of \<^verbatim>\<open>world\<close>: a function of the calls made so
  far and the arguments.  Every theorem quantifies over all worlds.

  A program's calls are recorded as events; \<^verbatim>\<open>outstanding\<close> reads off a history
  which created objects have not been the subject of a delete call.
\<close>

datatype kind = KPVC | KPod | KService | KEndpoint | KJob | KBackup | KCluster
  | KCertificate | KIssuer | KClusterIssuer | KCRP | KSnapshot | KGroupSnapshot | KObjectStore

datatype event =
    Created kind string string
  | CreateFailed kind string
  | Fetched kind string string
  | Listed kind string
  | Updated kind string string
  | Deleted kind string string
  | Watched kind string string duration
  | Discovered bool
  | DiscoveryFailed
  | Execed string string string "string list"
  | ReadClock gotime
  | NewUUID string
  | Slept duration
  | Opened string
  | Dialed string
  | Closed
  | Called request

type_synonym trace = "event list"

text \<open>
  What toolswatch.UntilWithSync delivers to the callbacks of one wait: the synced
  list (None when the caches never sync), the later events (with whether it was a delete
  event; None for an object of another type), and the error it ends with when no callback
  stops it.
\<close>
record 'o watch_run =
  wr_sync :: "'o list option"
  wr_events :: "(bool \<times> 'o option) list"
  wr_end :: goerr

record 'o kapi =
  k_create :: "trace \<Rightarrow> string \<Rightarrow> 'o \<Rightarrow> goerr + 'o"
  k_get :: "trace \<Rightarrow> string \<Rightarrow> string \<Rightarrow> goerr + 'o"
  k_list :: "trace \<Rightarrow> string \<Rightarrow> label_selector \<Rightarrow> goerr + 'o list"
  k_update :: "trace \<Rightarrow> string \<Rightarrow> 'o \<Rightarrow> goerr + 'o"
  k_delete :: "trace \<Rightarrow> string \<Rightarrow> string \<Rightarrow> error"
  k_watch :: "trace \<Rightarrow> string \<Rightarrow> string \<Rightarrow> duration \<Rightarrow> 'o watch_run"

record world =
  w_pvc :: "pvc kapi"
  w_pod :: "pod kapi"
  w_service :: "service kapi"
  w_endpoint :: "endpoint_slice kapi"
  w_job :: "job kapi"
  w_backup :: "backup kapi"
  w_cluster :: "cluster kapi"
  w_cert :: "certificate kapi"
  w_issuer :: "issuer kapi"
  w_cluster_issuer :: "issuer kapi"
  w_crp :: "crp kapi"
  w_snapshot :: "snapshot kapi"
  w_group :: "group_snapshot kapi"
  w_store :: "object_store kapi"
  w_discover :: "trace \<Rightarrow> goerr + string list"   \<comment> \<open>kinds of the approver-policy API group\<close>
  w_mark_issuing :: "certificate \<Rightarrow> certificate"   \<comment> \<open>cmutil.SetCertificateCondition, Issuing\<close>
  w_exec :: "trace \<Rightarrow> string \<Rightarrow> string \<Rightarrow> string list \<Rightarrow> goerr + string"
  w_now :: "trace \<Rightarrow> gotime"
  w_uuid :: "trace \<Rightarrow> string"
  w_new_conn :: "trace \<Rightarrow> string \<Rightarrow> error"   \<comment> \<open>grpc.NewClient\<close>
  w_dial :: "trace \<Rightarrow> string \<Rightarrow> error"   \<comment> \<open>resolve, connect and close once\<close>
  w_close :: "trace \<Rightarrow> error"
  w_call :: "trace \<Rightarrow> request \<Rightarrow> goerr + response"
  w_parse_quantity :: "string \<Rightarrow> goerr + quantity"
  w_quantity_string :: "quantity \<Rightarrow> string"
  w_generate_name :: "nat \<Rightarrow> string \<Rightarrow> string"
  w_common_labels :: "strmap option"   \<comment> \<open>the labels the clients were configured with\<close>
  w_map_order :: "trace \<Rightarrow> nat \<Rightarrow> nat list"   \<comment> \<open>the order in which Go ranges over a map of that size\<close>

type_synonym ('s, 'a) prog = "(world, event, 's, 'a) gprog"

section \<open>API calls\<close>

definition log_event :: "event \<Rightarrow> ('s, unit) prog" where
  "log_event e = (\<lambda>w s tr. (Inr (), s, tr @ [e]))"

definition api_create :: "kind \<Rightarrow> (world \<Rightarrow> 'o kapi) \<Rightarrow> ('o \<Rightarrow> objmeta) \<Rightarrow> string \<Rightarrow> 'o
    \<Rightarrow> ('s, 'o) prog" where
  "api_create K api meta ns o1 = (\<lambda>w s tr. case k_create (api w) tr ns o1 of
      Inl e \<Rightarrow> (Inl e, s, tr @ [CreateFailed K ns])
    | Inr o2 \<Rightarrow> (Inr o2, s, tr @ [Created K ns (om_name (meta o2))]))"

definition api_get :: "kind \<Rightarrow> (world \<Rightarrow> 'o kapi) \<Rightarrow> string \<Rightarrow> string \<Rightarrow> ('s, 'o) prog" where
  "api_get K api ns n = (\<lambda>w s tr. (k_get (api w) tr ns n, s, tr @ [Fetched K ns n]))"

definition api_list :: "kind \<Rightarrow> (world \<Rightarrow> 'o kapi) \<Rightarrow> string \<Rightarrow> label_selector \<Rightarrow> ('s, 'o list) prog" where
  "api_list K api ns sel = (\<lambda>w s tr. (k_list (api w) tr ns sel, s, tr @ [Listed K ns]))"

definition api_update :: "kind \<Rightarrow> (world \<Rightarrow> 'o kapi) \<Rightarrow> ('o \<Rightarrow> objmeta) \<Rightarrow> string \<Rightarrow> 'o
    \<Rightarrow> ('s, 'o) prog" where
  "api_update K api meta ns o1 = (\<lambda>w s tr.
     (k_update (api w) tr ns o1, s, tr @ [Updated K ns (om_name (meta o1))]))"

definition api_delete :: "kind \<Rightarrow> (world \<Rightarrow> 'o kapi) \<Rightarrow> string \<Rightarrow> string \<Rightarrow> ('s, unit) prog" where
  "api_delete K api ns n = (\<lambda>w s tr.
     ((case k_delete (api w) tr ns n of None \<Rightarrow> Inr () | Some e \<Rightarrow> Inl e),
      s, tr @ [Deleted K ns n]))"

definition api_watch :: "kind \<Rightarrow> (world \<Rightarrow> 'o kapi) \<Rightarrow> string \<Rightarrow> string \<Rightarrow> duration
    \<Rightarrow> ('s, 'o watch_run) prog" where
  "api_watch K api ns sel t = (\<lambda>w s tr.
     (Inr (k_watch (api w) tr ns sel t), s, tr @ [Watched K ns sel t]))"

definition time_now :: "('s, gotime) prog" where
  "time_now = (\<lambda>w s tr. (Inr (w_now w tr), s, tr @ [ReadClock (w_now w tr)]))"

definition new_uuid :: "('s, string) prog" where
  "new_uuid = (\<lambda>w s tr. (Inr (w_uuid w tr), s, tr @ [NewUUID (w_uuid w tr)]))"

definition rpc_call :: "request \<Rightarrow> ('s, response) prog" where
  "rpc_call q = (\<lambda>w s tr. (w_call w tr q, s, tr @ [Called q]))"

text \<open>Ranging over a Go map, an association list here, visits the entries in some order.\<close>
definition map_range :: "'v list \<Rightarrow> ('s, 'v list) prog" where
  "map_range m = (\<lambda>w s tr. (Inr (map (nth m) (w_map_order w tr (length m))), s, tr))"

definition ask :: "(world \<Rightarrow> 'a) \<Rightarrow> ('s, 'a) prog" where
  "ask f = (\<lambda>w s tr. (Inr (f w), s, tr))"

lemma api_run [prog_simps]:
  "log_event e w s tr = (Inr (), s, tr @ [e])"
  "api_create K api meta ns o1 w s tr = (case k_create (api w) tr ns o1 of
      Inl e \<Rightarrow> (Inl e, s, tr @ [CreateFailed K ns])
    | Inr o2 \<Rightarrow> (Inr o2, s, tr @ [Created K ns (om_name (meta o2))]))"
  "api_get K api ns n w s tr = (k_get (api w) tr ns n, s, tr @ [Fetched K ns n])"
  "api_list K api ns sel w s tr = (k_list (api w) tr ns sel, s, tr @ [Listed K ns])"
  "api_update K api meta ns o1 w s tr =
     (k_update (api w) tr ns o1, s, tr @ [Updated K ns (om_name (meta o1))])"
  "api_delete K api ns n w s tr =
     ((case k_delete (api w) tr ns n of None \<Rightarrow> Inr () | Some e \<Rightarrow> Inl e), s, tr @ [Deleted K ns n])"
  "api_watch K api ns l t w s tr =
     (Inr (k_watch (api w) tr ns l t), s, tr @ [Watched K ns l t])"
  "time_now w s tr = (Inr (w_now w tr), s, tr @ [ReadClock (w_now w tr)])"
  "new_uuid w s tr = (Inr (w_uuid w tr), s, tr @ [NewUUID (w_uuid w tr)])"
  "rpc_call q w s tr = (w_call w tr q, s, tr @ [Called q])"
  "map_range m w s tr = (Inr (map (nth m) (w_map_order w tr (length m))), s, tr)"
  "ask f w s tr = (Inr (f w), s, tr)"
  by (simp_all add: map_range_def log_event_def api_create_def api_get_def api_list_def api_update_def
      api_delete_def api_watch_def time_now_def new_uuid_def rpc_call_def ask_def)

section \<open>Ownership of created objects\<close>

type_synonym objref = "kind \<times> string \<times> string"

fun step_owned :: "objref multiset \<Rightarrow> event \<Rightarrow> objref multiset" where
  "step_owned M (Created K ns n) = add_mset (K, ns, n) M"
| "step_owned M (Deleted K ns n) = M - {#(K, ns, n)#}"
| "step_owned M _ = M"

text \<open>The objects created and not yet the subject of a delete call.\<close>
definition outstanding :: "trace \<Rightarrow> objref multiset" where
  "outstanding tr = foldl step_owned {#} tr"

lemma outstanding_Nil [simp]: "outstanding [] = {#}"
  by (simp add: outstanding_def)

lemma outstanding_snoc [simp]: "outstanding (tr @ [e]) = step_owned (outstanding tr) e"
  by (simp add: outstanding_def)

lemma outstanding_append: "outstanding (tr @ tr') = foldl step_owned (outstanding tr) tr'"
  by (simp add: outstanding_def)

section \<open>The clock\<close>

text \<open>The clock advances by at least the time slept.\<close>
fun slept :: "trace \<Rightarrow> duration" where
  "slept [] = 0"
| "slept (Slept t # tr) = t + slept tr"
| "slept (_ # tr) = slept tr"

lemma slept_append [simp]: "slept (tr @ tr') = slept tr + slept tr'"
  by (induction tr rule: slept.induct) auto

definition clock_ok :: "world \<Rightarrow> bool" where
  "clock_ok w \<longleftrightarrow> (\<forall>tr more. w_now w tr + slept more \<le> w_now w (tr @ more))"

end
