(* ===== verification/Helpers.thy ===== *)
theory Helpers
  imports World
begin

text \<open>
  \<^verbatim>\<open>src/pkg/kubecluster/helpers/helpers.go\<close>: names, wait times, labels, and the
  List+Watch loop that every "wait until ready" of the program is built on.  Strings are ASCII
  character lists (Kubernetes names are), so runes and bytes coincide.
\<close>

section \<open>Names\<close>

definition full_name_str :: "string \<Rightarrow> string \<Rightarrow> string" where
  "full_name_str ns n = ns @ ''/'' @ n"

definition full_name :: "objmeta \<Rightarrow> string" where
  "full_name m = full_name_str (om_ns m) (om_name m)"

definition truncate_string :: "string \<Rightarrow> nat \<Rightarrow> string \<Rightarrow> string" where
  "truncate_string s max_length suffix =
     (if length s \<le> max_length then s
      else if max_length < length suffix then take max_length suffix
      else take (max_length - length suffix) s @ suffix)"

definition truncate_string_ellipsis :: "string \<Rightarrow> nat \<Rightarrow> string" where
  "truncate_string_ellipsis s n = truncate_string s n ''...''"

definition lower_char :: "char \<Rightarrow> char" where
  "lower_char c = (let k = of_char c :: nat in
     if 65 \<le> k \<and> k \<le> 90 then char_of (k + 32) else c)"

definition to_lower :: "string \<Rightarrow> string" where "to_lower = map lower_char"

text \<open>The replacer built from the characters of \<^verbatim>\<open>replaceChars\<close>.\<close>
definition replace_chars :: string where "replace_chars = ''_:.''"

definition replace_special :: "string \<Rightarrow> string" where
  "replace_special = map (\<lambda>c. if c \<in> set replace_chars then CHR ''-'' else c)"

text \<open>The trimming loop, which walks down from the last index.\<close>
fun trim_loop :: "nat \<Rightarrow> string \<Rightarrow> string" where
  "trim_loop 0 s = s"
| "trim_loop (Suc i) s = (if s ! i \<noteq> CHR ''-'' then s else trim_loop i (take i s))"

definition clean_name :: "string \<Rightarrow> string" where
  "clean_name generate_name =
     (let cleaned = replace_special (to_lower generate_name) in trim_loop (length cleaned) cleaned)"

definition set_name :: "bool \<Rightarrow> objmeta \<Rightarrow> string \<Rightarrow> objmeta" where
  "set_name gn m n = (if gn then m\<lparr>om_genname := clean_name n\<rparr> else m\<lparr>om_name := n\<rparr>)"

lemma truncate_string_length: "length (truncate_string s n suffix) \<le> n"
  by (auto simp: truncate_string_def)

lemma truncate_string_id: "length s \<le> n \<Longrightarrow> truncate_string s n suffix = s"
  by (simp add: truncate_string_def)

lemma trim_loop_rev: "n = length s \<Longrightarrow> trim_loop n s = rev (dropWhile (\<lambda>c. c = CHR ''-'') (rev s))"
proof (induction n s rule: trim_loop.induct)
  case (2 i s)
  then obtain t c where s: "s = t @ [c]" "length t = i"
    by (metis Suc_length_conv length_Suc_conv_rev nat.inject)
  with 2 show ?case by auto
qed simp

lemma clean_name_rev:
  "clean_name s = rev (dropWhile (\<lambda>c. c = CHR ''-'') (rev (replace_special (to_lower s))))"
  by (simp add: clean_name_def trim_loop_rev Let_def)

lemma clean_name_prefix: "\<exists>ds. replace_special (to_lower s) = clean_name s @ ds \<and> set ds \<subseteq> {CHR ''-''}"
proof -
  let ?r = "rev (replace_special (to_lower s))"
  have "?r = takeWhile (\<lambda>c. c = CHR ''-'') ?r @ dropWhile (\<lambda>c. c = CHR ''-'') ?r" by simp
  then have "rev ?r = rev (dropWhile (\<lambda>c. c = CHR ''-'') ?r) @ rev (takeWhile (\<lambda>c. c = CHR ''-'') ?r)"
    by (metis rev_append)
  moreover have "set (rev (takeWhile (\<lambda>c. c = CHR ''-'') ?r)) \<subseteq> {CHR ''-''}"
    using set_takeWhileD by fastforce
  ultimately show ?thesis unfolding clean_name_rev by (metis rev_rev_ident)
qed

lemma clean_name_set: "set (clean_name s) \<subseteq> set (replace_special (to_lower s))"
  using clean_name_prefix [of s] by auto

lemma lower_char_not_upper: "\<not> (65 \<le> (of_char (lower_char c) :: nat) \<and> of_char (lower_char c) \<le> (90 :: nat))"
proof (cases "65 \<le> (of_char c :: nat) \<and> (of_char c :: nat) \<le> 90")
  case True
  then have "(of_char (lower_char c) :: nat) = of_char c + 32"
    by (simp add: lower_char_def Let_def)
  with True show ?thesis by simp
next
  case False
  then have eq: "lower_char c = c" unfolding lower_char_def Let_def by (rule if_not_P)
  show ?thesis unfolding eq by (rule False)
qed

lemma lower_char_idem [simp]: "lower_char (lower_char c) = lower_char c"
  using lower_char_not_upper [of c] unfolding lower_char_def [of "lower_char c"] Let_def by (rule if_not_P)

lemma clean_name_no_special: "c \<in> set (clean_name s) \<Longrightarrow> c \<notin> set replace_chars"
  using clean_name_set [of s] by (auto simp: replace_special_def replace_chars_def split: if_splits)

lemma clean_name_last:
  assumes "clean_name s \<noteq> []" shows "last (clean_name s) \<noteq> CHR ''-''"
proof -
  let ?d = "dropWhile (\<lambda>c. c = CHR ''-'') (rev (replace_special (to_lower s)))"
  have ne: "?d \<noteq> []" using assms unfolding clean_name_rev by (simp only: rev_is_Nil_conv not_False_eq_True)
  have "last (clean_name s) = hd ?d" unfolding clean_name_rev by (rule last_rev)
  with hd_dropWhile [OF ne] show ?thesis by metis
qed

lemma clean_name_length: "length (clean_name s) \<le> length s"
proof -
  obtain ds where "replace_special (to_lower s) = clean_name s @ ds" using clean_name_prefix by blast
  then have "length (clean_name s) \<le> length (replace_special (to_lower s))" by simp
  also have "\<dots> = length s" by (simp add: replace_special_def to_lower_def)
  finally show ?thesis .
qed

lemma lower_char_dash [simp]: "lower_char (CHR ''-'') = CHR ''-''"
  by (simp add: lower_char_def)

lemma clean_name_fixed:
  assumes "c \<in> set (clean_name s)" shows "lower_char c = c"
proof -
  from assms clean_name_set [of s] have "c \<in> set (replace_special (to_lower s))" by blast
  then show ?thesis by (auto simp: replace_special_def to_lower_def)
qed

lemma clean_name_idem: "clean_name (clean_name s) = clean_name s"
proof -
  let ?t = "clean_name s"
  have "to_lower ?t = ?t" by (simp add: to_lower_def map_idI clean_name_fixed)
  moreover have "replace_special ?t = ?t"
    by (simp add: replace_special_def map_idI clean_name_no_special)
  ultimately have "clean_name ?t = rev (dropWhile (\<lambda>c. c = CHR ''-'') (rev ?t))"
    by (simp add: clean_name_rev [of ?t])
  also have "\<dots> = ?t"
  proof (cases "?t = []")
    case False
    with clean_name_last [of s] have "hd (rev ?t) \<noteq> CHR ''-''" by (simp add: hd_rev)
    then have "dropWhile (\<lambda>c. c = CHR ''-'') (rev ?t) = rev ?t"
      using False by (metis (mono_tags, lifting) dropWhile_eq_self_iff)
    then show ?thesis by simp
  qed simp
  finally show ?thesis .
qed

text \<open>A name that ends in an ordinary character is not cleaned away.\<close>
lemma clean_name_snoc:
  assumes "c \<notin> set replace_chars" "lower_char c = c" "c \<noteq> CHR ''-''"
  shows "clean_name (s @ [c]) = replace_special (to_lower s) @ [c]"
  using assms by (simp add: clean_name_rev to_lower_def replace_special_def)

section \<open>Wait times\<close>

definition max_wait :: "duration \<Rightarrow> duration \<Rightarrow> duration" where
  "max_wait mwt default_val = (if mwt = 0 then default_val else mwt)"

section \<open>Labels\<close>

text \<open>SimpleResourceLabeler.LabelResource: the resource's own labels win.\<close>
definition label_resource :: "strmap option \<Rightarrow> objmeta \<Rightarrow> objmeta" where
  "label_resource common m = (case common of
      None \<Rightarrow> m
    | Some cl \<Rightarrow> m\<lparr>om_labels := Some (cl ++ (case om_labels m of None \<Rightarrow> Map.empty | Some ls \<Rightarrow> ls))\<rparr>)"

section \<open>Waiting for a condition\<close>

text \<open>
  How toolswatch.UntilWithSync uses its callbacks on what it delivers: the precondition once
  on the synced store, then the condition on each event, until one reports an
  error or that it is done.
\<close>
fun run_conditions :: "('st \<Rightarrow> bool \<times> 'o option \<Rightarrow> 'st \<times> bool \<times> error) \<Rightarrow> 'st
    \<Rightarrow> (bool \<times> 'o option) list \<Rightarrow> goerr \<Rightarrow> 'st \<times> error" where
  "run_conditions cond st [] end_err = (st, Some end_err)"
| "run_conditions cond st (ev # evs) end_err = (case cond st ev of
      (st', matched, Some e) \<Rightarrow> (st', Some e)
    | (st', matched, None) \<Rightarrow> if matched then (st', None) else run_conditions cond st' evs end_err)"

definition until_with_sync :: "'o watch_run \<Rightarrow> ('st \<Rightarrow> 'o list \<Rightarrow> 'st \<times> bool \<times> error)
    \<Rightarrow> ('st \<Rightarrow> bool \<times> 'o option \<Rightarrow> 'st \<times> bool \<times> error) \<Rightarrow> 'st \<Rightarrow> 'st \<times> error" where
  "until_with_sync run precond cond st = (case wr_sync run of
      None \<Rightarrow> (st, Some (wr_end run))
    | Some items \<Rightarrow> (case precond st items of
          (st', matched, Some e) \<Rightarrow> (st', Some e)
        | (st', matched, None) \<Rightarrow> if matched then (st', None)
            else run_conditions cond st' (wr_events run) (wr_end run)))"

text \<open>
  A WaitEventProcessor: given what it captured (\<^verbatim>\<open>'acc\<close>) and an object, the result,
  whether the condition is met, and an error.  The state threaded through the callbacks is what the
  processor captured together with the last result.
\<close>
type_synonym ('acc, 'o, 'v) processor = "'acc \<Rightarrow> 'o \<Rightarrow> 'acc \<times> 'v option \<times> bool \<times> error"

fun initial_check :: "('acc, 'o, 'v) processor \<Rightarrow> 'acc \<times> 'v option \<Rightarrow> 'o list
    \<Rightarrow> ('acc \<times> 'v option) \<times> bool \<times> error" where
  "initial_check pe st [] = (st, False, None)"
| "initial_check pe (acc, res) (x # xs) = (case pe acc x of (acc', v, matched, e) \<Rightarrow>
     if matched \<or> e \<noteq> None then ((acc', v), matched, trace_wrap ''initial precondition'' e)
     else initial_check pe (acc', v) xs)"

fun typed_process_event :: "('acc, 'o, 'v) processor \<Rightarrow> 'acc \<times> 'v option \<Rightarrow> bool \<times> 'o option
    \<Rightarrow> ('acc \<times> 'v option) \<times> bool \<times> error" where
  "typed_process_event pe st (_, None) = (st, False, Some (errorf ''failed to cast item''))"
| "typed_process_event pe (acc, res) (_, Some x) = (case pe acc x of (acc', v, matched, e) \<Rightarrow>
     ((acc', v), matched, trace_wrap ''processing event'' e))"

definition run_wait :: "('acc, 'o, 'v) processor \<Rightarrow> 'acc \<Rightarrow> 'o watch_run \<Rightarrow> goerr + 'v option" where
  "run_wait pe acc run =
     (case until_with_sync run (initial_check pe) (typed_process_event pe) (acc, None) of
        ((_, res), e) \<Rightarrow> (case trace_wrap ''waiting for condition'' e of
            Some e' \<Rightarrow> Inl e' | None \<Rightarrow> Inr res))"

text \<open>waitForResourceCondition; \<^verbatim>\<open>selector\<close> is the field or label selector of the call.\<close>
definition wait_for_resource_condition :: "kind \<Rightarrow> (world \<Rightarrow> 'o kapi) \<Rightarrow> duration \<Rightarrow> string \<Rightarrow> string
    \<Rightarrow> ('acc, 'o, 'v) processor \<Rightarrow> 'acc \<Rightarrow> ('s, 'v option) prog" where
  "wait_for_resource_condition K api timeout ns selector pe acc =
     bnd (api_watch K api ns selector timeout) (\<lambda>run. lift_res (run_wait pe acc run))"

definition by_name :: "string \<Rightarrow> string" where "by_name n = ''metadata.name='' @ n"

definition wait_for_resource_deletion :: "kind \<Rightarrow> (world \<Rightarrow> 'o kapi) \<Rightarrow> duration \<Rightarrow> string \<Rightarrow> string
    \<Rightarrow> ('s, unit) prog" where
  "wait_for_resource_deletion K api timeout ns n =
     bnd (api_watch K api ns (by_name n) timeout) (\<lambda>run.
       lift_err (trace_wrap ''waiting for deletion''
         (snd (until_with_sync run (\<lambda>st items. (st, items = [], None))
                 (\<lambda>st ev. (st, fst ev, None)) ()))))"

text \<open>The caller dereferences the result of a wait that returned no error.\<close>
definition deref :: "'v option \<Rightarrow> ('s, 'v) prog" where
  "deref v = (case v of None \<Rightarrow> fail (errorf ''nil pointer dereference'') | Some x \<Rightarrow> ret x)"

text \<open>The objects a wait can have looked at.\<close>
definition delivered :: "'o watch_run \<Rightarrow> 'o set" where
  "delivered run = (case wr_sync run of None \<Rightarrow> {} | Some items \<Rightarrow>
      set items \<union> {x. \<exists>d. (d, Some x) \<in> set (wr_events run)})"

text \<open>What an invariant of a processor's state says about the result of a wait.\<close>
lemma run_wait_inv:
  assumes init: "I acc"
    and step: "\<And>acc x acc' v m e. I acc \<Longrightarrow> x \<in> delivered run \<Longrightarrow> pe acc x = (acc', v, m, e) \<Longrightarrow>
        I acc' \<and> (m \<longrightarrow> e = None \<longrightarrow> Q v)"
    and ok: "run_wait pe acc run = Inr v"
  shows "Q v"
proof -
  have check: "initial_check pe (a, res) items = ((a', v'), m, e) \<Longrightarrow> I a \<Longrightarrow> set items \<subseteq> delivered run \<Longrightarrow>
      I a' \<and> (m \<longrightarrow> e = None \<longrightarrow> Q v')" for a res items a' v' m e
  proof (induction items arbitrary: a res)
    case (Cons x xs)
    obtain a1 v1 m1 e1 where pe: "pe a x = (a1, v1, m1, e1)" by (metis prod_cases4)
    with step [OF Cons.prems(2) _ pe] Cons.prems Cons.IH [of a1 v1] show ?case
      by (auto split: if_splits)
  qed simp
  have conds: "run_conditions (typed_process_event pe) (a, res) evs end_err = ((a', v'), None) \<Longrightarrow>
      I a \<Longrightarrow> (\<And>d x. (d, Some x) \<in> set evs \<Longrightarrow> x \<in> delivered run) \<Longrightarrow> Q v'" for a res evs end_err a' v'
  proof (induction evs arbitrary: a res)
    case (Cons ev evs)
    obtain d ox where ev: "ev = (d, ox)" by (cases ev)
    show ?case
    proof (cases ox)
      case None
      with Cons.prems ev show ?thesis by simp
    next
      case (Some x)
      obtain a1 v1 m1 e1 where pe: "pe a x = (a1, v1, m1, e1)" by (metis prod_cases4)
      have "x \<in> delivered run" using Cons.prems(3) [of d x] ev Some by simp
      with step [OF Cons.prems(2) this pe] Cons.prems Cons.IH [of a1 v1] ev Some pe show ?thesis
        by (cases e1) (auto split: if_splits)
    qed
  qed simp
  obtain a0 v0 e where u: "until_with_sync run (initial_check pe) (typed_process_event pe) (acc, None) = ((a0, v0), e)"
    by (metis prod.collapse)
  from ok u have e: "e = None" and v: "v = v0"
    by (auto simp: run_wait_def split: option.splits)
  from u e obtain items where items: "wr_sync run = Some items"
    by (auto simp: until_with_sync_def split: option.splits)
  obtain a1 v1 m e1 where i: "initial_check pe (acc, None) items = ((a1, v1), m, e1)"
    by (metis prod.collapse)
  have e1: "e1 = None" using u e items i by (auto simp: until_with_sync_def split: option.splits)
  have sub: "set items \<subseteq> delivered run" using items by (simp add: delivered_def)
  show ?thesis
  proof (cases m)
    case True
    with u e items i e1 have "v1 = v0" by (simp add: until_with_sync_def)
    with check [OF i init sub] True v e1 show ?thesis by simp
  next
    case False
    with u e items i e1
    have "run_conditions (typed_process_event pe) (a1, v1) (wr_events run) (wr_end run) = ((a0, v0), None)"
      by (simp add: until_with_sync_def)
    from conds [OF this] check [OF i init sub] items v show ?thesis by (auto simp: delivered_def)
  qed
qed

text \<open>
  The interface between a wait and the processors given to it: a processor
  that keeps no state, reports the object itself exactly when \<^verbatim>\<open>ready\<close> holds and otherwise only
  an error for a state it cannot leave.
\<close>
locale readiness =
  fixes pe :: "(unit, 'o, 'o) processor" and ready :: "'o \<Rightarrow> bool"
  assumes pe_ready: "ready x \<Longrightarrow> pe () x = ((), Some x, True, None)"
    and pe_not_ready: "\<not> ready x \<Longrightarrow> \<exists>e. pe () x = ((), None, False, e)"
begin

text \<open>A wait that returns no error returns an object that the API delivered and that is ready.\<close>
lemma run_wait_ok:
  assumes "run_wait pe () run = Inr v"
  shows "\<exists>x \<in> delivered run. v = Some x \<and> ready x"
proof (rule run_wait_inv [where I = "\<lambda>_. True" and Q = "\<lambda>v. \<exists>x \<in> delivered run. v = Some x \<and> ready x", OF _ _ assms])
  fix acc :: unit and x acc' v' m e
  assume x: "x \<in> delivered run" and pe: "pe acc x = (acc', v', m, e)"
  show "True \<and> (m \<longrightarrow> e = None \<longrightarrow> (\<exists>x \<in> delivered run. v' = Some x \<and> ready x))"
    using x pe pe_ready [of x] pe_not_ready [of x] by (cases "ready x") auto
qed simp

lemma initial_check_finds:
  assumes "\<And>x. x \<in> set items \<Longrightarrow> pe () x = ((), None, False, None) \<or> ready x"
    and "\<exists>x \<in> set items. ready x"
  shows "\<exists>x \<in> set items. ready x \<and> initial_check pe ((), res) items = (((), Some x), True, None)"
  using assms
proof (induction items arbitrary: res)
  case (Cons x xs)
  show ?case
  proof (cases "ready x")
    case True
    then show ?thesis by (simp add: pe_ready)
  next
    case False
    with Cons.prems have pe: "pe () x = ((), None, False, None)" by auto
    from False Cons.prems have "\<exists>x \<in> set xs. ready x" by auto
    with Cons.IH [of None] Cons.prems(1)
    have "\<exists>x \<in> set xs. ready x \<and> initial_check pe ((), None) xs = (((), Some x), True, None)"
      by simp
    with pe show ?thesis by auto
  qed
qed simp

text \<open>The wait does not need an event when the listed objects already hold a ready one.\<close>
lemma run_wait_listed:
  assumes "wr_sync run = Some items"
    and "\<And>x. x \<in> set items \<Longrightarrow> pe () x = ((), None, False, None) \<or> ready x"
    and "\<exists>x \<in> set items. ready x"
  shows "\<exists>x \<in> set items. run_wait pe () run = Inr (Some x) \<and> ready x"
proof -
  from initial_check_finds [OF assms(2,3)] obtain x
    where x: "x \<in> set items" "ready x" "initial_check pe ((), None) items = (((), Some x), True, None)"
    by blast
  then have "run_wait pe () run = Inr (Some x)"
    using assms(1) by (simp add: run_wait_def until_with_sync_def)
  with x show ?thesis by blast
qed

end

end
