(* ===== verification/Cleanup.thy ===== *)
theory Cleanup
  imports Helpers
begin

text \<open>
  \<^verbatim>\<open>src/pkg/cleanup/cleanup.go\<close>: the builder for deferred cleanup logic, and the two
  ways the program uses it: \<^verbatim>\<open>deferred\<close> for
  \<^verbatim>\<open>defer cleanup.To(...).WithOriginalErr(&err)....Run()\<close> and \<^verbatim>\<open>err_handler\<close> for the
  \<^verbatim>\<open>errHandler\<close> closures that return \<^verbatim>\<open>RunError()\<close>.
\<close>

definition default_cleanup_timeout :: duration where
  "default_cleanup_timeout = 10 * minute"

text \<open>
  \<^verbatim>\<open>cl_original\<close> is None when no error pointer was given, otherwise the
  error it points to; \<^verbatim>\<open>cl_parent\<close> is the log prefix of the parent context.
\<close>
record 's cleanup =
  cl_logic :: "('s, unit) prog option"
  cl_on_err :: string
  cl_original :: "error option"
  cl_parent :: "string option"
  cl_timeout :: duration

definition cleanup_to :: "('s, unit) prog \<Rightarrow> 's cleanup" where
  "cleanup_to logic = \<lparr> cl_logic = Some logic, cl_on_err = [], cl_original = None,
     cl_parent = None, cl_timeout = 0 \<rparr>"

definition with_err_message :: "string \<Rightarrow> 's cleanup \<Rightarrow> 's cleanup" where
  "with_err_message tag c = c\<lparr>cl_on_err := tag\<rparr>"

definition with_original_err :: "error \<Rightarrow> 's cleanup \<Rightarrow> 's cleanup" where
  "with_original_err e c = c\<lparr>cl_original := Some e\<rparr>"

definition with_parent_ctx :: "string \<Rightarrow> 's cleanup \<Rightarrow> 's cleanup" where
  "with_parent_ctx prefix c = c\<lparr>cl_parent := Some prefix\<rparr>"

definition with_timeout :: "duration \<Rightarrow> 's cleanup \<Rightarrow> 's cleanup" where
  "with_timeout t c = c\<lparr>cl_timeout := t\<rparr>"

text \<open>The context of the cleanup logic: log prefix and timeout; it is never the parent's.\<close>
record cleanup_ctx =
  cx_prefix :: string
  cx_timeout :: duration

definition build_context :: "'s cleanup \<Rightarrow> cleanup_ctx" where
  "build_context c =
     (let prefix = (case cl_parent c of None \<Rightarrow> [] | Some p \<Rightarrow> p);
          timeout = (if cl_timeout c = 0 then default_cleanup_timeout else cl_timeout c)
      in \<lparr> cx_prefix = prefix @ ''***'', cx_timeout = timeout \<rparr>)"

text \<open>RunError: the returned error and what the error pointer holds afterwards.\<close>
definition run_error :: "'s cleanup \<Rightarrow> ('s, error \<times> error option) prog" where
  "run_error c = (case cl_logic c of
      None \<Rightarrow> ret (None, cl_original c)
    | Some logic \<Rightarrow> (\<lambda>w s tr. case logic w s tr of (r, s', tr') \<Rightarrow>
        let cleanup_err = trace_wrap (cl_on_err c) (err_of r) in
        (case cl_original c of
           None \<Rightarrow> (Inr (cleanup_err, None), s', tr')
         | Some orig \<Rightarrow> (let agg = new_aggregate [orig, cleanup_err] in
             (Inr (agg, Some agg), s', tr')))))"

definition run_quiet :: "'s cleanup \<Rightarrow> ('s, error option) prog" where
  "run_quiet c = bnd (run_error c) (\<lambda>(_, orig). ret orig)"

text \<open>RunPanic: a panic is the error branch.\<close>
definition run_panic :: "'s cleanup \<Rightarrow> ('s, unit) prog" where
  "run_panic c = bnd (run_error c) (\<lambda>(e, _). lift_err e)"

text \<open>
  \<^verbatim>\<open>defer cleanup.To(logic).WithErrMessage(tag).WithOriginalErr(&err).Run()\<close> around the rest
  of the function; the logic may look at the error, which it reads through the named result.
\<close>
definition deferred :: "string \<Rightarrow> (error \<Rightarrow> ('s, unit) prog) \<Rightarrow> ('s, 'a) prog \<Rightarrow> ('s, 'a) prog" where
  "deferred tag logic m = finally_do (\<lambda>e.
     bnd (run_quiet (with_original_err e (with_err_message tag (cleanup_to (logic e)))))
       (\<lambda>orig. ret (case orig of None \<Rightarrow> e | Some e' \<Rightarrow> e'))) m"

text \<open>\<^verbatim>\<open>return errHandler(err, ...)\<close> at every early return of the function.\<close>
definition err_handler :: "string \<Rightarrow> ('s, unit) prog \<Rightarrow> ('s, 'a) prog \<Rightarrow> ('s, 'a) prog" where
  "err_handler tag logic m = on_error_do (\<lambda>e.
     bnd (run_error (with_original_err e (with_err_message tag (cleanup_to logic))))
       (\<lambda>(agg, _). ret agg)) m"

lemma run_error_to [prog_simps]:
  "run_error (with_original_err e (with_err_message tag (cleanup_to logic))) w s tr =
     (case logic w s tr of (r, s', tr') \<Rightarrow>
        let agg = new_aggregate [e, trace_wrap tag (err_of r)] in (Inr (agg, Some agg), s', tr'))"
  by (simp add: run_error_def with_original_err_def with_err_message_def cleanup_to_def
      split: prod.splits)

lemma run_error_plain [prog_simps]:
  "run_error (with_err_message tag (cleanup_to logic)) w s tr =
     (case logic w s tr of (r, s', tr') \<Rightarrow> (Inr (trace_wrap tag (err_of r), None), s', tr'))"
  by (simp add: run_error_def with_err_message_def cleanup_to_def)

text \<open>
  The result of a deferred cleanup: success exactly when body and cleanup succeed; otherwise the
  aggregate of both errors.  The cleanup runs in every case.
\<close>
definition merge_err :: "goerr + 'a \<Rightarrow> error \<Rightarrow> goerr + 'a" where
  "merge_err r e = (case new_aggregate [err_of r, e] of None \<Rightarrow> r | Some x \<Rightarrow> Inl x)"

lemma deferred_run [prog_simps]:
  "deferred tag logic m w s tr = (case m w s tr of (r, s1, tr1) \<Rightarrow>
     (case logic (err_of r) w s1 tr1 of (rc, s2, tr2) \<Rightarrow>
        (merge_err r (trace_wrap tag (err_of rc)), s2, tr2)))"
  by (auto simp: deferred_def run_quiet_def prog_simps Let_def merge_err_def err_of_def new_aggregate_pair
      split: prod.splits sum.splits option.splits)

lemma err_handler_run [prog_simps]:
  "err_handler tag logic m w s tr = (case m w s tr of
      (Inr x, s1, tr1) \<Rightarrow> (Inr x, s1, tr1)
    | (Inl e, s1, tr1) \<Rightarrow> (case logic w s1 tr1 of (rc, s2, tr2) \<Rightarrow>
        (merge_err (Inl e) (trace_wrap tag (err_of rc)), s2, tr2)))"
  by (auto simp: err_handler_def prog_simps Let_def merge_err_def new_aggregate_pair
      split: prod.splits sum.splits option.splits)

lemma merge_err_simps [simp]:
  "merge_err (Inr x) None = Inr x"
  "merge_err r None = Inr x \<longleftrightarrow> r = Inr x"
  "merge_err r (Some e) \<noteq> Inr x"
  "merge_err (Inl e) e' \<noteq> Inr x"
  by (auto simp: merge_err_def err_of_def new_aggregate_def List.map_filter_def
      split: sum.splits option.splits)

lemma merge_err_Inr: "merge_err r e = Inr x \<longleftrightarrow> r = Inr x \<and> e = None"
  by (cases e) auto

lemma merge_err_causes:
  "merge_err r e = Inl x \<Longrightarrow>
     causes x = (case err_of r of None \<Rightarrow> [] | Some a \<Rightarrow> causes a)
        @ (case e of None \<Rightarrow> [] | Some b \<Rightarrow> causes b)"
  by (cases r; cases e) (auto simp: merge_err_def new_aggregate_def List.map_filter_def)

lemma deferredE [prog_elims]:
  assumes "deferred tag logic m w s tr = (r, s', tr')"
  obtains r1 s1 tr1 rc where "m w s tr = (r1, s1, tr1)"
    "logic (err_of r1) w s1 tr1 = (rc, s', tr')" "r = merge_err r1 (trace_wrap tag (err_of rc))"
  using assms by (auto simp: prog_simps split: prod.splits)

lemma err_handlerE [prog_elims]:
  assumes "err_handler tag logic m w s tr = (r, s', tr')"
  obtains x where "m w s tr = (Inr x, s', tr')" "r = Inr x"
  | e s1 tr1 rc where "m w s tr = (Inl e, s1, tr1)" "logic w s1 tr1 = (rc, s', tr')"
      "r = merge_err (Inl e) (trace_wrap tag (err_of rc))"
  using assms by (auto simp: prog_simps split: prod.splits sum.splits)

text \<open>C33: a deferred cleanup runs after the operation whatever it returned; together they succeed exactly
  when both do, and otherwise the error aggregates the operation's and the wrapped cleanup's, in this order.\<close>
theorem deferred_outcome:
  "deferred tag logic m w s tr = (r, s', tr') \<longleftrightarrow>
     (\<exists>r1 s1 tr1 rc. m w s tr = (r1, s1, tr1) \<and> logic (err_of r1) w s1 tr1 = (rc, s', tr') \<and>
        ((\<exists>x. r = Inr x \<and> r1 = Inr x \<and> err_of rc = None) \<or>
         (\<exists>e. r = Inl e \<and> \<not> (err_of r1 = None \<and> err_of rc = None) \<and>
            e = AggErr (List.map_filter id [err_of r1, trace_wrap tag (err_of rc)]))))"
  by (cases "m w s tr"; cases "logic (err_of (fst (m w s tr))) (w) (fst (snd (m w s tr))) (snd (snd (m w s tr)))")
    (auto simp: prog_simps merge_err_def new_aggregate_def List.map_filter_def err_of_def
      split: sum.splits option.splits)

end
