(* ===== verification/Core.thy ===== *)
theory Core
  imports Helpers "HOL-Library.AList"
begin

text \<open>
  \<^verbatim>\<open>src/pkg/kubecluster/primatives/core\<close>: the client for PVCs, pods, services, endpoint
  slices and jobs, and the helpers that turn single-container volumes into the volumes and mounts of
  a pod.  Each method is one or two API calls of World plus its error handling.
\<close>

section \<open>PVCs (pvc.go)\<close>

record create_pvc_options =
  cpo_generate :: bool
  cpo_class :: string
  cpo_source :: "typed_ref option"

definition create_pvc :: "string \<Rightarrow> string \<Rightarrow> quantity \<Rightarrow> create_pvc_options \<Rightarrow> ('s, pvc) prog" where
  "create_pvc ns pvc_name sz opts =
     (let p = \<lparr> pvc_meta = set_name (cpo_generate opts) empty_meta pvc_name,
                pvc_access = [''ReadWriteOnce''], pvc_size = Some sz, pvc_source = cpo_source opts,
                pvc_class = (if cpo_class opts \<noteq> [] then Some (cpo_class opts) else None) \<rparr>
      in wrapping ''create pvc'' (api_create KPVC w_pvc pvc_meta ns p))"

definition get_pvc :: "string \<Rightarrow> string \<Rightarrow> ('s, pvc) prog" where
  "get_pvc ns n = wrapping ''query pvc'' (api_get KPVC w_pvc ns n)"

text \<open>LabelSelectorAsSelector rejects malformed selectors; it is a parameter of the model.\<close>
definition list_pvcs :: "(label_selector \<Rightarrow> error) \<Rightarrow> string \<Rightarrow> label_selector \<Rightarrow> ('s, pvc list) prog" where
  "list_pvcs as_selector ns sel =
     thn (wrapping ''convert label selector'' (lift_err (as_selector sel)))
         (wrapping ''list pvcs'' (api_list KPVC w_pvc ns sel))"

definition does_pvc_exist :: "string \<Rightarrow> string \<Rightarrow> ('s, bool) prog" where
  "does_pvc_exist ns n = (\<lambda>w s tr. case get_pvc ns n w s tr of
      (Inr _, s', tr') \<Rightarrow> (Inr True, s', tr')
    | (Inl e, s', tr') \<Rightarrow> if is_kind NotFound e then (Inr False, s', tr')
        else (Inl (WrapErr ''query pvc'' e), s', tr'))"

definition ensure_pvc_exists :: "string \<Rightarrow> string \<Rightarrow> quantity \<Rightarrow> create_pvc_options \<Rightarrow> ('s, pvc) prog" where
  "ensure_pvc_exists ns n sz opts = (\<lambda>w s tr. case get_pvc ns n w s tr of
      (Inr p, s', tr') \<Rightarrow> (Inr p, s', tr')
    | (Inl e, s', tr') \<Rightarrow> if \<not> is_kind NotFound e then (Inl (WrapErr ''query pvc'' e), s', tr')
        else wrapping ''create PVC'' (create_pvc ns n sz opts) w s' tr')"

definition delete_pvc :: "string \<Rightarrow> string \<Rightarrow> ('s, unit) prog" where
  "delete_pvc ns n = wrapping ''delete volume'' (api_delete KPVC w_pvc ns n)"

section \<open>Pods (pod.go)\<close>

definition create_pod :: "string \<Rightarrow> pod \<Rightarrow> ('s, pod) prog" where
  "create_pod ns p = bnd (ask w_common_labels) (\<lambda>common.
     wrapping ''create pod'' (api_create KPod w_pod pod_meta ns
       (p\<lparr>pod_meta := label_resource common (pod_meta p)\<rparr>)))"

definition pod_processor :: "(unit, pod, pod) processor" where
  "pod_processor _ p = (if condition_true cond_ready (pod_conditions p)
     then ((), Some p, True, None) else ((), None, False, None))"

definition wait_for_ready_pod :: "string \<Rightarrow> string \<Rightarrow> duration \<Rightarrow> ('s, pod) prog" where
  "wait_for_ready_pod ns n max_wait_time = wrapping ''wait for pod''
     (bnd (wait_for_resource_condition KPod w_pod (max_wait max_wait_time minute) ns (by_name n)
             pod_processor ()) deref)"

definition delete_pod :: "string \<Rightarrow> string \<Rightarrow> ('s, unit) prog" where
  "delete_pod ns n = wrapping ''delete pod'' (api_delete KPod w_pod ns n)"

definition exec_in_pod :: "string \<Rightarrow> string \<Rightarrow> string \<Rightarrow> string list \<Rightarrow> ('s, string) prog" where
  "exec_in_pod ns pod_name ct command = wrapping ''exec in pod''
     (\<lambda>w s tr. (w_exec w tr ns pod_name command, s, tr @ [Execed ns pod_name ct command]))"

section \<open>Single-container volumes (pod.go)\<close>

record scv =
  scv_name :: string
  scv_paths :: "string list"
  scv_source :: volume_source

definition with_mount_path :: "string \<Rightarrow> scv \<Rightarrow> scv" where
  "with_mount_path p v = v\<lparr>scv_paths := scv_paths v @ [p]\<rparr>"

definition to_volume :: "scv \<Rightarrow> volume" where
  "to_volume v = \<lparr> vol_name = scv_name v, vol_source = scv_source v \<rparr>"

definition to_volume_mounts :: "scv \<Rightarrow> volume_mount list" where
  "to_volume_mounts v = map (\<lambda>p. \<lparr> vm_name = scv_name v, vm_path = p \<rparr>) (scv_paths v)"

definition new_single_container_pvc :: "string \<Rightarrow> string \<Rightarrow> scv" where
  "new_single_container_pvc pvc_name mount_path =
     \<lparr> scv_name = pvc_name, scv_paths = [mount_path],
       scv_source = \<lparr> vs_pvc = Some pvc_name, vs_secret = None \<rparr> \<rparr>"

definition new_single_container_secret :: "string \<Rightarrow> string \<Rightarrow> key_to_path list \<Rightarrow> scv" where
  "new_single_container_secret secret_name mount_path items =
     \<lparr> scv_name = secret_name, scv_paths = [mount_path],
       scv_source = \<lparr> vs_pvc = None,
         vs_secret = Some \<lparr> ss_name = secret_name, ss_mode = 256, ss_items = items \<rparr> \<rparr> \<rparr>"

text \<open>lo.Uniq keeps the first occurrence of each element.\<close>
fun uniq :: "'a list \<Rightarrow> 'a list" where
  "uniq [] = []"
| "uniq (x # xs) = x # filter (\<lambda>y. y \<noteq> x) (uniq xs)"

text \<open>
  One iteration of the merge loop.  The map is an association list in insertion order (Go iterates
  it in an arbitrary order); \<^verbatim>\<open>gen\<close> is the random name generator, given the number of names it
  has generated in this call.
\<close>
definition convert_step :: "(nat \<Rightarrow> string \<Rightarrow> string) \<Rightarrow> (string \<times> scv) list \<times> nat \<Rightarrow> scv
    \<Rightarrow> (string \<times> scv) list \<times> nat" where
  "convert_step gen st incoming = (case st of (m, k) \<Rightarrow>
     (case map_of m (scv_name incoming) of
        None \<Rightarrow> (AList.update (scv_name incoming) incoming m, k)
      | Some reduced \<Rightarrow>
         (case (vs_pvc (scv_source reduced), vs_pvc (scv_source incoming)) of
            (Some c1, Some c2) \<Rightarrow>
              if c1 \<noteq> c2 then
                (let n = gen k (scv_name incoming @ ''-'')
                 in (AList.update n (incoming\<lparr>scv_name := n\<rparr>) m, Suc k))
              else
                (AList.update (scv_name reduced)
                   (reduced\<lparr>scv_paths := uniq (scv_paths reduced @ scv_paths incoming)\<rparr>) m, k)
          | _ \<Rightarrow>
         (case (vs_secret (scv_source reduced), vs_secret (scv_source incoming)) of
            (Some s1, Some s2) \<Rightarrow>
              if ss_name s1 \<noteq> ss_name s2 then
                (let n = gen k (scv_name incoming @ ''-'')
                 in (AList.update n (incoming\<lparr>scv_name := n\<rparr>) m, Suc k))
              else
                (let merged = uniq (ss_items s1 @ ss_items s2);
                     s1' = (if merged \<noteq> [] then s1\<lparr>ss_items := merged\<rparr> else s1)
                 in (AList.update (scv_name reduced)
                       (reduced\<lparr>scv_paths := uniq (scv_paths reduced @ scv_paths incoming),
                                scv_source := (scv_source reduced)\<lparr>vs_secret := Some s1'\<rparr>\<rparr>) m, k))
          | _ \<Rightarrow> (m, k)))))"

definition reduce_scvs :: "(nat \<Rightarrow> string \<Rightarrow> string) \<Rightarrow> scv list \<Rightarrow> (string \<times> scv) list" where
  "reduce_scvs gen scvs = fst (foldl (convert_step gen) ([], 0) scvs)"

definition convert_scvs :: "(nat \<Rightarrow> string \<Rightarrow> string) \<Rightarrow> scv list \<Rightarrow> volume list \<times> volume_mount list" where
  "convert_scvs gen scvs = (let m = reduce_scvs gen scvs in
     (map (\<lambda>(_, v). to_volume v) m, concat (map (\<lambda>(_, v). to_volume_mounts v) m)))"

section \<open>Security contexts (pod.go)\<close>

definition restricted_pod_security_context :: "nat \<Rightarrow> nat \<Rightarrow> pod_security_context" where
  "restricted_pod_security_context uid gid =
     \<lparr> psc_user = uid, psc_group = gid, psc_nonroot = True, psc_seccomp = ''RuntimeDefault'' \<rparr>"

definition restricted_container_security_context :: "nat \<Rightarrow> nat \<Rightarrow> security_context" where
  "restricted_container_security_context uid gid =
     \<lparr> sc_user = uid, sc_group = gid, sc_nonroot = True, sc_drop = [''ALL''], sc_add = [],
       sc_privileged = False, sc_readonly_root = True, sc_escalation = False,
       sc_seccomp = ''RuntimeDefault'' \<rparr>"

definition file_management_pod_security_context :: pod_security_context where
  "file_management_pod_security_context =
     \<lparr> psc_user = 0, psc_group = 0, psc_nonroot = False, psc_seccomp = ''RuntimeDefault'' \<rparr>"

definition file_management_container_security_context :: security_context where
  "file_management_container_security_context =
     \<lparr> sc_user = 0, sc_group = 0, sc_nonroot = False, sc_drop = [''ALL''],
       sc_add = [''CHOWN'', ''DAC_OVERRIDE'', ''FOWNER'', ''FSETID''],
       sc_privileged = False, sc_readonly_root = True, sc_escalation = False,
       sc_seccomp = ''RuntimeDefault'' \<rparr>"

section \<open>Services and endpoints (service.go, endpoint.go)\<close>

record service_port =
  sp_name :: string
  sp_proto :: string
  sp_port :: nat
  sp_target :: "string + nat"

definition container_port_to_service_port :: "container_port \<Rightarrow> service_port" where
  "container_port_to_service_port cp =
     \<lparr> sp_name = cp_name cp, sp_proto = cp_proto cp, sp_port = cp_port cp,
       sp_target = (if cp_name cp \<noteq> [] then Inl (cp_name cp) else Inr (cp_port cp)) \<rparr>"

definition create_service :: "string \<Rightarrow> service \<Rightarrow> ('s, service) prog" where
  "create_service ns svc = wrapping ''create service'' (api_create KService w_service svc_meta ns svc)"

definition service_ready :: "service \<Rightarrow> bool" where
  "service_ready svc = (case svc_type svc of
      ExternalName \<Rightarrow> list_ex (\<lambda>i. ing_ip i \<noteq> [] \<or> ing_host i \<noteq> []) (svc_ingress svc)
    | LoadBalancer \<Rightarrow> list_ex (\<lambda>i. ing_ip i \<noteq> [] \<or> ing_host i \<noteq> []) (svc_ingress svc)
    | NodePort \<Rightarrow> svc_cluster_ip svc \<noteq> [] \<or> svc_cluster_ips svc \<noteq> []
    | ClusterIP \<Rightarrow> svc_cluster_ip svc \<noteq> [] \<or> svc_cluster_ips svc \<noteq> []
    | OtherService _ \<Rightarrow> True)"

definition service_processor :: "(unit, service, service) processor" where
  "service_processor _ svc = (if service_ready svc
     then ((), Some svc, True, None) else ((), None, False, None))"

definition endpoint_ready :: "endpoint_slice \<Rightarrow> bool" where
  "endpoint_ready ep = list_ex (list_ex (\<lambda>a. a \<noteq> [])) (eps_addresses ep)"

definition endpoint_processor :: "(unit, endpoint_slice, endpoint_slice) processor" where
  "endpoint_processor _ ep = (if endpoint_ready ep
     then ((), Some ep, True, None) else ((), None, False, None))"

definition get_endpoint :: "string \<Rightarrow> string \<Rightarrow> ('s, endpoint_slice) prog" where
  "get_endpoint ns n = wrapping ''get endpoint'' (api_get KEndpoint w_endpoint ns n)"

definition wait_for_ready_endpoint :: "string \<Rightarrow> string \<Rightarrow> duration \<Rightarrow> ('s, endpoint_slice) prog" where
  "wait_for_ready_endpoint ns n max_wait_time = wrapping ''wait for endpoint''
     (bnd (wait_for_resource_condition KEndpoint w_endpoint (max_wait max_wait_time (5 * minute)) ns
             (by_name n) endpoint_processor ()) deref)"

definition wait_for_ready_service :: "string \<Rightarrow> string \<Rightarrow> duration \<Rightarrow> ('s, service) prog" where
  "wait_for_ready_service ns n max_wait_time =
     bnd (wrapping ''wait for service''
       (bnd (wait_for_resource_condition KService w_service (max_wait max_wait_time minute) ns
               (by_name n) service_processor ()) deref)) (\<lambda>svc.
     bnd (wrapping ''wait for endpoint of service'' (wait_for_ready_endpoint ns n max_wait_time)) (\<lambda>_.
     ret svc))"

definition delete_service :: "string \<Rightarrow> string \<Rightarrow> ('s, unit) prog" where
  "delete_service ns n = wrapping ''delete service'' (api_delete KService w_service ns n)"

section \<open>Jobs (job.go)\<close>

definition err_job_failed :: goerr where "err_job_failed = errorf ''job failed''"

definition job_has_true_condition :: "job \<Rightarrow> string \<Rightarrow> bool" where
  "job_has_true_condition j ty = list_ex (\<lambda>c. co_type c = ty \<and> co_status c = cond_true) (job_conditions j)"

definition job_processor :: "(unit, job, job) processor" where
  "job_processor _ j =
     (if job_has_true_condition j ''Complete'' then ((), Some j, True, None)
      else if job_has_true_condition j ''Failed''
      then ((), None, True, trace_wrap ''job failed'' (Some err_job_failed))
      else ((), None, False, None))"

definition wait_for_job_completion :: "string \<Rightarrow> string \<Rightarrow> duration \<Rightarrow> string \<Rightarrow> ('s, job) prog" where
  "wait_for_job_completion ns n max_wait_time selector = wrapping ''wait for job''
     (bnd (wait_for_resource_condition KJob w_job (max_wait max_wait_time (15 * minute)) ns
             (if selector \<noteq> [] then selector else by_name n) job_processor ()) deref)"

section \<open>The waits return ready objects\<close>

interpretation pod_wait: readiness pod_processor "\<lambda>p. condition_true cond_ready (pod_conditions p)"
  by unfold_locales (auto simp: pod_processor_def)

interpretation service_wait: readiness service_processor service_ready
  by unfold_locales (auto simp: service_processor_def)

interpretation endpoint_wait: readiness endpoint_processor endpoint_ready
  by unfold_locales (auto simp: endpoint_processor_def)

section \<open>Merging volumes\<close>

lemma set_uniq [simp]: "set (uniq xs) = set xs"
  by (induction xs) auto

lemma distinct_uniq [simp]: "distinct (uniq xs)"
  by (induction xs) auto

text \<open>Two volumes of the same name stand for the same claim or the same secret.\<close>
definition same_source :: "volume_source \<Rightarrow> volume_source \<Rightarrow> bool" where
  "same_source a b \<longleftrightarrow> (case (vs_pvc a, vs_pvc b) of
      (Some c1, Some c2) \<Rightarrow> c1 = c2
    | (None, None) \<Rightarrow> (case (vs_secret a, vs_secret b) of
          (Some s1, Some s2) \<Rightarrow> ss_name s1 = ss_name s2 | _ \<Rightarrow> False)
    | _ \<Rightarrow> False)"

definition compatible :: "scv list \<Rightarrow> bool" where
  "compatible scvs \<longleftrightarrow> (\<forall>a \<in> set scvs. \<forall>b \<in> set scvs.
     scv_name a = scv_name b \<longrightarrow> same_source (scv_source a) (scv_source b))"

text \<open>An entry of the merged map: all paths asked for under its name, and one of the sources.\<close>
definition entry_ok :: "scv list \<Rightarrow> string \<Rightarrow> scv \<Rightarrow> bool" where
  "entry_ok scvs k v \<longleftrightarrow> scv_name v = k \<and>
     (\<forall>p. p \<in> set (scv_paths v) \<longleftrightarrow> (\<exists>a \<in> set scvs. scv_name a = k \<and> p \<in> set (scv_paths a))) \<and>
     (\<exists>a \<in> set scvs. scv_name a = k \<and> same_source (scv_source a) (scv_source v))"

definition merged_inv :: "scv list \<Rightarrow> (string \<times> scv) list \<Rightarrow> bool" where
  "merged_inv scvs m \<longleftrightarrow> distinct (map fst m) \<and> fst ` set m = scv_name ` set scvs \<and>
     (\<forall>k v. (k, v) \<in> set m \<longrightarrow> entry_ok scvs k v)"

lemma same_source_trans: "same_source a b \<Longrightarrow> same_source b c \<Longrightarrow> same_source a c"
  by (auto simp: same_source_def split: option.splits)

lemma same_source_sym: "same_source a b \<Longrightarrow> same_source b a"
  by (auto simp: same_source_def split: option.splits)

lemma convert_step_new:
  "map_of m (scv_name x) = None \<Longrightarrow> convert_step gen (m, k) x = (AList.update (scv_name x) x m, k)"
  by (simp add: convert_step_def)

text \<open>On compatible volumes a step with a known name only adds its paths (and secret items).\<close>
lemma convert_step_merge:
  assumes m: "map_of m (scv_name x) = Some v" and same: "same_source (scv_source v) (scv_source x)"
  shows "\<exists>v'. convert_step gen (m, k) x = (AList.update (scv_name v) v' m, k) \<and>
     scv_name v' = scv_name v \<and> set (scv_paths v') = set (scv_paths v) \<union> set (scv_paths x) \<and>
     same_source (scv_source v) (scv_source v')"
proof (cases "vs_pvc (scv_source v)")
  case (Some c)
  with same have "vs_pvc (scv_source x) = Some c" by (simp add: same_source_def split: option.splits)
  with m Some have "convert_step gen (m, k) x =
      (AList.update (scv_name v) (v\<lparr>scv_paths := uniq (scv_paths v @ scv_paths x)\<rparr>) m, k)"
    by (simp add: convert_step_def)
  with Some show ?thesis by (intro exI conjI) (assumption, simp_all add: same_source_def)
next
  case None
  with same obtain s1 s2 where s12: "vs_secret (scv_source v) = Some s1" "vs_secret (scv_source x) = Some s2"
    "ss_name s1 = ss_name s2" "vs_pvc (scv_source x) = None"
    by (auto simp: same_source_def split: option.splits)
  let ?s = "if uniq (ss_items s1 @ ss_items s2) \<noteq> [] then s1\<lparr>ss_items := uniq (ss_items s1 @ ss_items s2)\<rparr> else s1"
  from m None s12 have "convert_step gen (m, k) x = (AList.update (scv_name v)
      (v\<lparr>scv_paths := uniq (scv_paths v @ scv_paths x),
         scv_source := (scv_source v)\<lparr>vs_secret := Some ?s\<rparr>\<rparr>) m, k)"
    by (simp add: convert_step_def Let_def)
  with None s12 show ?thesis by (intro exI conjI) (assumption, simp_all add: same_source_def)
qed

lemma update_fresh: "k \<notin> fst ` set m \<Longrightarrow> AList.update k v m = m @ [(k, v)]"
  by (induction m) auto

lemma entry_ok_other: "entry_ok xs k v \<Longrightarrow> k \<noteq> scv_name x \<Longrightarrow> entry_ok (xs @ [x]) k v"
  by (auto simp: entry_ok_def)

lemma entry_ok_merge:
  assumes v: "entry_ok xs (scv_name x) v" and n: "scv_name v' = scv_name x"
    and p: "set (scv_paths v') = set (scv_paths v) \<union> set (scv_paths x)"
    and s: "same_source (scv_source v) (scv_source v')"
  shows "entry_ok (xs @ [x]) (scv_name x) v'"
proof -
  from v obtain a where a: "a \<in> set xs" "scv_name a = scv_name x" "same_source (scv_source a) (scv_source v)"
    unfolding entry_ok_def by blast
  from v have pv: "q \<in> set (scv_paths v) \<longleftrightarrow> (\<exists>a \<in> set xs. scv_name a = scv_name x \<and> q \<in> set (scv_paths a))" for q
    unfolding entry_ok_def by blast
  have "q \<in> set (scv_paths v') \<longleftrightarrow>
      (\<exists>a \<in> set (xs @ [x]). scv_name a = scv_name x \<and> q \<in> set (scv_paths a))" for q
    unfolding p by (auto simp: pv)
  moreover have "\<exists>a \<in> set (xs @ [x]). scv_name a = scv_name x \<and> same_source (scv_source a) (scv_source v')"
    using a same_source_trans [OF a(3) s] by (intro bexI [of _ a]) auto
  ultimately show ?thesis using n unfolding entry_ok_def by blast
qed

lemma merged_inv_step:
  assumes inv: "merged_inv xs m" and comp: "compatible (xs @ [x])"
  shows "\<exists>m'. convert_step gen (m, k) x = (m', k) \<and> merged_inv (xs @ [x]) m'"
proof -
  let ?n = "scv_name x"
  have d: "distinct (map fst m)" and dom: "fst ` set m = scv_name ` set xs"
    and ok: "\<And>k v. (k, v) \<in> set m \<Longrightarrow> entry_ok xs k v" using inv by (auto simp: merged_inv_def)
  have main: "merged_inv (xs @ [x]) (AList.update ?n v' m)" if v': "entry_ok (xs @ [x]) ?n v'" for v'
    unfolding merged_inv_def
  proof (intro conjI allI impI)
    show d': "distinct (map fst (AList.update ?n v' m))" using d by (simp add: distinct_update)
    show "fst ` set (AList.update ?n v' m) = scv_name ` set (xs @ [x])"
      using dom by (simp add: dom_update)
  next
    fix k1 v1 assume kv: "(k1, v1) \<in> set (AList.update ?n v' m)"
    have "distinct (map fst (AList.update ?n v' m))" using d by (simp add: distinct_update)
    with kv have "map_of (AList.update ?n v' m) k1 = Some v1" by simp
    then have up: "((map_of m)(?n \<mapsto> v')) k1 = Some v1" by (simp only: update_conv')
    show "entry_ok (xs @ [x]) k1 v1"
    proof (cases "k1 = ?n")
      case True with up v' show ?thesis by simp
    next
      case False
      with up have "(k1, v1) \<in> set m" by (auto dest: map_of_SomeD)
      from entry_ok_other [OF ok [OF this] False] show ?thesis .
    qed
  qed
  have self: "same_source (scv_source x) (scv_source x)" using comp by (simp add: compatible_def)
  show ?thesis
  proof (cases "map_of m ?n")
    case None
    then have "?n \<notin> scv_name ` set xs" using dom by (metis map_of_eq_None_iff)
    then have "\<forall>a \<in> set xs. scv_name a \<noteq> ?n" by (metis imageI)
    with self have "entry_ok (xs @ [x]) ?n x" by (auto simp: entry_ok_def)
    from main [OF this] None show ?thesis by (simp add: convert_step_new)
  next
    case (Some v)
    have v: "entry_ok xs ?n v" by (rule ok [OF map_of_SomeD [OF Some]])
    then obtain a where a: "a \<in> set xs" "scv_name a = ?n" "same_source (scv_source a) (scv_source v)"
      unfolding entry_ok_def by blast
    have "same_source (scv_source a) (scv_source x)" using comp a by (simp add: compatible_def)
    then have "same_source (scv_source v) (scv_source x)"
      using a(3) same_source_sym same_source_trans by blast
    from convert_step_merge [OF Some this, of gen k] v obtain v' where
      st: "convert_step gen (m, k) x = (AList.update ?n v' m, k)"
      and n': "scv_name v' = ?n"
      and p': "set (scv_paths v') = set (scv_paths v) \<union> set (scv_paths x)"
      and s': "same_source (scv_source v) (scv_source v')" unfolding entry_ok_def by metis
    have "entry_ok (xs @ [x]) ?n v'"
      using v n' p' s' by (rule entry_ok_merge)
    from main [OF this] st show ?thesis by blast
  qed
qed

lemma merged_inv_fold:
  "compatible scvs \<Longrightarrow> \<exists>m. foldl (convert_step gen) ([], 0) scvs = (m, 0) \<and> merged_inv scvs m"
proof (induction scvs rule: rev_induct)
  case (snoc x xs)
  then have "compatible xs" by (simp add: compatible_def)
  with snoc obtain m where "foldl (convert_step gen) ([], 0) xs = (m, 0)" "merged_inv xs m" by blast
  with merged_inv_step [OF this(2) snoc.prems] show ?case by fastforce
qed (simp add: merged_inv_def)



text \<open>Volumes of one name that disagree on what they mount: a PVC and a secret keep only the
  first, silently; and a secret mounted with all keys, merged with one mounted with chosen keys,
  ends up with the chosen keys only.\<close>
lemma convert_scvs_conflict:
  "convert_scvs gen [new_single_container_pvc n p, new_single_container_secret n q items]
     = convert_scvs gen [new_single_container_pvc n p] \<and>
   fst (convert_scvs gen [new_single_container_secret n p [], new_single_container_secret n q [i]])
     = [to_volume (new_single_container_secret n q [i])]"
  by (simp add: convert_scvs_def reduce_scvs_def convert_step_def new_single_container_pvc_def
      new_single_container_secret_def to_volume_def Let_def)

end
