(* ===== verification/Operators.thy ===== *)
theory Operators
  imports Helpers "HOL-Library.AList"
begin

text \<open>
  The clients of the Kubernetes operators (\<^verbatim>\<open>src/pkg/kubecluster/primatives\<close>: cnpg,
  certmanager, approverpolicy, externalsnapshotter, barmancloud): what they create, and when each
  of their waits takes an object to be ready.
\<close>

section \<open>CNPG backups and clusters (cnpg.go)\<close>

definition barman_cloud_plugin_name :: string where
  "barman_cloud_plugin_name = ''barman-cloud.cloudnative-pg.io''"

definition volume_snapshot_api_group :: string where
  "volume_snapshot_api_group = ''snapshot.storage.k8s.io''"

record create_backup_options =
  cbo_generate :: bool
  cbo_method :: "string option"
  cbo_target :: "string option"

definition create_backup :: "string \<Rightarrow> string \<Rightarrow> string \<Rightarrow> create_backup_options \<Rightarrow> ('s, backup) prog" where
  "create_backup ns backup_name cluster_name opts =
     (let b = \<lparr> bk_meta = set_name (cbo_generate opts) empty_meta backup_name,
        bk_cluster = cluster_name,
        bk_method = (case cbo_method opts of None \<Rightarrow> ''volumeSnapshot'' | Some m \<Rightarrow> m),
        bk_target = (case cbo_target opts of None \<Rightarrow> ''prefer-standby'' | Some t \<Rightarrow> t),
        bk_online = True, bk_wait_archive = True, bk_phase = PhaseOther [], bk_snapshots = [] \<rparr>
      in wrapping ''create backup'' (api_create KBackup w_backup bk_meta ns b))"

definition backup_processor :: "(unit, backup, backup) processor" where
  "backup_processor _ b = (case bk_phase b of
      PhaseCompleted \<Rightarrow> ((), Some b, True, None)
    | PhaseFailed \<Rightarrow> ((), None, False, Some (errorf ''backup failed''))
    | PhaseWalArchivingFailing \<Rightarrow> ((), None, False, Some (errorf ''backup failed''))
    | PhaseOther _ \<Rightarrow> ((), None, False, None))"

definition wait_for_ready_backup :: "string \<Rightarrow> string \<Rightarrow> duration \<Rightarrow> ('s, backup) prog" where
  "wait_for_ready_backup ns n mwt = wrapping ''wait for backup''
     (bnd (wait_for_resource_condition KBackup w_backup (max_wait mwt (10 * minute)) ns (by_name n)
             backup_processor ()) deref)"

definition delete_backup :: "string \<Rightarrow> string \<Rightarrow> ('s, unit) prog" where
  "delete_backup ns n = wrapping ''delete backup'' (api_delete KBackup w_backup ns n)"

record volume_snapshot_recovery =
  vsr_data :: string
  vsr_wal :: string
  vsr_source :: external_cluster
  vsr_target_time :: string

record create_cluster_options =
  cco_generate :: bool
  cco_recovery :: "volume_snapshot_recovery option"
  cco_database :: string
  cco_owner :: string
  cco_class :: string
  cco_resources :: string
  cco_image :: string

definition snapshot_ref :: "string \<Rightarrow> typed_ref" where
  "snapshot_ref n = \<lparr> tr_group = volume_snapshot_api_group, tr_kind = ''VolumeSnapshot'', tr_name = n \<rparr>"

definition recovery_of :: "create_cluster_options \<Rightarrow> volume_snapshot_recovery \<Rightarrow> recovery" where
  "recovery_of opts v = \<lparr> rc_source = ec_name (vsr_source v), rc_data = snapshot_ref (vsr_data v),
     rc_wal = (if vsr_wal v \<noteq> [] then Some (snapshot_ref (vsr_wal v)) else None),
     rc_target = (if vsr_target_time v \<noteq> [] then TargetTime (vsr_target_time v) else TargetImmediate),
     rc_database = cco_database opts, rc_owner = cco_owner opts \<rparr>"

definition new_cluster_spec :: "(quantity \<Rightarrow> string) \<Rightarrow> string \<Rightarrow> quantity \<Rightarrow> string \<Rightarrow> string \<Rightarrow> string
    \<Rightarrow> create_cluster_options \<Rightarrow> cluster" where
  "new_cluster_spec qstr cluster_name volume_size serving client_ca replication opts =
     \<lparr> cl_meta = set_name (cco_generate opts)
         (empty_meta\<lparr>om_labels := Some [''app.kubernetes.io/component'' \<mapsto> ''cnpg-cluster'']\<rparr>) cluster_name,
       cl_instances = 1, cl_image = cco_image opts,
       cl_bootstrap = Some (case cco_recovery opts of
           Some v \<Rightarrow> \<lparr> bs_initdb = None, bs_basebackup = None, bs_recovery = Some (recovery_of opts v) \<rparr>
         | None \<Rightarrow> \<lparr> bs_initdb = (if cco_database opts \<noteq> [] \<and> cco_owner opts \<noteq> []
                        then Some (cco_database opts, cco_owner opts) else None),
                     bs_basebackup = None, bs_recovery = None \<rparr>),
       cl_size = qstr volume_size,
       cl_class = (if cco_class opts \<noteq> [] then Some (cco_class opts) else None),
       cl_resources = cco_resources opts,
       cl_certs = Some \<lparr> clc_server_tls = serving, clc_server_ca = serving,
         clc_client_ca = client_ca, clc_replication = replication \<rparr>,
       cl_pghba = [''hostssl all all all cert''],
       cl_external = (case cco_recovery opts of None \<Rightarrow> [] | Some v \<Rightarrow> [vsr_source v]),
       cl_plugins = [], cl_conditions = [], cl_primary = [], cl_write_service = [] \<rparr>"

definition create_cluster :: "string \<Rightarrow> string \<Rightarrow> quantity \<Rightarrow> string \<Rightarrow> string \<Rightarrow> string
    \<Rightarrow> create_cluster_options \<Rightarrow> ('s, cluster) prog" where
  "create_cluster ns cluster_name volume_size serving client_ca replication opts =
     bnd (ask w_quantity_string) (\<lambda>qstr. bnd (ask w_common_labels) (\<lambda>common.
       let c = new_cluster_spec qstr cluster_name volume_size serving client_ca replication opts in
       wrapping ''create cluster'' (api_create KCluster w_cluster cl_meta ns
         (c\<lparr>cl_meta := label_resource common (cl_meta c)\<rparr>))))"

definition is_cluster_ready :: "cluster \<Rightarrow> bool" where
  "is_cluster_ready c = condition_true cond_ready (cl_conditions c)"

definition cluster_processor :: "(unit, cluster, cluster) processor" where
  "cluster_processor _ c = (if is_cluster_ready c
     then ((), Some c, True, None) else ((), None, False, None))"

definition wait_for_ready_cluster :: "string \<Rightarrow> string \<Rightarrow> duration \<Rightarrow> ('s, cluster) prog" where
  "wait_for_ready_cluster ns n mwt = wrapping ''wait for cluster''
     (bnd (wait_for_resource_condition KCluster w_cluster (max_wait mwt (10 * minute)) ns (by_name n)
             cluster_processor ()) deref)"

definition get_cluster :: "string \<Rightarrow> string \<Rightarrow> ('s, cluster) prog" where
  "get_cluster ns n = wrapping ''get cluster'' (api_get KCluster w_cluster ns n)"

definition delete_cluster :: "string \<Rightarrow> string \<Rightarrow> ('s, unit) prog" where
  "delete_cluster ns n = wrapping ''delete cluster'' (api_delete KCluster w_cluster ns n)"

definition wait_for_cluster_deleted :: "string \<Rightarrow> string \<Rightarrow> duration \<Rightarrow> ('s, unit) prog" where
  "wait_for_cluster_deleted ns n mwt = wrapping ''wait for cluster deletion''
     (wait_for_resource_deletion KCluster w_cluster (max_wait mwt (10 * minute)) ns n)"

section \<open>Certificates and issuers (certmanager.go)\<close>

record create_certificate_options =
  cce_generate :: bool
  cce_is_ca :: bool
  cce_constraints :: "name_constraints option"
  cce_cn :: string
  cce_dns :: "string list"
  cce_duration :: "duration option"
  cce_labels :: strmap
  cce_has_labels :: bool   \<comment> \<open>len(SecretLabels) != 0\<close>
  cce_secret :: string
  cce_usages :: "string list"
  cce_algorithm :: string

definition new_certificate :: "string \<Rightarrow> issuer_ref \<Rightarrow> create_certificate_options \<Rightarrow> certificate" where
  "new_certificate n ref opts =
     \<lparr> cert_meta = set_name (cce_generate opts) empty_meta n,
       cert_is_ca = cce_is_ca opts, cert_constraints = cce_constraints opts,
       cert_cn = cce_cn opts, cert_dns = cce_dns opts, cert_ips = [], cert_uris = [], cert_emails = [],
       cert_usages = Some (cce_usages opts),
       cert_key = Some \<lparr> pk_algorithm = (if cce_algorithm opts \<noteq> [] then cce_algorithm opts else ''Ed25519''),
         pk_size = 0, pk_encoding = ''PKCS8'', pk_rotation = ''Always'' \<rparr>,
       cert_secret = (if cce_secret opts \<noteq> [] then cce_secret opts else n),
       cert_secret_labels = (if cce_has_labels opts then Some (cce_labels opts) else None),
       cert_duration = Some (case cce_duration opts of None \<Rightarrow> hour | Some d \<Rightarrow> d),
       cert_issuer = ref\<lparr>ir_kind := (if ir_kind ref = [] then ''Issuer'' else ir_kind ref),
                         ir_group := (if ir_group ref = [] then ''cert-manager.io'' else ir_group ref)\<rparr>,
       cert_encode_usages = True, cert_conditions = [] \<rparr>"

definition create_certificate :: "string \<Rightarrow> string \<Rightarrow> issuer_ref \<Rightarrow> create_certificate_options
    \<Rightarrow> ('s, certificate) prog" where
  "create_certificate ns n ref opts = wrapping ''create certificate''
     (api_create KCertificate w_cert cert_meta ns (new_certificate n ref opts))"

definition is_certificate_ready :: "certificate \<Rightarrow> bool" where
  "is_certificate_ready c = condition_true cond_ready (cert_conditions c)"

definition certificate_processor :: "(unit, certificate, certificate) processor" where
  "certificate_processor _ c = (if is_certificate_ready c
     then ((), Some c, True, None) else ((), None, False, None))"

definition wait_for_ready_certificate :: "string \<Rightarrow> string \<Rightarrow> duration \<Rightarrow> ('s, certificate) prog" where
  "wait_for_ready_certificate ns n mwt = wrapping ''wait for certificate''
     (bnd (wait_for_resource_condition KCertificate w_cert (max_wait mwt minute) ns (by_name n)
             certificate_processor ()) deref)"

text \<open>
  One attempt of ReissueCertificate, and retry.RetryOnConflict with the five steps of
  retry.DefaultRetry: an attempt that ends in a conflict is repeated while steps remain.
\<close>
definition reissue_attempt :: "string \<Rightarrow> string \<Rightarrow> ('s, certificate) prog" where
  "reissue_attempt ns n =
     bnd (wrapping ''get certificate'' (api_get KCertificate w_cert ns n)) (\<lambda>c.
     bnd (ask w_mark_issuing) (\<lambda>mark.
     api_update KCertificate w_cert cert_meta (om_ns (cert_meta c)) (mark c)))"

fun retry_on_conflict :: "nat \<Rightarrow> ('s, 'a) prog \<Rightarrow> ('s, 'a) prog" where
  "retry_on_conflict 0 m = m"
| "retry_on_conflict (Suc k) m = (\<lambda>w s tr. case m w s tr of
      (Inl e, s', tr') \<Rightarrow> if is_kind Conflict e then retry_on_conflict k m w s' tr' else (Inl e, s', tr')
    | (Inr x, s', tr') \<Rightarrow> (Inr x, s', tr'))"

definition default_retry_steps :: nat where "default_retry_steps = 5"

definition reissue_certificate :: "string \<Rightarrow> string \<Rightarrow> ('s, certificate) prog" where
  "reissue_certificate ns n = wrapping ''update certificate status''
     (retry_on_conflict (default_retry_steps - 1) (reissue_attempt ns n))"

definition get_certificate :: "string \<Rightarrow> string \<Rightarrow> ('s, certificate) prog" where
  "get_certificate ns n = wrapping ''get certificate'' (api_get KCertificate w_cert ns n)"

definition delete_certificate :: "string \<Rightarrow> string \<Rightarrow> ('s, unit) prog" where
  "delete_certificate ns n = wrapping ''delete certificate'' (api_delete KCertificate w_cert ns n)"

definition create_issuer :: "string \<Rightarrow> string \<Rightarrow> issuer_config \<Rightarrow> bool \<Rightarrow> ('s, issuer) prog" where
  "create_issuer ns n config gen = wrapping ''create issuer''
     (api_create KIssuer w_issuer iss_meta ns
       \<lparr> iss_meta = set_name gen empty_meta n, iss_config = config, iss_conditions = [] \<rparr>)"

definition is_issuer_ready :: "issuer \<Rightarrow> bool" where
  "is_issuer_ready i = condition_true cond_ready (iss_conditions i)"

definition issuer_processor :: "(unit, issuer, issuer) processor" where
  "issuer_processor _ i = (if is_issuer_ready i
     then ((), Some i, True, None) else ((), None, False, None))"

definition wait_for_ready_issuer :: "string \<Rightarrow> string \<Rightarrow> duration \<Rightarrow> ('s, issuer) prog" where
  "wait_for_ready_issuer ns n mwt = wrapping ''wait for issuer''
     (bnd (wait_for_resource_condition KIssuer w_issuer (max_wait mwt minute) ns (by_name n)
             issuer_processor ()) deref)"

definition get_issuer :: "string \<Rightarrow> string \<Rightarrow> ('s, issuer) prog" where
  "get_issuer ns n = wrapping ''get issuer'' (api_get KIssuer w_issuer ns n)"

definition delete_issuer :: "string \<Rightarrow> string \<Rightarrow> ('s, unit) prog" where
  "delete_issuer ns n = wrapping ''delete issuer'' (api_delete KIssuer w_issuer ns n)"

definition get_cluster_issuer :: "string \<Rightarrow> ('s, issuer) prog" where
  "get_cluster_issuer n = wrapping ''get cluster issuer'' (api_get KClusterIssuer w_cluster_issuer [] n)"

section \<open>approver-policy (approverpolicy.go)\<close>

definition certificate_request_policy_kind :: string where
  "certificate_request_policy_kind = ''CertificateRequestPolicy''"

text \<open>The memoised answer: the last one the history holds.\<close>
fun available_cache :: "trace \<Rightarrow> bool option" where
  "available_cache [] = None"
| "available_cache (Discovered b # tr) =
     (case available_cache tr of None \<Rightarrow> Some b | Some b' \<Rightarrow> Some b')"
| "available_cache (_ # tr) = available_cache tr"

definition is_available :: "('s, bool) prog" where
  "is_available = (\<lambda>w s tr. case available_cache tr of
      Some b \<Rightarrow> (Inr b, s, tr)
    | None \<Rightarrow> (case w_discover w tr of
        Inl e \<Rightarrow> if \<not> is_kind NotFound e
          then (Inl (WrapErr ''query API group'' e), s, tr @ [DiscoveryFailed])
          else (Inr False, s, tr @ [Discovered False])
      | Inr kinds \<Rightarrow> (let b = certificate_request_policy_kind \<in> set kinds
          in (Inr b, s, tr @ [Discovered b]))))"

definition create_certificate_request_policy :: "string \<Rightarrow> crp_spec \<Rightarrow> bool \<Rightarrow> ('s, crp) prog" where
  "create_certificate_request_policy n spec gen = wrapping ''create certificate request policy''
     (api_create KCRP w_crp crp_meta []
       \<lparr> crp_meta = set_name gen empty_meta n, crp_policy = spec, crp_conditions = [] \<rparr>)"

definition crp_processor :: "(unit, crp, crp) processor" where
  "crp_processor _ c = (if condition_true cond_ready (crp_conditions c)
     then ((), Some c, True, None) else ((), None, False, None))"

definition wait_for_ready_crp :: "string \<Rightarrow> duration \<Rightarrow> ('s, crp) prog" where
  "wait_for_ready_crp n mwt = wrapping ''wait for certificate request policy''
     (bnd (wait_for_resource_condition KCRP w_crp (max_wait mwt minute) [] (by_name n)
             crp_processor ()) deref)"

definition delete_certificate_request_policy :: "string \<Rightarrow> ('s, unit) prog" where
  "delete_certificate_request_policy n =
     wrapping ''delete certificate request policy'' (api_delete KCRP w_crp [] n)"

section \<open>Volume snapshots (snapshot.go, groupsnapshot.go)\<close>

definition volume_snapshot_kind :: string where "volume_snapshot_kind = ''VolumeSnapshot''"
definition volume_group_snapshot_kind :: string where "volume_group_snapshot_kind = ''VolumeGroupSnapshot''"

definition snapshot_volume :: "string \<Rightarrow> string \<Rightarrow> string \<Rightarrow> string \<Rightarrow> ('s, snapshot) prog" where
  "snapshot_volume ns pvc_name opt_name opt_class = wrapping ''create snapshot''
     (api_create KSnapshot w_snapshot sn_meta ns
       \<lparr> sn_meta = (if opt_name = [] then empty_meta\<lparr>om_genname := clean_name pvc_name\<rparr>
                    else empty_meta\<lparr>om_name := opt_name\<rparr>),
         sn_source = Some pvc_name,
         sn_class = (if opt_class \<noteq> [] then Some opt_class else None), sn_status = None \<rparr>)"

definition ready_to_use :: "snapshot_status option \<Rightarrow> bool" where
  "ready_to_use st = (case st of None \<Rightarrow> False | Some x \<Rightarrow> sns_ready x = Some True)"

definition snapshot_processor :: "(unit, snapshot, snapshot) processor" where
  "snapshot_processor _ sn = (if ready_to_use (sn_status sn)
     then ((), Some sn, True, None) else ((), None, False, None))"

definition wait_for_ready_snapshot :: "string \<Rightarrow> string \<Rightarrow> duration \<Rightarrow> ('s, snapshot) prog" where
  "wait_for_ready_snapshot ns n mwt = wrapping ''wait for snapshot''
     (bnd (wait_for_resource_condition KSnapshot w_snapshot (max_wait mwt (10 * minute)) ns (by_name n)
             snapshot_processor ()) deref)"

definition delete_snapshot :: "string \<Rightarrow> string \<Rightarrow> ('s, unit) prog" where
  "delete_snapshot ns n = wrapping ''delete snapshot'' (api_delete KSnapshot w_snapshot ns n)"

definition group_snapshot_volumes :: "string \<Rightarrow> label_selector \<Rightarrow> string \<Rightarrow> string
    \<Rightarrow> ('s, group_snapshot) prog" where
  "group_snapshot_volumes ns sel opt_name opt_class = wrapping ''create group snapshot''
     (api_create KGroupSnapshot w_group gs_meta ns
       \<lparr> gs_meta = (if opt_name = [] then empty_meta\<lparr>om_genname := ''volume-group-snapshot-''\<rparr>
                    else empty_meta\<lparr>om_name := opt_name\<rparr>),
         gs_selector = sel,
         gs_class = (if opt_class \<noteq> [] then Some opt_class else None), gs_status = None \<rparr>)"

definition group_processor :: "(unit, group_snapshot, group_snapshot) processor" where
  "group_processor _ g = (if ready_to_use (gs_status g)
     then ((), Some g, True, None) else ((), None, False, None))"

definition wait_for_ready_group_snapshot :: "string \<Rightarrow> string \<Rightarrow> duration \<Rightarrow> ('s, group_snapshot) prog" where
  "wait_for_ready_group_snapshot ns n mwt = wrapping ''wait for group snapshot''
     (bnd (wait_for_resource_condition KGroupSnapshot w_group (max_wait mwt (10 * minute)) ns (by_name n)
             group_processor ()) deref)"

definition is_ready_group_member :: "string \<Rightarrow> snapshot \<Rightarrow> bool" where
  "is_ready_group_member group_name sn = (case sn_status sn of
      None \<Rightarrow> False
    | Some st \<Rightarrow> if sns_ready st \<noteq> Some True \<or> sns_restore_size st = None then False
        else list_ex (\<lambda>(k, n). k = volume_group_snapshot_kind \<and> n = group_name) (om_owners (sn_meta sn)))"

text \<open>The ready members so far, by name; a member that stops being ready is dropped.\<close>
definition members_processor :: "string \<Rightarrow> nat \<Rightarrow> ((string \<times> snapshot) list, snapshot, snapshot list) processor" where
  "members_processor group_name expected acc sn =
     (let n = om_name (sn_meta sn);
          acc' = (if is_ready_group_member group_name sn then AList.update n sn acc else AList.delete n acc)
      in if expected \<le> length acc' then (acc', Some (map snd acc'), True, None)
         else (acc', None, False, None))"

definition wait_for_ready_group_snapshot_members :: "string \<Rightarrow> string \<Rightarrow> int \<Rightarrow> duration
    \<Rightarrow> ('s, snapshot list) prog" where
  "wait_for_ready_group_snapshot_members ns group_name expected mwt =
     (if expected \<le> 0 then fail (errorf ''expected member count must be positive'')
      else wrapping ''wait for group snapshot members''
        (bnd (wait_for_resource_condition KSnapshot w_snapshot (max_wait mwt (10 * minute)) ns []
                (members_processor group_name (nat expected)) []) deref))"

definition delete_group_snapshot :: "string \<Rightarrow> string \<Rightarrow> ('s, unit) prog" where
  "delete_group_snapshot ns n = wrapping ''delete group snapshot'' (api_delete KGroupSnapshot w_group ns n)"

section \<open>barman-cloud (objectstore.go)\<close>

definition get_object_store :: "string \<Rightarrow> string \<Rightarrow> ('s, object_store) prog" where
  "get_object_store ns n = wrapping ''get object store'' (api_get KObjectStore w_store ns n)"

section \<open>The waits return ready objects\<close>

interpretation backup_wait: readiness backup_processor "\<lambda>b. bk_phase b = PhaseCompleted"
  by unfold_locales (auto simp: backup_processor_def split: backup_phase.splits)

interpretation cluster_wait: readiness cluster_processor is_cluster_ready
  by unfold_locales (auto simp: cluster_processor_def)

interpretation certificate_wait: readiness certificate_processor is_certificate_ready
  by unfold_locales (auto simp: certificate_processor_def)

interpretation issuer_wait: readiness issuer_processor is_issuer_ready
  by unfold_locales (auto simp: issuer_processor_def)

interpretation crp_wait: readiness crp_processor "\<lambda>c. condition_true cond_ready (crp_conditions c)"
  by unfold_locales (auto simp: crp_processor_def)

interpretation snapshot_wait: readiness snapshot_processor "\<lambda>sn. ready_to_use (sn_status sn)"
  by unfold_locales (auto simp: snapshot_processor_def)

interpretation group_wait: readiness group_processor "\<lambda>g. ready_to_use (gs_status g)"
  by unfold_locales (auto simp: group_processor_def)

end
