(* ===== verification/Ownership.thy ===== *)
theory Ownership
  imports Cleanup Core Operators
begin

text \<open>
  Who must delete what.  \<^verbatim>\<open>owns\<close> is an ownership triple over the multiset
  \<^verbatim>\<open>outstanding\<close> of World: what a program starts with, what it leaves when it fails, and what it
  hands to its caller when it returns a value.  Every client operation has one triple, and the
  leak theorems of the composites are derived from them by the rules below.
  \<^verbatim>\<open>world_ok\<close> is the part of the API server's documented behaviour they rely on.
\<close>

section \<open>The API server's contract\<close>

text \<open>
  An object is created in the namespace of the request and under its name unless the name is to be
  generated; reading, watching by name and updating return the object asked for.
\<close>
definition api_ok :: "('o \<Rightarrow> objmeta) \<Rightarrow> 'o kapi \<Rightarrow> bool" where
  "api_ok meta api \<longleftrightarrow>
     (\<forall>tr ns o1 o2. k_create api tr ns o1 = Inr o2 \<longrightarrow>
        om_ns (meta o2) = ns \<and> (om_name (meta o1) \<noteq> [] \<longrightarrow> om_name (meta o2) = om_name (meta o1))) \<and>
     (\<forall>tr ns n t. \<forall>o1 \<in> delivered (k_watch api tr ns (by_name n) t).
        om_ns (meta o1) = ns \<and> om_name (meta o1) = n) \<and>
     (\<forall>tr ns n o1. k_get api tr ns n = Inr o1 \<longrightarrow> om_ns (meta o1) = ns \<and> om_name (meta o1) = n) \<and>
     (\<forall>tr ns o1 o2. k_update api tr ns o1 = Inr o2 \<longrightarrow>
        om_ns (meta o2) = ns \<and> om_name (meta o2) = om_name (meta o1))"

definition world_ok :: "world \<Rightarrow> bool" where
  "world_ok w \<longleftrightarrow> api_ok pvc_meta (w_pvc w) \<and> api_ok pod_meta (w_pod w) \<and>
     api_ok bk_meta (w_backup w) \<and> api_ok cl_meta (w_cluster w) \<and>
     api_ok cert_meta (w_cert w) \<and> api_ok iss_meta (w_issuer w) \<and>
     api_ok crp_meta (w_crp w) \<and> api_ok sn_meta (w_snapshot w) \<and> api_ok gs_meta (w_group w) \<and>
     (\<forall>c. cert_meta (w_mark_issuing w c) = cert_meta c) \<and>
     (\<forall>tr n. mset (w_map_order w tr n) = mset [0..<n])"

lemma world_ok_apis:
  "world_ok w \<Longrightarrow> api_ok pvc_meta (w_pvc w)" "world_ok w \<Longrightarrow> api_ok pod_meta (w_pod w)"
  "world_ok w \<Longrightarrow> api_ok bk_meta (w_backup w)" "world_ok w \<Longrightarrow> api_ok cl_meta (w_cluster w)"
  "world_ok w \<Longrightarrow> api_ok cert_meta (w_cert w)" "world_ok w \<Longrightarrow> api_ok iss_meta (w_issuer w)"
  "world_ok w \<Longrightarrow> api_ok crp_meta (w_crp w)" "world_ok w \<Longrightarrow> api_ok sn_meta (w_snapshot w)"
  "world_ok w \<Longrightarrow> api_ok gs_meta (w_group w)"
  "world_ok w \<Longrightarrow> cert_meta (w_mark_issuing w c) = cert_meta c"
  "world_ok w \<Longrightarrow> mset (w_map_order w tr n) = mset [0..<n]"
  by (simp_all add: world_ok_def)

section \<open>Ownership triples\<close>

text \<open>
  A statement about what is owned is exact, or an upper bound: the bound is what remains true
  where an object may be deleted twice.
\<close>
datatype bound = Exactly | AtMost

fun within :: "bound \<Rightarrow> 'a multiset \<Rightarrow> 'a multiset \<Rightarrow> bool" where
  "within Exactly M N = (M = N)"
| "within AtMost M N = (M \<subseteq># N)"

lemma within_refl [simp]: "within d M M"
  by (cases d) auto

lemma within_add_mset [simp]: "within d (add_mset x M) (add_mset x N) \<longleftrightarrow> within d M N"
  by (cases d) auto

lemma within_diff: "within d M (add_mset x N) \<Longrightarrow> within d (M - {#x#}) N"
  by (cases d) (auto simp: subset_eq_diff_conv)

text \<open>
  From a state with \<^verbatim>\<open>I s\<close>, owning \<^verbatim>\<open>P s\<close>: on failure
  \<^verbatim>\<open>F s'\<close> is left, on success with value x the program owns \<^verbatim>\<open>G x s'\<close> and
  \<^verbatim>\<open>Q x s'\<close> holds.  \<^verbatim>\<open>base\<close> is what others own.
\<close>
definition owns :: "bound \<Rightarrow> world \<Rightarrow> ('s \<Rightarrow> bool) \<Rightarrow> ('s \<Rightarrow> objref multiset) \<Rightarrow> ('s, 'a) prog
    \<Rightarrow> ('s \<Rightarrow> objref multiset) \<Rightarrow> ('a \<Rightarrow> 's \<Rightarrow> objref multiset) \<Rightarrow> ('a \<Rightarrow> 's \<Rightarrow> bool) \<Rightarrow> bool" where
  "owns d w I P m F G Q \<longleftrightarrow> (\<forall>s tr base r s' tr'. I s \<longrightarrow> within d (outstanding tr) (base + P s) \<longrightarrow>
     m w s tr = (r, s', tr') \<longrightarrow>
     (case r of Inl _ \<Rightarrow> within d (outstanding tr') (base + F s')
       | Inr x \<Rightarrow> within d (outstanding tr') (base + G x s') \<and> Q x s'))"

named_theorems owns_rules "ownership of the client operations"

lemma ownsI:
  "(\<And>s tr base r s' tr'. I s \<Longrightarrow> within d (outstanding tr) (base + P s) \<Longrightarrow> m w s tr = (r, s', tr') \<Longrightarrow>
     (case r of Inl _ \<Rightarrow> within d (outstanding tr') (base + F s')
       | Inr x \<Rightarrow> within d (outstanding tr') (base + G x s') \<and> Q x s')) \<Longrightarrow> owns d w I P m F G Q"
  unfolding owns_def by blast

lemma owns_err:
  "owns d w I P m F G Q \<Longrightarrow> m w s tr = (Inl e, s', tr') \<Longrightarrow> I s \<Longrightarrow> within d (outstanding tr) (base + P s) \<Longrightarrow>
     within d (outstanding tr') (base + F s')"
  unfolding owns_def by fastforce

lemma owns_ok:
  "owns d w I P m F G Q \<Longrightarrow> m w s tr = (Inr x, s', tr') \<Longrightarrow> I s \<Longrightarrow> within d (outstanding tr) (base + P s) \<Longrightarrow>
     within d (outstanding tr') (base + G x s') \<and> Q x s'"
  unfolding owns_def by fastforce

lemma owns_ret: "(\<And>s. I s \<Longrightarrow> G x s = P s \<and> Q x s) \<Longrightarrow> owns d w I P (ret x) F G Q"
  by (rule ownsI) auto

lemma owns_fail: "(\<And>s. I s \<Longrightarrow> F s = P s) \<Longrightarrow> owns d w I P (fail e) F G Q"
  by (rule ownsI) auto

lemma owns_lift_err: "(\<And>s. I s \<Longrightarrow> F s = P s \<and> G () s = P s \<and> Q () s) \<Longrightarrow> owns d w I P (lift_err e) F G Q"
  by (rule ownsI) (auto split: option.splits)

lemma owns_guard: "(\<And>s. I s \<Longrightarrow> F s = P s \<and> G () s = P s \<and> (c \<longrightarrow> Q () s)) \<Longrightarrow> owns d w I P (guard c e) F G Q"
  by (rule ownsI) (auto)

lemma owns_get_st: "(\<And>s. I s \<Longrightarrow> G s s = P s \<and> Q s s) \<Longrightarrow> owns d w I P get_st F G Q"
  by (rule ownsI) auto

lemma owns_upd_st: "(\<And>s. I s \<Longrightarrow> G () (f s) = P s \<and> Q () (f s)) \<Longrightarrow> owns d w I P (upd_st f) F G Q"
  by (rule ownsI) auto

lemma owns_ask: "(\<And>s. I s \<Longrightarrow> G (f w) s = P s \<and> Q (f w) s) \<Longrightarrow> owns d w I P (ask f) F G Q"
  by (rule ownsI) (auto simp: prog_simps)

lemma owns_deref: "(\<And>s x. I s \<Longrightarrow> v = Some x \<Longrightarrow> G x s = P s \<and> Q x s) \<Longrightarrow> (\<And>s. I s \<Longrightarrow> F s = P s)
    \<Longrightarrow> owns d w I P (deref v) F G Q"
  by (rule ownsI) (auto simp: deref_def split: option.splits)

lemma owns_bnd:
  assumes "owns d w I P m F Gm Qm" "\<And>x. owns d w (Qm x) (Gm x) (f x) F G Q"
  shows "owns d w I P (bnd m f) F G Q"
proof (rule ownsI)
  fix s tr base r s' tr'
  assume I: "I s" and o1: "within d (outstanding tr) (base + P s)" and run: "bnd m f w s tr = (r, s', tr')"
  from run show "case r of Inl _ \<Rightarrow> within d (outstanding tr') (base + F s')
       | Inr x \<Rightarrow> within d (outstanding tr') (base + G x s') \<and> Q x s'"
  proof (cases rule: bndE)
    case (1 e)
    with owns_err [OF assms(1) _ I o1] show ?thesis by simp
  next
    case (2 x s1 tr1)
    from owns_ok [OF assms(1) 2(1) I o1] have "within d (outstanding tr1) (base + Gm x s1)" "Qm x s1" by auto
    with owns_err [OF assms(2)] owns_ok [OF assms(2)] 2(2) show ?thesis by (cases r) auto
  qed
qed

lemma owns_thn:
  assumes "owns d w I P m F Gm Qm" "owns d w (Qm ()) (Gm ()) n F G Q"
  shows "owns d w I P (thn m n) F G Q"
  unfolding thn_def using assms by (intro owns_bnd) auto

lemma owns_wrapping [owns_rules]: "owns d w I P m F G Q \<Longrightarrow> owns d w I P (wrapping t m) F G Q"
  unfolding owns_def by (auto simp: prog_simps split: prod.splits sum.splits) fastforce+

lemma owns_conseq_subset:
  assumes "owns AtMost w I' P' m F' G' Q'"
    and "\<And>s. I s \<Longrightarrow> I' s \<and> P s \<subseteq># P' s" "\<And>s. F' s \<subseteq># F s" "\<And>x s. Q' x s \<Longrightarrow> G' x s \<subseteq># G x s \<and> Q x s"
  shows "owns AtMost w I P m F G Q"
proof (rule ownsI)
  fix s tr base r s' tr'
  assume I: "I s" and o1: "within AtMost (outstanding tr) (base + P s)" and run: "m w s tr = (r, s', tr')"
  have up: "within AtMost M (base + A) \<Longrightarrow> A \<subseteq># B \<Longrightarrow> within AtMost M (base + B)" for M A B
    by (meson mset_subset_eq_mono_add_left_cancel subset_mset.order_trans within.simps(2))
  have I': "I' s" and o1': "within AtMost (outstanding tr) (base + P' s)" using assms(2) [OF I] o1 up by auto
  show "case r of Inl _ \<Rightarrow> within AtMost (outstanding tr') (base + F s')
       | Inr x \<Rightarrow> within AtMost (outstanding tr') (base + G x s') \<and> Q x s'"
  proof (cases r)
    case (Inl e)
    from up [OF owns_err [OF assms(1) run [unfolded Inl] I' o1'] assms(3)] Inl show ?thesis by simp
  next
    case (Inr x)
    from owns_ok [OF assms(1) run [unfolded Inr] I' o1']
    have g: "within AtMost (outstanding tr') (base + G' x s')" "Q' x s'" by auto
    from up [OF g(1)] assms(4) [OF g(2)] show ?thesis unfolding Inr by simp
  qed
qed

lemma owns_conseq:
  assumes "owns d w I' P' m F' G' Q'"
    and "\<And>s. I s \<Longrightarrow> I' s \<and> P s = P' s" "\<And>s. F' s = F s" "\<And>x s. Q' x s \<Longrightarrow> G' x s = G x s \<and> Q x s"
  shows "owns d w I P m F G Q"
proof (rule ownsI)
  fix s tr base r s' tr'
  assume I: "I s" and o1: "within d (outstanding tr) (base + P s)" and run: "m w s tr = (r, s', tr')"
  have I': "I' s" and o1': "within d (outstanding tr) (base + P' s)" using assms(2) [OF I] o1 by auto
  show "case r of Inl _ \<Rightarrow> within d (outstanding tr') (base + F s')
       | Inr x \<Rightarrow> within d (outstanding tr') (base + G x s') \<and> Q x s'"
  proof (cases r)
    case (Inl e)
    from owns_err [OF assms(1) run [unfolded Inl] I' o1'] Inl assms(3) show ?thesis by simp
  next
    case (Inr x)
    from owns_ok [OF assms(1) run [unfolded Inr] I' o1']
    have win: "within d (outstanding tr') (base + G' x s')" and q: "Q' x s'" by auto
    from win show ?thesis unfolding Inr using assms(4) [OF q] by (simp only: sum.case)
  qed
qed

lemma owns_weaken:
  "owns d w I P m F G Q' \<Longrightarrow> (\<And>x s. Q' x s \<Longrightarrow> Q x s) \<Longrightarrow> owns d w I P m F G Q"
  unfolding owns_def by (fastforce split: sum.splits)

text \<open>The strongest triple of the basic steps, for use inside a sequence.\<close>
lemma owns_steps:
  "owns d w I P (ask f) P (\<lambda>_. P) (\<lambda>x s. I s \<and> x = f w)"
  "owns d w I P (guard c e) P (\<lambda>_. P) (\<lambda>_ s. I s \<and> c)"
  "owns d w I P (lift_err er) P (\<lambda>_. P) (\<lambda>_ s. I s \<and> er = None)"
  "owns d w I P (lift_res res) P (\<lambda>_. P) (\<lambda>x s. I s \<and> res = Inr x)"
  "owns d w I P get_st P (\<lambda>_. P) (\<lambda>x s. I s \<and> x = s)"
  "owns d w I P (deref v) P (\<lambda>_. P) (\<lambda>x s. I s \<and> v = Some x)"
  "owns d w I P (ret y) P (\<lambda>_. P) (\<lambda>x s. I s \<and> x = y)"
  "owns d w I P time_now P (\<lambda>_. P) (\<lambda>_. I)"
  "owns d w I P new_uuid P (\<lambda>_. P) (\<lambda>_. I)"
  "owns d w I P (rpc_call q) P (\<lambda>_. P) (\<lambda>_. I)"
  by (rule ownsI; auto simp: prog_simps deref_def split: option.splits sum.splits if_splits)+

text \<open>A cleanup that, whatever it returns, has disposed of what it was given.\<close>
definition disposes :: "bound \<Rightarrow> world \<Rightarrow> ('s \<Rightarrow> bool) \<Rightarrow> ('s \<Rightarrow> objref multiset) \<Rightarrow> ('s, 'a) prog
    \<Rightarrow> ('s \<Rightarrow> objref multiset) \<Rightarrow> bool" where
  "disposes d w I P m F \<longleftrightarrow> owns d w I P m F (\<lambda>_. F) (\<lambda>_ _. True)"

lemma disposesD:
  "disposes d w I P m F \<Longrightarrow> m w s tr = (r, s', tr') \<Longrightarrow> I s \<Longrightarrow> within d (outstanding tr) (base + P s) \<Longrightarrow>
     within d (outstanding tr') (base + F s')"
proof (cases r)
  case (Inl e)
  assume "disposes d w I P m F" "m w s tr = (r, s', tr')" "I s" "within d (outstanding tr) (base + P s)"
  with Inl owns_err [of d w I P m F "\<lambda>_. F" "\<lambda>_ _. True" s tr e s' tr' base] show ?thesis
    by (simp add: disposes_def)
next
  case (Inr x)
  assume "disposes d w I P m F" "m w s tr = (r, s', tr')" "I s" "within d (outstanding tr) (base + P s)"
  with Inr owns_ok [of d w I P m F "\<lambda>_. F" "\<lambda>_ _. True" s tr x s' tr' base] show ?thesis
    by (simp add: disposes_def)
qed

lemma owns_deferred:
  assumes "owns d w I P m F1 Gm Qm"
    and "\<And>e. disposes d w (\<lambda>_. True) F1 (logic (Some e)) F"
    and "\<And>x. owns d w (Qm x) (Gm x) (logic None) F (\<lambda>_. G x) (\<lambda>_. Q x)"
  shows "owns d w I P (deferred tag logic m) F G Q"
proof (rule ownsI)
  fix s tr base r s' tr'
  assume I: "I s" and o1: "within d (outstanding tr) (base + P s)" and run: "deferred tag logic m w s tr = (r, s', tr')"
  from run obtain r1 s1 tr1 rc where m: "m w s tr = (r1, s1, tr1)"
    and c: "logic (err_of r1) w s1 tr1 = (rc, s', tr')" and r: "r = merge_err r1 (trace_wrap tag (err_of rc))"
    by (rule deferredE)
  show "case r of Inl _ \<Rightarrow> within d (outstanding tr') (base + F s')
       | Inr x \<Rightarrow> within d (outstanding tr') (base + G x s') \<and> Q x s'"
  proof (cases r1)
    case (Inl e)
    from owns_err [OF assms(1) m [unfolded Inl] I o1] have "within d (outstanding tr1) (base + F1 s1)" .
    with disposesD [OF assms(2) c [unfolded Inl err_of_simps]] have "within d (outstanding tr') (base + F s')" by simp
    with r Inl show ?thesis by (auto split: sum.splits)
  next
    case (Inr x)
    from owns_ok [OF assms(1) m [unfolded Inr] I o1] have o2: "within d (outstanding tr1) (base + Gm x s1)" "Qm x s1" by auto
    note c' = c [unfolded Inr err_of_simps]
    show ?thesis
    proof (cases rc)
      case Inl2: (Inl e)
      with owns_err [OF assms(3) c' [unfolded Inl2] o2(2,1)] r Inr show ?thesis by (auto split: sum.splits)
    next
      case Inr2: (Inr u)
      with owns_ok [OF assms(3) c' [unfolded Inr2] o2(2,1)] r Inr show ?thesis by simp
    qed
  qed
qed

lemma owns_err_handler:
  assumes "owns d w I P m F1 G Q" "disposes d w (\<lambda>_. True) F1 logic F"
  shows "owns d w I P (err_handler tag logic m) F G Q"
proof (rule ownsI)
  fix s tr base r s' tr'
  assume I: "I s" and o1: "within d (outstanding tr) (base + P s)" and run: "err_handler tag logic m w s tr = (r, s', tr')"
  from run show "case r of Inl _ \<Rightarrow> within d (outstanding tr') (base + F s')
       | Inr x \<Rightarrow> within d (outstanding tr') (base + G x s') \<and> Q x s'"
  proof (cases rule: err_handlerE)
    case (1 x)
    with owns_ok [OF assms(1) _ I o1] show ?thesis by simp
  next
    case (2 e s1 tr1 rc)
    from owns_err [OF assms(1) 2(1) I o1] have "within d (outstanding tr1) (base + F1 s1)" .
    with disposesD [OF assms(2) 2(2)] have "within d (outstanding tr') (base + F s')" by simp
    with 2(3) show ?thesis by (auto split: sum.splits)
  qed
qed

text \<open>A value with methods that only lives during the call: the caller's own state is framed.\<close>
lemma owns_with_local:
  assumes "owns d w (\<lambda>s. s = t) (\<lambda>_. {#}) m (\<lambda>_. {#}) (\<lambda>x _. G x) (\<lambda>x _. Q x)"
  shows "owns d w I P (with_local t m) P (\<lambda>x s. P s + G x) (\<lambda>x s. I s \<and> Q x)"
proof (rule ownsI)
  fix s tr base r s' tr'
  assume I: "I s" and o1: "within d (outstanding tr) (base + P s)" and run: "with_local t m w s tr = (r, s', tr')"
  from run obtain t' where m: "m w t tr = (r, t', tr')" and s: "s' = s" by (rule with_localE)
  show "case r of Inl _ \<Rightarrow> within d (outstanding tr') (base + P s')
       | Inr x \<Rightarrow> within d (outstanding tr') (base + (P s' + G x)) \<and> I s' \<and> Q x"
    using owns_err [OF assms, of t tr _ t' tr' "base + P s"] owns_ok [OF assms, of t tr _ t' tr' "base + P s"]
      m o1 s I by (cases r) (auto simp: add.assoc)
qed

section \<open>The client operations\<close>

text \<open>Operations that neither create nor delete, with what their result is known to be.\<close>
lemma owns_api_get:
  "api_ok meta (api w) \<Longrightarrow> owns d w I P (api_get K api ns n) P (\<lambda>_. P)
     (\<lambda>x s. I s \<and> om_ns (meta x) = ns \<and> om_name (meta x) = n)"
  by (rule ownsI) (auto simp: prog_simps api_ok_def split: sum.splits)

lemma owns_api_list: "owns d w I P (api_list K api ns sel) P (\<lambda>_. P) (\<lambda>_. I)"
  by (rule ownsI) (auto simp: prog_simps split: sum.splits)

lemma owns_api_update:
  "api_ok meta (api w) \<Longrightarrow> owns d w I P (api_update K api meta ns o1) P (\<lambda>_. P)
     (\<lambda>x s. I s \<and> om_ns (meta x) = ns \<and> om_name (meta x) = om_name (meta o1))"
  by (rule ownsI) (auto simp: prog_simps api_ok_def split: sum.splits)

lemma owns_api_create:
  "api_ok meta (api w) \<Longrightarrow> owns d w I P (api_create K api meta ns o1) P
     (\<lambda>x s. add_mset (K, ns, om_name (meta x)) (P s))
     (\<lambda>x s. I s \<and> om_ns (meta x) = ns \<and> (om_name (meta o1) \<noteq> [] \<longrightarrow> om_name (meta x) = om_name (meta o1)))"
  by (rule ownsI) (auto simp: prog_simps api_ok_def split: sum.splits)

lemma owns_api_delete:
  "owns d w I (\<lambda>s. add_mset (K, ns, n) (P s)) (api_delete K api ns n) P (\<lambda>_. P) (\<lambda>_. I)"
  by (rule ownsI) (auto simp: prog_simps within_diff split: option.splits)

text \<open>Every wait of the clients: it owns nothing, and returns a ready object of the asked name.\<close>
lemma owns_wait:
  assumes "readiness pe ready" "api_ok meta (api w)"
  shows "owns d w I P (bnd (wait_for_resource_condition K api t ns (by_name n) pe ()) deref) P (\<lambda>_. P)
     (\<lambda>x s. I s \<and> ready x \<and> om_ns (meta x) = ns \<and> om_name (meta x) = n)"
proof (rule ownsI)
  fix s tr base r s' tr'
  assume I: "I s" and o1: "within d (outstanding tr) (base + P s)"
    and run: "bnd (wait_for_resource_condition K api t ns (by_name n) pe ()) deref w s tr = (r, s', tr')"
  let ?run = "k_watch (api w) tr ns (by_name n) t"
  show "case r of Inl _ \<Rightarrow> within d (outstanding tr') (base + P s')
       | Inr x \<Rightarrow> within d (outstanding tr') (base + P s') \<and> I s' \<and> ready x \<and> om_ns (meta x) = ns \<and> om_name (meta x) = n"
  proof (cases "run_wait pe () ?run")
    case (Inl e)
    with run I o1 show ?thesis
      by (auto simp: wait_for_resource_condition_def prog_simps)
  next
    case (Inr v)
    from readiness.run_wait_ok [OF assms(1) Inr] obtain x where x: "x \<in> delivered ?run" "v = Some x" "ready x"
      by blast
    with assms(2) have "om_ns (meta x) = ns" "om_name (meta x) = n" by (auto simp: api_ok_def)
    with run I o1 Inr x show ?thesis
      by (auto simp: wait_for_resource_condition_def prog_simps deref_def)
  qed
qed

lemma owns_wait_plain:
  "owns d w I P (bnd (wait_for_resource_condition K api t ns sel pe acc) deref) P (\<lambda>_. P) (\<lambda>_. I)"
  by (rule ownsI) (auto simp: wait_for_resource_condition_def prog_simps deref_def
      split: sum.splits option.splits)

lemma owns_wait_deletion:
  "owns d w I P (wait_for_resource_deletion K api t ns n) P (\<lambda>_. P) (\<lambda>_. I)"
  by (rule ownsI) (auto simp: wait_for_resource_deletion_def prog_simps split: option.splits)

section \<open>One triple per client method\<close>

text \<open>Creators hand the created object to the caller and leave nothing when they fail.\<close>

lemma owns_create_pvc [owns_rules]:
  "world_ok w \<Longrightarrow> owns d w I P (create_pvc ns n sz opts) P (\<lambda>x s. add_mset (KPVC, ns, om_name (pvc_meta x)) (P s))
     (\<lambda>x s. I s \<and> om_ns (pvc_meta x) = ns)"
  unfolding create_pvc_def Let_def
  by (rule owns_wrapping, rule owns_weaken, rule owns_api_create) (auto dest: world_ok_apis)

lemma owns_create_pod [owns_rules]:
  "world_ok w \<Longrightarrow> owns d w I P (create_pod ns p) P (\<lambda>x s. add_mset (KPod, ns, om_name (pod_meta x)) (P s))
     (\<lambda>x s. I s \<and> om_ns (pod_meta x) = ns)"
  unfolding create_pod_def
  by (rule owns_bnd, rule owns_steps(1),
      rule owns_wrapping, rule owns_weaken, rule owns_api_create) (auto dest: world_ok_apis)

lemma owns_create_backup [owns_rules]:
  "world_ok w \<Longrightarrow> owns d w I P (create_backup ns n cn opts) P (\<lambda>x s. add_mset (KBackup, ns, om_name (bk_meta x)) (P s))
     (\<lambda>x s. I s \<and> om_ns (bk_meta x) = ns)"
  unfolding create_backup_def Let_def
  by (rule owns_wrapping, rule owns_weaken, rule owns_api_create) (auto dest: world_ok_apis)

lemma owns_create_cluster [owns_rules]:
  "world_ok w \<Longrightarrow> \<not> cco_generate opts \<Longrightarrow> n \<noteq> [] \<Longrightarrow>
     owns d w I P (create_cluster ns n sz sv ca rp opts) P (\<lambda>x s. add_mset (KCluster, ns, om_name (cl_meta x)) (P s))
     (\<lambda>x s. I s \<and> om_ns (cl_meta x) = ns \<and> om_name (cl_meta x) = n)"
  unfolding create_cluster_def Let_def
  by (rule owns_bnd, rule owns_steps(1), rule owns_bnd, rule owns_steps(1),
      rule owns_wrapping, rule owns_weaken, rule owns_api_create)
    (auto dest: world_ok_apis simp: new_cluster_spec_def label_resource_def set_name_def
      split: option.splits)

lemma owns_create_certificate [owns_rules]:
  "world_ok w \<Longrightarrow> \<not> cce_generate opts \<Longrightarrow> n \<noteq> [] \<Longrightarrow>
     owns d w I P (create_certificate ns n ref opts) P (\<lambda>x s. add_mset (KCertificate, ns, om_name (cert_meta x)) (P s))
     (\<lambda>x s. I s \<and> om_ns (cert_meta x) = ns \<and> om_name (cert_meta x) = n)"
  unfolding create_certificate_def
  by (rule owns_wrapping, rule owns_weaken, rule owns_api_create)
    (auto dest: world_ok_apis simp: new_certificate_def set_name_def)

lemma owns_create_issuer [owns_rules]:
  "world_ok w \<Longrightarrow> n \<noteq> [] \<Longrightarrow>
     owns d w I P (create_issuer ns n cfg False) P (\<lambda>x s. add_mset (KIssuer, ns, om_name (iss_meta x)) (P s))
     (\<lambda>x s. I s \<and> om_ns (iss_meta x) = ns \<and> om_name (iss_meta x) = n)"
  unfolding create_issuer_def
  by (rule owns_wrapping, rule owns_weaken, rule owns_api_create)
    (auto dest: world_ok_apis simp: set_name_def)

lemma owns_create_crp [owns_rules]:
  "world_ok w \<Longrightarrow> owns d w I P (create_certificate_request_policy n spec gen) P
     (\<lambda>x s. add_mset (KCRP, [], om_name (crp_meta x)) (P s)) (\<lambda>x s. I s \<and> om_ns (crp_meta x) = [])"
  unfolding create_certificate_request_policy_def
  by (rule owns_wrapping, rule owns_weaken, rule owns_api_create) (auto dest: world_ok_apis)

lemma owns_snapshot_volume [owns_rules]:
  "world_ok w \<Longrightarrow> owns d w I P (snapshot_volume ns pn n c) P (\<lambda>x s. add_mset (KSnapshot, ns, om_name (sn_meta x)) (P s))
     (\<lambda>x s. I s \<and> om_ns (sn_meta x) = ns)"
  unfolding snapshot_volume_def
  by (rule owns_wrapping, rule owns_weaken, rule owns_api_create) (auto dest: world_ok_apis)

lemma owns_group_snapshot_volumes [owns_rules]:
  "world_ok w \<Longrightarrow> owns d w I P (group_snapshot_volumes ns sel n c) P
     (\<lambda>x s. add_mset (KGroupSnapshot, ns, om_name (gs_meta x)) (P s)) (\<lambda>x s. I s \<and> om_ns (gs_meta x) = ns)"
  unfolding group_snapshot_volumes_def
  by (rule owns_wrapping, rule owns_weaken, rule owns_api_create) (auto dest: world_ok_apis)

text \<open>Deletes count as such whatever the server answers.\<close>

lemma owns_deletes [owns_rules]:
  "owns d w I (\<lambda>s. add_mset (KPVC, ns, n) (P s)) (delete_pvc ns n) P (\<lambda>_. P) (\<lambda>_. I)"
  "owns d w I (\<lambda>s. add_mset (KPod, ns, n) (P s)) (delete_pod ns n) P (\<lambda>_. P) (\<lambda>_. I)"
  "owns d w I (\<lambda>s. add_mset (KBackup, ns, n) (P s)) (delete_backup ns n) P (\<lambda>_. P) (\<lambda>_. I)"
  "owns d w I (\<lambda>s. add_mset (KCluster, ns, n) (P s)) (delete_cluster ns n) P (\<lambda>_. P) (\<lambda>_. I)"
  "owns d w I (\<lambda>s. add_mset (KCertificate, ns, n) (P s)) (delete_certificate ns n) P (\<lambda>_. P) (\<lambda>_. I)"
  "owns d w I (\<lambda>s. add_mset (KIssuer, ns, n) (P s)) (delete_issuer ns n) P (\<lambda>_. P) (\<lambda>_. I)"
  "owns d w I (\<lambda>s. add_mset (KCRP, [], n) (P s)) (delete_certificate_request_policy n) P (\<lambda>_. P) (\<lambda>_. I)"
  "owns d w I (\<lambda>s. add_mset (KSnapshot, ns, n) (P s)) (delete_snapshot ns n) P (\<lambda>_. P) (\<lambda>_. I)"
  "owns d w I (\<lambda>s. add_mset (KGroupSnapshot, ns, n) (P s)) (delete_group_snapshot ns n) P (\<lambda>_. P) (\<lambda>_. I)"
  unfolding delete_pvc_def delete_pod_def delete_backup_def delete_cluster_def delete_certificate_def
    delete_issuer_def delete_certificate_request_policy_def delete_snapshot_def delete_group_snapshot_def
  by (rule owns_wrapping owns_api_delete)+

text \<open>Reads and waits.\<close>

lemma owns_get_pvc [owns_rules]:
  "world_ok w \<Longrightarrow> owns d w I P (get_pvc ns n) P (\<lambda>_. P)
     (\<lambda>x s. I s \<and> om_ns (pvc_meta x) = ns \<and> om_name (pvc_meta x) = n)"
  unfolding get_pvc_def by (intro owns_wrapping owns_api_get) (auto dest: world_ok_apis)

lemma owns_get_cluster [owns_rules]:
  "world_ok w \<Longrightarrow> owns d w I P (get_cluster ns n) P (\<lambda>_. P)
     (\<lambda>x s. I s \<and> om_ns (cl_meta x) = ns \<and> om_name (cl_meta x) = n)"
  unfolding get_cluster_def by (intro owns_wrapping owns_api_get) (auto dest: world_ok_apis)

lemma owns_get_certificate [owns_rules]:
  "world_ok w \<Longrightarrow> owns d w I P (get_certificate ns n) P (\<lambda>_. P)
     (\<lambda>x s. I s \<and> om_ns (cert_meta x) = ns \<and> om_name (cert_meta x) = n)"
  unfolding get_certificate_def by (intro owns_wrapping owns_api_get) (auto dest: world_ok_apis)

lemma owns_plain_gets [owns_rules]:
  "owns d w I P (get_issuer ns n) P (\<lambda>_. P) (\<lambda>_. I)"
  "owns d w I P (get_cluster_issuer n) P (\<lambda>_. P) (\<lambda>_. I)"
  "owns d w I P (get_object_store ns n) P (\<lambda>_. P) (\<lambda>_. I)"
  "owns d w I P (get_endpoint ns n) P (\<lambda>_. P) (\<lambda>_. I)"
  unfolding get_issuer_def get_cluster_issuer_def get_object_store_def get_endpoint_def
  by (rule owns_wrapping, rule ownsI, auto simp: prog_simps split: sum.splits)+

lemma mset_map_nth: "mset p = mset [0..<length m] \<Longrightarrow> mset (map (nth m) p) = mset m"
proof -
  assume p: "mset p = mset [0..<length m]"
  have "mset (map (nth m) p) = image_mset (nth m) (mset [0..<length m])" by (simp only: mset_map p)
  also have "\<dots> = mset (map (nth m) [0..<length m])" by (simp only: mset_map)
  also have "\<dots> = mset m" by (simp only: map_nth)
  finally show ?thesis .
qed

lemma owns_map_range [owns_rules]:
  "world_ok w \<Longrightarrow> owns d w I P (map_range m) F (\<lambda>_. P) (\<lambda>x s. I s \<and> mset x = mset m)"
proof (rule ownsI)
  fix s tr base r s' tr'
  assume w: "world_ok w" and I: "I s" and o1: "within d (outstanding tr) (base + P s)"
    and run: "map_range m w s tr = (r, s', tr')"
  from run have "s' = s" "tr' = tr" by (simp_all add: prog_simps)
  with run have "r = Inr (map (nth m) (w_map_order w tr (length m)))" by (simp add: prog_simps)
  with \<open>s' = s\<close> \<open>tr' = tr\<close> mset_map_nth [OF world_ok_apis(11) [OF w]] I o1 show "case r of Inl _ \<Rightarrow> within d (outstanding tr') (base + F s')
       | Inr x \<Rightarrow> within d (outstanding tr') (base + P s') \<and> I s' \<and> mset x = mset m" by (simp only: sum.case simp_thms)
qed

lemma owns_list_pvcs [owns_rules]:
  "owns d w I P (list_pvcs f ns sel) P (\<lambda>_. P) (\<lambda>_. I)"
  unfolding list_pvcs_def
  by (rule owns_thn, rule owns_wrapping, rule owns_steps(3), rule owns_wrapping, rule owns_weaken,
      rule owns_api_list) auto

lemma owns_is_available [owns_rules]: "owns d w I P is_available P (\<lambda>_. P) (\<lambda>_. I)"
  by (rule ownsI) (auto simp: is_available_def Let_def split: option.splits sum.splits if_splits)

lemma owns_exec [owns_rules]: "owns d w I P (exec_in_pod ns p c cmd) P (\<lambda>_. P) (\<lambda>_. I)"
  unfolding exec_in_pod_def by (rule owns_wrapping, rule ownsI) (auto split: sum.splits)

lemma owns_wait_ready_pod [owns_rules]:
  "world_ok w \<Longrightarrow> owns d w I P (wait_for_ready_pod ns n t) P (\<lambda>_. P)
     (\<lambda>x s. I s \<and> condition_true cond_ready (pod_conditions x) \<and> om_ns (pod_meta x) = ns \<and> om_name (pod_meta x) = n)"
  unfolding wait_for_ready_pod_def
  by (rule owns_wrapping, rule owns_wait [OF pod_wait.readiness_axioms]) (rule world_ok_apis)

lemma owns_wait_ready_backup [owns_rules]:
  "world_ok w \<Longrightarrow> owns d w I P (wait_for_ready_backup ns n t) P (\<lambda>_. P)
     (\<lambda>x s. I s \<and> bk_phase x = PhaseCompleted \<and> om_ns (bk_meta x) = ns \<and> om_name (bk_meta x) = n)"
  unfolding wait_for_ready_backup_def
  by (rule owns_wrapping, rule owns_wait [OF backup_wait.readiness_axioms]) (rule world_ok_apis)

lemma owns_wait_ready_cluster [owns_rules]:
  "world_ok w \<Longrightarrow> owns d w I P (wait_for_ready_cluster ns n t) P (\<lambda>_. P)
     (\<lambda>x s. I s \<and> is_cluster_ready x \<and> om_ns (cl_meta x) = ns \<and> om_name (cl_meta x) = n)"
  unfolding wait_for_ready_cluster_def
  by (rule owns_wrapping, rule owns_wait [OF cluster_wait.readiness_axioms]) (rule world_ok_apis)

lemma owns_wait_ready_certificate [owns_rules]:
  "world_ok w \<Longrightarrow> owns d w I P (wait_for_ready_certificate ns n t) P (\<lambda>_. P)
     (\<lambda>x s. I s \<and> is_certificate_ready x \<and> om_ns (cert_meta x) = ns \<and> om_name (cert_meta x) = n)"
  unfolding wait_for_ready_certificate_def
  by (rule owns_wrapping, rule owns_wait [OF certificate_wait.readiness_axioms]) (rule world_ok_apis)

lemma owns_wait_ready_issuer [owns_rules]:
  "world_ok w \<Longrightarrow> owns d w I P (wait_for_ready_issuer ns n t) P (\<lambda>_. P)
     (\<lambda>x s. I s \<and> is_issuer_ready x \<and> om_ns (iss_meta x) = ns \<and> om_name (iss_meta x) = n)"
  unfolding wait_for_ready_issuer_def
  by (rule owns_wrapping, rule owns_wait [OF issuer_wait.readiness_axioms]) (rule world_ok_apis)

lemma owns_wait_ready_crp [owns_rules]:
  "world_ok w \<Longrightarrow> owns d w I P (wait_for_ready_crp n t) P (\<lambda>_. P)
     (\<lambda>x s. I s \<and> condition_true cond_ready (crp_conditions x) \<and> om_ns (crp_meta x) = [] \<and> om_name (crp_meta x) = n)"
  unfolding wait_for_ready_crp_def
  by (rule owns_wrapping, rule owns_wait [OF crp_wait.readiness_axioms]) (rule world_ok_apis)

lemma owns_wait_ready_snapshot [owns_rules]:
  "world_ok w \<Longrightarrow> owns d w I P (wait_for_ready_snapshot ns n t) P (\<lambda>_. P)
     (\<lambda>x s. I s \<and> ready_to_use (sn_status x) \<and> om_ns (sn_meta x) = ns \<and> om_name (sn_meta x) = n)"
  unfolding wait_for_ready_snapshot_def
  by (rule owns_wrapping, rule owns_wait [OF snapshot_wait.readiness_axioms]) (rule world_ok_apis)

lemma owns_wait_ready_group [owns_rules]:
  "world_ok w \<Longrightarrow> owns d w I P (wait_for_ready_group_snapshot ns n t) P (\<lambda>_. P)
     (\<lambda>x s. I s \<and> ready_to_use (gs_status x) \<and> om_ns (gs_meta x) = ns \<and> om_name (gs_meta x) = n)"
  unfolding wait_for_ready_group_snapshot_def
  by (rule owns_wrapping, rule owns_wait [OF group_wait.readiness_axioms]) (rule world_ok_apis)

lemma owns_wait_job [owns_rules]:
  "owns d w I P (wait_for_job_completion ns n t sel) P (\<lambda>_. P) (\<lambda>_. I)"
  unfolding wait_for_job_completion_def by (intro owns_wrapping owns_wait_plain)

lemma owns_wait_cluster_deleted [owns_rules]:
  "owns d w I P (wait_for_cluster_deleted ns n t) P (\<lambda>_. P) (\<lambda>_. I)"
  unfolding wait_for_cluster_deleted_def by (intro owns_wrapping owns_wait_deletion)

lemma owns_wait_members [owns_rules]:
  "owns d w I P (wait_for_ready_group_snapshot_members ns n k t) P (\<lambda>_. P) (\<lambda>_. I)"
  unfolding wait_for_ready_group_snapshot_members_def
  by (auto intro!: owns_fail owns_wrapping owns_wait_plain)

lemma owns_retry:
  "owns d w I P m P (\<lambda>_. P) Q \<Longrightarrow> (\<And>s tr e s' tr'. m w s tr = (Inl e, s', tr') \<Longrightarrow> s' = s) \<Longrightarrow>
     owns d w I P (retry_on_conflict k m) P (\<lambda>_. P) Q"
proof (induction k)
  case (Suc k)
  show ?case
  proof (rule ownsI)
    fix s tr base r s' tr'
    assume I: "I s" and o1: "within d (outstanding tr) (base + P s)"
      and run: "retry_on_conflict (Suc k) m w s tr = (r, s', tr')"
    obtain r1 s1 tr1 where m: "m w s tr = (r1, s1, tr1)" by (metis prod_cases3)
    note IH = Suc.IH [OF Suc.prems]
    show "case r of Inl _ \<Rightarrow> within d (outstanding tr') (base + P s')
       | Inr x \<Rightarrow> within d (outstanding tr') (base + P s') \<and> Q x s'"
    proof (cases r1)
      case (Inl e)
      from owns_err [OF Suc.prems(1) m [unfolded Inl] I o1] have o2: "within d (outstanding tr1) (base + P s1)" .
      have s1: "s1 = s" using Suc.prems(2) m Inl by blast
      show ?thesis
      proof (cases "is_kind Conflict e")
        case True
        with run m Inl have "retry_on_conflict k m w s1 tr1 = (r, s', tr')" by simp
        with owns_err [OF IH _ _ o2] owns_ok [OF IH _ _ o2] I s1 show ?thesis by (cases r) auto
      next
        case False
        with run m Inl o2 show ?thesis by auto
      qed
    next
      case (Inr x)
      with run m owns_ok [OF Suc.prems(1) m [unfolded Inr] I o1] show ?thesis by auto
    qed
  qed
qed simp

lemma owns_reissue_certificate [owns_rules]:
  assumes w: "world_ok w"
  shows "owns d w I P (reissue_certificate ns n) P (\<lambda>_. P)
     (\<lambda>x s. I s \<and> om_ns (cert_meta x) = ns \<and> om_name (cert_meta x) = n)"
  unfolding reissue_certificate_def
proof (rule owns_wrapping, rule owns_retry)
  show "owns d w I P (reissue_attempt ns n) P (\<lambda>_. P) (\<lambda>x s. I s \<and> om_ns (cert_meta x) = ns \<and> om_name (cert_meta x) = n)"
    unfolding reissue_attempt_def
    by (rule owns_bnd, rule owns_wrapping, rule owns_api_get, rule world_ok_apis, rule w,
        rule owns_bnd, rule owns_steps(1), rule owns_weaken, rule owns_api_update, rule world_ok_apis, rule w)
      (auto simp: world_ok_apis [OF w])
qed (auto simp: reissue_attempt_def prog_simps split: sum.splits)

end
