(* ===== verification/SampleWorld.thy ===== *)
theory SampleWorld
  imports Ownership
begin

text \<open>
  One concrete world, in which every call succeeds: the API server accepts and at once makes ready
  what it is given, and knows every object it is asked for.  It keeps the contracts
  \<^verbatim>\<open>world_ok\<close> and \<^verbatim>\<open>clock_ok\<close>; the theorems that assume them are tried out on it.
\<close>

definition sample_api :: "('o \<Rightarrow> objmeta) \<Rightarrow> ((objmeta \<Rightarrow> objmeta) \<Rightarrow> 'o \<Rightarrow> 'o) \<Rightarrow> ('o \<Rightarrow> 'o) \<Rightarrow> 'o
    \<Rightarrow> 'o list \<Rightarrow> 'o kapi" where
  "sample_api meta upd make_ready o0 listed = \<lparr>
     k_create = (\<lambda>tr ns ob. Inr (make_ready (upd (\<lambda>m. m\<lparr>om_ns := ns,
        om_name := (if om_name m = [] then om_genname m @ ''x'' else om_name m), om_created := 9000000000\<rparr>) ob))),
     k_get = (\<lambda>tr ns n. Inr (upd (\<lambda>m. m\<lparr>om_ns := ns, om_name := n\<rparr>) (make_ready o0))),
     k_list = (\<lambda>tr ns sel. Inr listed),
     k_update = (\<lambda>tr ns ob. Inr (upd (\<lambda>m. m\<lparr>om_ns := ns\<rparr>) ob)),
     k_delete = (\<lambda>tr ns n. None),
     k_watch = (\<lambda>tr ns sel t. \<lparr>
        wr_sync = Some (if take 14 sel = ''metadata.name=''
           then [upd (\<lambda>m. m\<lparr>om_ns := ns, om_name := drop 14 sel\<rparr>) (make_ready o0)] else listed),
        wr_events = [], wr_end = errorf ''watch ended'' \<rparr>) \<rparr>"

lemma sample_api_ok:
  assumes "\<And>f ob. meta (upd f ob) = f (meta ob)" "\<And>ob. meta (make_ready ob) = meta ob"
  shows "api_ok meta (sample_api meta upd make_ready o0 listed)"
  by (auto simp: api_ok_def sample_api_def delivered_def by_name_def assms)

definition ready_condition :: condition where
  "ready_condition = \<lparr> co_type = cond_ready, co_status = cond_true \<rparr>"

definition sample_pvc :: "string \<Rightarrow> pvc" where
  "sample_pvc n = \<lparr> pvc_meta = empty_meta\<lparr>om_name := n, om_created := 9000000000\<rparr>, pvc_access = [], pvc_size = Some 8, pvc_source = None, pvc_class = None \<rparr>"

definition sample_pod :: pod where
  "sample_pod = \<lparr> pod_meta = empty_meta, pod_containers = [], pod_volumes = [], pod_restart = [],
     pod_security = \<lparr> psc_user = 0, psc_group = 0, psc_nonroot = False, psc_seccomp = [] \<rparr>,
     pod_conditions = [], pod_ip = [] \<rparr>"

definition sample_issuer :: issuer where
  "sample_issuer = \<lparr> iss_meta = empty_meta, iss_config = SelfSigned, iss_conditions = [] \<rparr>"

definition sample_cert :: certificate where
  "sample_cert = \<lparr> cert_meta = empty_meta, cert_is_ca = False, cert_constraints = None, cert_cn = [],
     cert_dns = [], cert_ips = [], cert_uris = [], cert_emails = [], cert_usages = None, cert_key = None,
     cert_secret = [], cert_secret_labels = None, cert_duration = None,
     cert_issuer = \<lparr> ir_name = [], ir_kind = [], ir_group = [] \<rparr>, cert_encode_usages = False, cert_conditions = [] \<rparr>"

definition sample_crp :: crp where
  "sample_crp = \<lparr> crp_meta = empty_meta, crp_policy = \<lparr> cs_namespaces = [],
     cs_issuer = \<lparr> ir_name = [], ir_kind = [], ir_group = [] \<rparr>, cs_constraints = None, cs_allowed = None \<rparr>,
     crp_conditions = [] \<rparr>"

definition sample_cluster :: cluster where
  "sample_cluster = \<lparr> cl_meta = empty_meta, cl_instances = 1, cl_image = ''pg:16'', cl_bootstrap = None,
     cl_size = ''8Gi'', cl_class = None, cl_resources = [], cl_certs = None, cl_pghba = [], cl_external = [],
     cl_plugins = [\<lparr> pl_name = barman_cloud_plugin_name, pl_archiver = Some True,
        pl_params = [''barmanObjectName'' \<mapsto> ''store''] \<rparr>],
     cl_conditions = [], cl_primary = ''pg-1'', cl_write_service = ''pg-rw'' \<rparr>"

definition sample_backup :: backup where
  "sample_backup = \<lparr> bk_meta = empty_meta, bk_cluster = ''pg'', bk_method = [], bk_target = [], bk_online = True,
     bk_wait_archive = True, bk_phase = PhaseOther [], bk_snapshots = [(''PG_DATA'', ''data-snap'')] \<rparr>"

definition ready_status :: snapshot_status where
  "ready_status = \<lparr> sns_ready = Some True, sns_restore_size = Some 8, sns_created = Some 9000000000 \<rparr>"

definition sample_snapshot :: "string \<Rightarrow> string \<Rightarrow> snapshot" where
  "sample_snapshot n src = \<lparr> sn_meta = empty_meta\<lparr>om_name := n,
       om_owners := [(volume_group_snapshot_kind, ''volume-group-snapshot-x'')]\<rparr>,
     sn_source = Some src, sn_class = None, sn_status = Some ready_status \<rparr>"

definition sample_group :: group_snapshot where
  "sample_group = \<lparr> gs_meta = empty_meta, gs_selector = \<lparr> ls_labels = [], ls_exprs = [] \<rparr>, gs_class = None,
     gs_status = None \<rparr>"

definition sample_service :: service where
  "sample_service = \<lparr> svc_meta = empty_meta, svc_type = ClusterIP, svc_cluster_ip = ''10.0.0.2'',
     svc_cluster_ips = [], svc_ingress = [] \<rparr>"

definition sample_job :: job where
  "sample_job = \<lparr> job_meta = empty_meta, job_conditions = [\<lparr> co_type = ''Complete'', co_status = cond_true \<rparr>] \<rparr>"

text \<open>What psql answers in the primary pod: the statement is the last argument.\<close>
definition sample_exec :: "string list \<Rightarrow> string" where
  "sample_exec command = (if CHR ''|'' \<in> set (last command) then [] else
     if take 12 (last command) = ''SELECT coale'' then ''00000001000000000000000B|'' @ ''|f'' else ''00000001000000000000000A'')"

definition sample_world :: world where
  "sample_world = \<lparr>
     w_pvc = sample_api pvc_meta (\<lambda>f x. x\<lparr>pvc_meta := f (pvc_meta x)\<rparr>) (\<lambda>x. x) (sample_pvc [])
       [sample_pvc ''a'', sample_pvc ''b''],
     w_pod = sample_api pod_meta (\<lambda>f x. x\<lparr>pod_meta := f (pod_meta x)\<rparr>)
       (\<lambda>x. x\<lparr>pod_conditions := [ready_condition], pod_ip := ''10.0.0.1''\<rparr>) sample_pod [],
     w_service = sample_api svc_meta (\<lambda>f x. x\<lparr>svc_meta := f (svc_meta x)\<rparr>) (\<lambda>x. x) sample_service [],
     w_endpoint = sample_api eps_meta (\<lambda>f x. x\<lparr>eps_meta := f (eps_meta x)\<rparr>) (\<lambda>x. x)
       \<lparr> eps_meta = empty_meta, eps_addresses = [[''10.0.0.1'']] \<rparr> [],
     w_job = sample_api job_meta (\<lambda>f x. x\<lparr>job_meta := f (job_meta x)\<rparr>) (\<lambda>x. x) sample_job [sample_job],
     w_backup = sample_api bk_meta (\<lambda>f x. x\<lparr>bk_meta := f (bk_meta x)\<rparr>)
       (\<lambda>x. x\<lparr>bk_phase := PhaseCompleted, bk_snapshots := [(''PG_DATA'', ''data-snap'')]\<rparr>) sample_backup [],
     w_cluster = sample_api cl_meta (\<lambda>f x. x\<lparr>cl_meta := f (cl_meta x)\<rparr>)
       (\<lambda>x. x\<lparr>cl_conditions := [ready_condition]\<rparr>) sample_cluster [],
     w_cert = sample_api cert_meta (\<lambda>f x. x\<lparr>cert_meta := f (cert_meta x)\<rparr>)
       (\<lambda>x. x\<lparr>cert_conditions := [ready_condition]\<rparr>) sample_cert [],
     w_issuer = sample_api iss_meta (\<lambda>f x. x\<lparr>iss_meta := f (iss_meta x)\<rparr>)
       (\<lambda>x. x\<lparr>iss_conditions := [ready_condition]\<rparr>) sample_issuer [],
     w_cluster_issuer = sample_api iss_meta (\<lambda>f x. x\<lparr>iss_meta := f (iss_meta x)\<rparr>)
       (\<lambda>x. x\<lparr>iss_conditions := [ready_condition]\<rparr>) sample_issuer [],
     w_crp = sample_api crp_meta (\<lambda>f x. x\<lparr>crp_meta := f (crp_meta x)\<rparr>)
       (\<lambda>x. x\<lparr>crp_conditions := [ready_condition]\<rparr>) sample_crp [],
     w_snapshot = sample_api sn_meta (\<lambda>f x. x\<lparr>sn_meta := f (sn_meta x)\<rparr>)
       (\<lambda>x. x\<lparr>sn_status := Some ready_status\<rparr>) (sample_snapshot [] ''a'')
       [sample_snapshot ''m1'' ''a'', sample_snapshot ''m2'' ''b''],
     w_group = sample_api gs_meta (\<lambda>f x. x\<lparr>gs_meta := f (gs_meta x)\<rparr>)
       (\<lambda>x. x\<lparr>gs_status := Some ready_status\<rparr>) sample_group [],
     w_store = sample_api os_meta (\<lambda>f x. x\<lparr>os_meta := f (os_meta x)\<rparr>) (\<lambda>x. x)
       \<lparr> os_meta = empty_meta, os_server_name = [] \<rparr> [],
     w_discover = (\<lambda>tr. Inr [certificate_request_policy_kind]),
     w_mark_issuing = (\<lambda>c. c),
     w_exec = (\<lambda>tr ns p command. Inr (sample_exec command)),
     w_now = (\<lambda>tr. 1700000000000000000 + slept tr),
     w_uuid = (\<lambda>tr. ''0a1b2c3d-0000-4000-8000-000000000000''),
     w_new_conn = (\<lambda>tr addr. None), w_dial = (\<lambda>tr addr. None), w_close = (\<lambda>tr. None),
     w_call = (\<lambda>tr q. Inr (case q of ListDirectoryRequest _ \<Rightarrow> EntriesResponse [] | _ \<Rightarrow> EmptyResponse)),
     w_parse_quantity = (\<lambda>s. Inr 8), w_quantity_string = (\<lambda>q. ''8Gi''),
     w_generate_name = (\<lambda>k p. p @ ''x''), w_common_labels = None, w_map_order = (\<lambda>tr n. rev [0..<n]) \<rparr>"

lemma sample_world_ok: "world_ok sample_world"
  unfolding world_ok_def sample_world_def by (simp add: sample_api_ok)

lemma sample_clock_ok: "clock_ok sample_world"
  by (simp add: clock_ok_def sample_world_def)

end
