(* ===== verification/Paths.thy ===== *)
theory Paths
  imports Main
begin

text \<open>
  The functions of Go's \<^verbatim>\<open>path/filepath\<close> (on Unix) and \<^verbatim>\<open>strings\<close> that the program
  uses on paths: Join, Clean, Base, Rel on paths below a root, TrimPrefix, HasPrefix, Split;
  and net.JoinHostPort.
\<close>

definition slash :: char where "slash = CHR ''/''"

fun split_on :: "char \<Rightarrow> string \<Rightarrow> string list" where
  "split_on c [] = [[]]"
| "split_on c (x # xs) = (if x = c then [] # split_on c xs
     else (case split_on c xs of [] \<Rightarrow> [[x]] | y # ys \<Rightarrow> (x # y) # ys))"

fun join_with :: "string \<Rightarrow> string list \<Rightarrow> string" where
  "join_with sep [] = []"
| "join_with sep [x] = x"
| "join_with sep (x # y # ys) = x @ sep @ join_with sep (y # ys)"

definition has_prefix :: "string \<Rightarrow> string \<Rightarrow> bool" where
  "has_prefix p s \<longleftrightarrow> take (length p) s = p"

definition trim_prefix :: "string \<Rightarrow> string \<Rightarrow> string" where
  "trim_prefix p s = (if has_prefix p s then drop (length p) s else s)"

definition has_suffix :: "string \<Rightarrow> string \<Rightarrow> bool" where
  "has_suffix p s \<longleftrightarrow> has_prefix (rev p) (rev s)"

text \<open>filepath.Clean: the kept components, built left to right (in reverse).\<close>
fun clean_comps :: "bool \<Rightarrow> string list \<Rightarrow> string list \<Rightarrow> string list" where
  "clean_comps rooted acc [] = rev acc"
| "clean_comps rooted acc (c # cs) =
     (if c = [] \<or> c = ''.'' then clean_comps rooted acc cs
      else if c = ''..'' then
        (case acc of
           [] \<Rightarrow> if rooted then clean_comps rooted [] cs else clean_comps rooted [''..''] cs
         | a # as \<Rightarrow> if a = ''..'' then clean_comps rooted (''..'' # acc) cs else clean_comps rooted as cs)
      else clean_comps rooted (c # acc) cs)"

definition is_rooted :: "string \<Rightarrow> bool" where
  "is_rooted p \<longleftrightarrow> has_prefix ''/'' p"

definition path_clean :: "string \<Rightarrow> string" where
  "path_clean p =
     (let cs = clean_comps (is_rooted p) [] (split_on slash p);
          body = join_with ''/'' cs
      in if is_rooted p then ''/'' @ body else if body = [] then ''.'' else body)"

definition path_join :: "string list \<Rightarrow> string" where
  "path_join elems = (case filter (\<lambda>e. e \<noteq> []) elems of
      [] \<Rightarrow> []
    | es \<Rightarrow> path_clean (join_with ''/'' es))"

text \<open>filepath.Base: the last component, without trailing slashes.\<close>
definition path_base :: "string \<Rightarrow> string" where
  "path_base p = (if p = [] then ''.'' else
     (case filter (\<lambda>c. c \<noteq> []) (split_on slash p) of [] \<Rightarrow> ''/'' | c # cs \<Rightarrow> last (c # cs)))"

text \<open>The ASCII white space of strings.TrimSpace.\<close>
definition is_space :: "char \<Rightarrow> bool" where
  "is_space c \<longleftrightarrow> c \<in> {CHR 0x09, CHR 0x0A, CHR 0x0B, CHR 0x0C, CHR 0x0D, CHR '' ''}"

definition newline :: char where "newline = CHR 0x0A"

definition trim_space :: "string \<Rightarrow> string" where
  "trim_space s = rev (dropWhile is_space (rev (dropWhile is_space s)))"

text \<open>net.JoinHostPort: a host with a colon or a zone is bracketed.\<close>
definition join_host_port :: "string \<Rightarrow> string \<Rightarrow> string" where
  "join_host_port host port =
     (if CHR '':'' \<in> set host then ''['' @ host @ '']:'' @ port else host @ '':'' @ port)"

text \<open>A component that Clean leaves alone.\<close>
definition plain_comp :: "string \<Rightarrow> bool" where
  "plain_comp c \<longleftrightarrow> c \<noteq> [] \<and> c \<noteq> ''.'' \<and> c \<noteq> ''..'' \<and> slash \<notin> set c"

lemma split_on_ne [simp]: "split_on c s \<noteq> []"
  by (cases s) (auto split: list.splits)

lemma split_on_plain: "c \<notin> set s \<Longrightarrow> split_on c s = [s]"
  by (induction s) auto

lemma split_on_append: "c \<notin> set s \<Longrightarrow> split_on c (s @ c # t) = s # split_on c t"
  by (induction s) (auto split: list.splits)

lemma join_with_Cons: "cs \<noteq> [] \<Longrightarrow> join_with sep (x # cs) = x @ sep @ join_with sep cs"
  by (cases cs) auto

lemma split_join:
  "cs \<noteq> [] \<Longrightarrow> (\<And>c. c \<in> set cs \<Longrightarrow> slash \<notin> set c) \<Longrightarrow> split_on slash (join_with ''/'' cs) = cs"
proof (induction cs)
  case (Cons x cs)
  show ?case
  proof (cases "cs = []")
    case True
    with Cons.prems show ?thesis by (simp add: split_on_plain)
  next
    case False
    then have "join_with ''/'' (x # cs) = x @ slash # join_with ''/'' cs"
      by (simp add: join_with_Cons slash_def)
    with False Cons show ?thesis by (simp add: split_on_append)
  qed
qed simp

lemma clean_comps_plain:
  "(\<And>c. c \<in> set cs \<Longrightarrow> plain_comp c) \<Longrightarrow> clean_comps r acc cs = rev acc @ cs"
  by (induction cs arbitrary: acc) (auto simp: plain_comp_def)

text \<open>Joining plain components below a rooted path of plain components only inserts slashes.\<close>
definition rooted_path :: "string list \<Rightarrow> string" where
  "rooted_path cs = ''/'' @ join_with ''/'' cs"

lemma join_with_append:
  "as \<noteq> [] \<Longrightarrow> bs \<noteq> [] \<Longrightarrow> join_with sep (as @ bs) = join_with sep as @ sep @ join_with sep bs"
proof (induction as)
  case (Cons a as)
  then show ?case by (cases "as = []") (simp_all add: join_with_Cons)
qed simp

lemma has_prefix_append [simp]: "has_prefix p (p @ s)"
  by (simp add: has_prefix_def)

lemma has_prefix_iff: "has_prefix p s \<longleftrightarrow> (\<exists>t. s = p @ t)"
  unfolding has_prefix_def by (metis append_eq_conv_conj append_take_drop_id)

lemma trim_prefix_append [simp]: "trim_prefix p (p @ s) = s"
  by (simp add: trim_prefix_def)

lemma path_clean_rooted:
  "cs \<noteq> [] \<Longrightarrow> (\<And>c. c \<in> set cs \<Longrightarrow> plain_comp c) \<Longrightarrow> path_clean (rooted_path cs) = rooted_path cs"
proof -
  assume ne: "cs \<noteq> []" and pl: "\<And>c. c \<in> set cs \<Longrightarrow> plain_comp c"
  have "split_on slash (rooted_path cs) = [] # cs"
    using split_join [OF ne] pl by (simp add: rooted_path_def slash_def plain_comp_def)
  moreover have "is_rooted (rooted_path cs)" by (simp add: is_rooted_def rooted_path_def has_prefix_def)
  moreover have "clean_comps True [] cs = cs" using clean_comps_plain [of cs True "[]"] pl by simp
  ultimately show ?thesis by (simp add: path_clean_def Let_def) (simp add: rooted_path_def)
qed

lemma path_join_rooted:
  assumes "cs \<noteq> []" "ds \<noteq> []" "\<And>c. c \<in> set cs \<Longrightarrow> plain_comp c" "\<And>d. d \<in> set ds \<Longrightarrow> plain_comp d"
  shows "path_join (rooted_path cs # ds) = rooted_path (cs @ ds)"
proof -
  have f: "filter (\<lambda>e. e \<noteq> []) (rooted_path cs # ds) = rooted_path cs # ds"
    using assms(4) by (auto simp: rooted_path_def plain_comp_def filter_id_conv)
  have "join_with ''/'' (rooted_path cs # ds) = rooted_path (cs @ ds)"
    using assms(1,2) by (simp add: join_with_Cons rooted_path_def join_with_append)
  then show ?thesis using f path_clean_rooted [of "cs @ ds"] assms
    by (auto simp: path_join_def)
qed

end
