(* ===== verification/ClonePVC.thy ===== *)
theory ClonePVC
  imports SampleWorld Paths
begin

text \<open>
  \<^verbatim>\<open>src/pkg/kubecluster/composite/clonepvc\<close>: cloning one volume, or a label-selected
  group of volumes, through (group) snapshots.  The lemmas give each operation's ownership triple;
  the properties are that \<^verbatim>\<open>clone_pvc\<close> and \<^verbatim>\<open>clone_pvc_group\<close> leave nothing behind when they
  fail, with the one exception that \<^verbatim>\<open>clone_pvc_error_leftover\<close> pins down.
\<close>

section \<open>forcebind.go\<close>

definition force_bind_pod :: "volume list \<Rightarrow> volume_mount list \<Rightarrow> pod" where
  "force_bind_pod volumes mounts =
     \<lparr> pod_meta = empty_meta\<lparr>om_genname := ''force-bind-'',
         om_labels := Some [''app.kubernetes.io/component'' \<mapsto> ''force-bind'']\<rparr>,
       pod_containers = [\<lparr> ct_name = ''force-bind'', ct_image = ''registry.k8s.io/pause'',
         ct_command = [], ct_args = [], ct_mounts = mounts, ct_ports = [],
         ct_security = restricted_container_security_context 1000 1000,
         ct_startup = None, ct_readiness = None, ct_liveness = None \<rparr>],
       pod_volumes = volumes, pod_restart = ''Never'',
       pod_security = restricted_pod_security_context 1000 1000,
       pod_conditions = [], pod_ip = [] \<rparr>"

definition force_bind_volumes :: "string \<Rightarrow> string list \<Rightarrow> duration \<Rightarrow> ('s, unit) prog" where
  "force_bind_volumes ns pvc_names wait_ready =
     bnd (ask w_generate_name) (\<lambda>gen.
     let scvs = map (\<lambda>n. new_single_container_pvc n (path_join [''/mnt'', n])) pvc_names;
         (volumes, mounts) = convert_scvs gen scvs in
     bnd (wrapping ''create force bind pod'' (create_pod ns (force_bind_pod volumes mounts))) (\<lambda>p.
     deferred ''delete force bind pod'' (\<lambda>_. delete_pod ns (om_name (pod_meta p)))
       (bnd (wrapping ''wait for force bind pod''
              (wait_for_ready_pod ns (om_name (pod_meta p)) wait_ready)) (\<lambda>_. ret ()))))"

section \<open>createfromsnapshot.go\<close>

definition source_class :: "string \<Rightarrow> string \<Rightarrow> string \<Rightarrow> ('s, string) prog" where
  "source_class ns source_name dest_class =
     (if dest_class \<noteq> [] then ret dest_class
      else bnd (wrapping ''get source PVC'' (get_pvc ns source_name)) (\<lambda>src.
        ret (case pvc_class src of None \<Rightarrow> [] | Some c \<Rightarrow> c)))"

definition restore_size :: "snapshot \<Rightarrow> quantity option" where
  "restore_size sn = Option.bind (sn_status sn) sns_restore_size"

definition create_pvc_from_snapshot :: "string \<Rightarrow> string \<Rightarrow> string \<Rightarrow> snapshot \<Rightarrow> string
    \<Rightarrow> ('s, pvc) prog" where
  "create_pvc_from_snapshot ns dest_prefix source_name sn dest_class =
     bnd (source_class ns source_name dest_class) (\<lambda>class.
     (case restore_size sn of
        None \<Rightarrow> fail (errorf ''no restore size'')
      | Some sz \<Rightarrow> wrapping ''create volume from snapshot'' (create_pvc ns dest_prefix sz
          \<lparr> cpo_generate = True, cpo_class = class,
            cpo_source = Some \<lparr> tr_group = ''snapshot.storage.k8s.io'', tr_kind = volume_snapshot_kind,
              tr_name = om_name (sn_meta sn) \<rparr> \<rparr>)))"

section \<open>clonepvc.go\<close>

record clone_pvc_options =
  cpv_snapshot_timeout :: duration
  cpv_snapshot_class :: string
  cpv_dest_class :: string
  cpv_dest_prefix :: string
  cpv_force_bind :: bool
  cpv_force_bind_timeout :: duration

definition clone_from_ready :: "string \<Rightarrow> string \<Rightarrow> clone_pvc_options \<Rightarrow> string \<Rightarrow> ('s, pvc) prog" where
  "clone_from_ready ns pvc_name opts snap_name =
     bnd (wrapping ''wait for snapshot'' (wait_for_ready_snapshot ns snap_name (cpv_snapshot_timeout opts)))
       (\<lambda>ready.
     bnd (wrapping ''create volume from created snapshot''
            (create_pvc_from_snapshot ns
               (if cpv_dest_prefix opts \<noteq> [] then cpv_dest_prefix opts else pvc_name)
               pvc_name ready (cpv_dest_class opts))) (\<lambda>cloned.
     deferred ''delete created volume''
       (\<lambda>e. if e = None then ret () else delete_pvc ns (om_name (pvc_meta cloned)))
       (if cpv_force_bind opts then
          thn (wrapping ''force bind'' (force_bind_volumes ns [om_name (pvc_meta cloned)]
                 (cpv_force_bind_timeout opts))) (ret cloned)
        else ret cloned)))"

definition clone_pvc :: "string \<Rightarrow> string \<Rightarrow> clone_pvc_options \<Rightarrow> ('s, pvc) prog" where
  "clone_pvc ns pvc_name opts =
     bnd (wrapping ''snapshot'' (snapshot_volume ns pvc_name [] (cpv_snapshot_class opts))) (\<lambda>snap.
     deferred ''delete created snapshot'' (\<lambda>_. delete_snapshot ns (om_name (sn_meta snap)))
       (clone_from_ready ns pvc_name opts (om_name (sn_meta snap))))"

section \<open>clonepvcgroup.go\<close>

record clone_pvc_group_options =
  cpg_name :: string
  cpg_snapshot_class :: string
  cpg_snapshot_timeout :: duration
  cpg_dest_class :: string
  cpg_force_bind :: bool
  cpg_force_bind_timeout :: duration

text \<open>\<^verbatim>\<open>ClonedPVCs\<close> is a Go map from source to clone, as an association list.\<close>
record clone_pvc_group_result =
  cgr_group :: group_snapshot
  cgr_clones :: "(string \<times> pvc) list"

definition source_name_of :: "snapshot \<Rightarrow> string" where
  "source_name_of sn = (case sn_source sn of None \<Rightarrow> [] | Some n \<Rightarrow> n)"

definition clone_pvc_from_member :: "string \<Rightarrow> clone_pvc_group_options \<Rightarrow> snapshot \<Rightarrow> ('s, pvc) prog" where
  "clone_pvc_from_member ns opts member =
     (if source_name_of member = [] then fail (errorf ''no source PVC'')
      else wrapping ''create volume from member snapshot''
        (create_pvc_from_snapshot ns (source_name_of member) (source_name_of member) member (cpg_dest_class opts)))"

text \<open>The loop over the members; the receiver state is \<^verbatim>\<open>result.ClonedPVCs\<close>.\<close>
fun clone_members :: "string \<Rightarrow> clone_pvc_group_options \<Rightarrow> snapshot list
    \<Rightarrow> ((string \<times> pvc) list, unit) prog" where
  "clone_members ns opts [] = ret ()"
| "clone_members ns opts (member # members) =
     bnd (wrapping ''clone member snapshot'' (clone_pvc_from_member ns opts member)) (\<lambda>cloned.
     thn (upd_st (AList.update (source_name_of member) cloned)) (clone_members ns opts members))"

text \<open>Deleting every clone; the errors are aggregated and the loop goes on.\<close>
fun delete_clones :: "string \<Rightarrow> pvc list \<Rightarrow> error \<Rightarrow> ('s, unit) prog" where
  "delete_clones ns [] acc = lift_err acc"
| "delete_clones ns (p # ps) acc = (\<lambda>w s tr.
     case delete_pvc ns (om_name (pvc_meta p)) w s tr of
       (Inl e, s', tr') \<Rightarrow> delete_clones ns ps (new_aggregate [acc, Some e]) w s' tr'
     | (Inr _, s', tr') \<Rightarrow> delete_clones ns ps acc w s' tr')"

definition clone_and_bind :: "string \<Rightarrow> clone_pvc_group_options \<Rightarrow> snapshot list
    \<Rightarrow> ((string \<times> pvc) list, (string \<times> pvc) list) prog" where
  "clone_and_bind ns opts members =
     deferred ''delete created volumes''
       (\<lambda>e. if e = None then ret ()
            else bnd get_st (\<lambda>clones. bnd (map_range clones) (\<lambda>cs. delete_clones ns (map snd cs) None)))
       (thn (clone_members ns opts members)
         (bnd get_st (\<lambda>clones.
           if \<not> cpg_force_bind opts then ret clones
           else bnd (map_range clones) (\<lambda>cs. thn (wrapping ''force bind cloned volumes'' (force_bind_volumes ns
                   (map (\<lambda>(_, p). om_name (pvc_meta p)) cs) (cpg_force_bind_timeout opts)))
                (ret clones)))))"

definition clone_pvc_group :: "(label_selector \<Rightarrow> error) \<Rightarrow> string \<Rightarrow> label_selector
    \<Rightarrow> clone_pvc_group_options \<Rightarrow> ('s, clone_pvc_group_result) prog" where
  "clone_pvc_group as_selector ns sel opts =
     bnd (wrapping ''list PVCs'' (list_pvcs as_selector ns sel)) (\<lambda>sources.
     thn (guard (sources \<noteq> []) (errorf ''group selector matched no PVCs'')) (
     bnd (wrapping ''create group snapshot''
            (group_snapshot_volumes ns sel (cpg_name opts) (cpg_snapshot_class opts))) (\<lambda>g.
     deferred ''delete created group snapshot''
       (\<lambda>e. if e = None then ret () else delete_group_snapshot ns (om_name (gs_meta g)))
       (bnd (wrapping ''wait for group snapshot''
              (wait_for_ready_group_snapshot ns (om_name (gs_meta g)) (cpg_snapshot_timeout opts))) (\<lambda>ready.
        bnd (wrapping ''wait for members''
              (wait_for_ready_group_snapshot_members ns (om_name (gs_meta ready)) (int (length sources))
                 (cpg_snapshot_timeout opts))) (\<lambda>members.
        bnd (with_local [] (clone_and_bind ns opts members)) (\<lambda>clones.
        ret \<lparr> cgr_group = ready, cgr_clones = clones \<rparr>)))))))"

section \<open>Ownership\<close>

lemma owns_force_bind [owns_rules]:
  assumes w: "world_ok w"
  shows "owns d w I P (force_bind_volumes ns names t) P (\<lambda>_. P) (\<lambda>_. I)"
  unfolding force_bind_volumes_def Let_def split_def
  apply (rule owns_bnd, rule owns_steps(1))
  apply (rule owns_bnd, rule owns_wrapping, rule owns_create_pod [OF w])
  subgoal for gen p
    apply (rule owns_deferred [where Gm = "\<lambda>_ s. add_mset (KPod, ns, om_name (pod_meta p)) (P s)" and Qm = "\<lambda>_. I"])
      apply (rule owns_bnd, rule owns_wrapping, rule owns_wait_ready_pod [OF w], rule owns_ret, simp)
     apply (simp add: disposes_def, rule owns_weaken, rule owns_deletes, simp)
    apply (rule owns_deletes)
    done
  done

lemma owns_source_class: "world_ok w \<Longrightarrow> owns d w I P (source_class ns n c) P (\<lambda>_. P) (\<lambda>_. I)"
  unfolding source_class_def
  by (auto intro!: owns_ret)
    (rule owns_bnd, rule owns_wrapping, erule owns_get_pvc, rule owns_weaken, rule owns_steps(7), simp)

lemma owns_create_from_snapshot [owns_rules]:
  assumes w: "world_ok w"
  shows "owns d w I P (create_pvc_from_snapshot ns pre n sn c) P
     (\<lambda>x s. add_mset (KPVC, ns, om_name (pvc_meta x)) (P s)) (\<lambda>x s. I s \<and> om_ns (pvc_meta x) = ns)"
  unfolding create_pvc_from_snapshot_def
  by (rule owns_bnd [OF owns_source_class [OF w]])
    (auto intro!: owns_fail owns_wrapping owns_create_pvc [OF w] split: option.splits)

text \<open>Everything after the snapshot exists: on failure only what was there before is left.\<close>
lemma owns_clone_from_ready:
  assumes w: "world_ok w"
  shows "owns d w I P (clone_from_ready ns n opts sn) P
     (\<lambda>x s. add_mset (KPVC, ns, om_name (pvc_meta x)) (P s)) (\<lambda>x s. I s \<and> om_ns (pvc_meta x) = ns)"
  unfolding clone_from_ready_def
  apply (rule owns_bnd, rule owns_wrapping, rule owns_wait_ready_snapshot [OF w])
  apply (rule owns_bnd, rule owns_wrapping, rule owns_create_from_snapshot [OF w])
  subgoal for ready cloned
    apply (rule owns_deferred [where Gm = "\<lambda>x s. add_mset (KPVC, ns, om_name (pvc_meta x)) (P s)"
          and Qm = "\<lambda>x s. I s \<and> om_ns (pvc_meta x) = ns"])
      apply (cases "cpv_force_bind opts"; simp)
       apply (rule owns_thn, rule owns_wrapping, rule owns_force_bind [OF w], rule owns_ret, simp)
      apply (rule owns_ret, simp)
     apply (simp add: disposes_def, rule owns_weaken, rule owns_deletes, simp)
    apply (simp, rule owns_ret, simp)
    done
  done

text \<open>C29: a failed clone_pvc has deleted everything it created, except that when deleting the snapshot
  is what failed the clone may be left behind without the caller learning its name.\<close>
theorem clone_pvc_error_leftover:
  assumes w: "world_ok w" and run: "clone_pvc ns n opts w s tr = (Inl e, s', tr')"
  shows "outstanding tr' = outstanding tr \<or>
    (\<exists>p snap tr0 e'. tr' = tr0 @ [Deleted KSnapshot ns snap] \<and> k_delete (w_snapshot w) tr0 ns snap = Some e' \<and>
       outstanding tr' = outstanding tr + {#(KPVC, ns, p)#})"
proof -
  from run [unfolded clone_pvc_def] show ?thesis
  proof (cases rule: bndE)
    case (1 e1)
    from owns_err [OF owns_wrapping [OF owns_snapshot_volume [OF w, where d = Exactly and I = "\<lambda>_. True" and P = "\<lambda>_. {#}"]] 1(1)]
    show ?thesis by simp
  next
    case (2 snap s1 tr1)
    from owns_ok [OF owns_wrapping [OF owns_snapshot_volume [OF w, where d = Exactly and I = "\<lambda>_. True" and P = "\<lambda>_. {#}"]] 2(1)]
    have o1: "outstanding tr1 = outstanding tr + {#(KSnapshot, ns, om_name (sn_meta snap))#}" by simp
    from 2(2) obtain r2 s2 tr2 rc where
      body: "clone_from_ready ns n opts (om_name (sn_meta snap)) w s1 tr1 = (r2, s2, tr2)"
      and del: "delete_snapshot ns (om_name (sn_meta snap)) w s2 tr2 = (rc, s', tr')"
      and r: "Inl e = merge_err r2 (trace_wrap ''delete created snapshot'' (err_of rc))"
      by (rule deferredE)
    from del have tr': "tr' = tr2 @ [Deleted KSnapshot ns (om_name (sn_meta snap))]"
      and rc: "rc = (case k_delete (w_snapshot w) tr2 ns (om_name (sn_meta snap)) of
          None \<Rightarrow> Inr () | Some e \<Rightarrow> Inl (WrapErr ''delete snapshot'' e))"
      by (auto simp: delete_snapshot_def prog_simps split: option.splits)
    note body_owns = owns_clone_from_ready [OF w, where d = Exactly and I = "\<lambda>_. True" and P = "\<lambda>_. {#}"]
    show ?thesis
    proof (cases r2)
      case (Inl e2)
      from owns_err [OF body_owns body [unfolded Inl]] have "outstanding tr2 = outstanding tr1" by simp
      with o1 tr' show ?thesis by simp
    next
      case (Inr x)
      from owns_ok [OF body_owns body [unfolded Inr]]
      have o2: "outstanding tr2 = outstanding tr1 + {#(KPVC, ns, om_name (pvc_meta x))#}" by simp
      have "rc \<noteq> Inr ()" using r Inr by auto
      with rc obtain e' where "k_delete (w_snapshot w) tr2 ns (om_name (sn_meta snap)) = Some e'"
        by (auto split: option.splits)
      with o1 o2 tr' show ?thesis by auto
    qed
  qed
qed

lemma owns_clone_pvc_ok:
  assumes w: "world_ok w" and run: "clone_pvc ns n opts w s tr = (Inr x, s', tr')"
  shows "outstanding tr' = outstanding tr + {#(KPVC, ns, om_name (pvc_meta x))#} \<and> om_ns (pvc_meta x) = ns"
proof -
  from run [unfolded clone_pvc_def] show ?thesis
  proof (cases rule: bndE)
    case (2 snap s1 tr1)
    from owns_ok [OF owns_wrapping [OF owns_snapshot_volume [OF w, where d = Exactly and I = "\<lambda>_. True" and P = "\<lambda>_. {#}"]] 2(1)]
    have o1: "outstanding tr1 = outstanding tr + {#(KSnapshot, ns, om_name (sn_meta snap))#}" by simp
    from 2(2) obtain r2 s2 tr2 rc where
      body: "clone_from_ready ns n opts (om_name (sn_meta snap)) w s1 tr1 = (r2, s2, tr2)"
      and del: "delete_snapshot ns (om_name (sn_meta snap)) w s2 tr2 = (rc, s', tr')"
      and r: "Inr x = merge_err r2 (trace_wrap ''delete created snapshot'' (err_of rc))"
      by (rule deferredE)
    from del have tr': "tr' = tr2 @ [Deleted KSnapshot ns (om_name (sn_meta snap))]"
      by (auto simp: delete_snapshot_def prog_simps split: option.splits)
    have "r2 = Inr x" by (rule merge_err_Inr [THEN iffD1, OF r [symmetric], THEN conjunct1])
    with body owns_ok [OF owns_clone_from_ready [OF w, where d = Exactly and I = "\<lambda>_. True" and P = "\<lambda>_. {#}"], of ns n opts _ s1 tr1 x s2 tr2]
    have "outstanding tr2 = outstanding tr1 + {#(KPVC, ns, om_name (pvc_meta x))#} \<and> om_ns (pvc_meta x) = ns"
      by simp
    with o1 tr' show ?thesis by simp
  qed simp
qed

section \<open>Group members\<close>

text \<open>What the members wait keeps: entries by name, all delivered and ready members of the group.\<close>
definition members_inv :: "snapshot watch_run \<Rightarrow> string \<Rightarrow> (string \<times> snapshot) list \<Rightarrow> bool" where
  "members_inv run g acc \<longleftrightarrow> distinct (map fst acc) \<and>
     (\<forall>k sn. (k, sn) \<in> set acc \<longrightarrow> k = om_name (sn_meta sn) \<and> sn \<in> delivered run \<and> is_ready_group_member g sn)"

lemma members_inv_step:
  assumes inv: "members_inv run g acc" and x: "x \<in> delivered run"
    and step: "members_processor g k acc x = (acc', v, m, e)"
  shows "members_inv run g acc' \<and> (m \<longrightarrow> e = None \<longrightarrow> (\<exists>ms. v = Some ms \<and> k \<le> length ms \<and>
     distinct (map (\<lambda>sn. om_name (sn_meta sn)) ms) \<and>
     (\<forall>sn \<in> set ms. sn \<in> delivered run \<and> is_ready_group_member g sn)))"
proof -
  have acc': "acc' = (if is_ready_group_member g x then AList.update (om_name (sn_meta x)) x acc
      else AList.delete (om_name (sn_meta x)) acc)"
    using step by (auto simp: members_processor_def Let_def split: if_splits)
  have inv': "members_inv run g acc'"
  proof (cases "is_ready_group_member g x")
    case True
    have d: "distinct (map fst (AList.update (om_name (sn_meta x)) x acc))"
      using inv by (simp add: members_inv_def distinct_update)
    have "k1 = om_name (sn_meta s1) \<and> s1 \<in> delivered run \<and> is_ready_group_member g s1"
      if "(k1, s1) \<in> set (AList.update (om_name (sn_meta x)) x acc)" for k1 s1
    proof -
      from that d have "map_of (AList.update (om_name (sn_meta x)) x acc) k1 = Some s1" by simp
      then have "((map_of acc)(om_name (sn_meta x) \<mapsto> x)) k1 = Some s1" by (simp only: update_conv')
      then show ?thesis using inv x True
        by (auto simp: members_inv_def split: if_splits dest: map_of_SomeD)
    qed
    with d acc' True show ?thesis by (simp add: members_inv_def)
  next
    case False
    with acc' inv show ?thesis
      by (auto simp: members_inv_def AList.delete_eq distinct_map_filter)
  qed
  have names: "map (\<lambda>sn. om_name (sn_meta sn)) (map snd acc') = map fst acc'"
    using inv' by (force simp: members_inv_def)
  have res: "distinct (map (\<lambda>sn. om_name (sn_meta sn)) (map snd acc')) \<and>
      (\<forall>sn \<in> set (map snd acc'). sn \<in> delivered run \<and> is_ready_group_member g sn)"
    unfolding names using inv' by (auto simp: members_inv_def)
  have "m \<longrightarrow> v = Some (map snd acc') \<and> k \<le> length acc'"
    using step by (auto simp: members_processor_def Let_def split: if_splits)
  with res inv' show ?thesis by auto
qed

lemma members_wait_inv:
  "run_wait (members_processor g k) [] run = Inr v \<Longrightarrow>
     \<exists>ms. v = Some ms \<and> k \<le> length ms \<and> distinct (map (\<lambda>sn. om_name (sn_meta sn)) ms) \<and>
       (\<forall>sn \<in> set ms. sn \<in> delivered run \<and> is_ready_group_member g sn)"
  by (rule run_wait_inv [where I = "members_inv run g", OF _ members_inv_step])
    (auto simp: members_inv_def)

text \<open>C30: a wait for group members returns at least the expected number of distinct snapshots, each
  delivered by the API server, ready to restore, and owned by the group.\<close>
theorem members_wait_result:
  "run_wait (members_processor g k) [] run = Inr v \<Longrightarrow>
     \<exists>ms. v = Some ms \<and> k \<le> length ms \<and> distinct (map (\<lambda>sn. om_name (sn_meta sn)) ms) \<and>
       (\<forall>sn \<in> set ms. sn \<in> delivered run \<and> is_ready_group_member g sn)"
  by (rule members_wait_inv)

section \<open>Ownership of a group clone\<close>

definition owned_clones :: "string \<Rightarrow> (string \<times> pvc) list \<Rightarrow> objref multiset" where
  "owned_clones ns clones = mset (map (\<lambda>(_, p). (KPVC, ns, om_name (pvc_meta p))) clones)"

lemma owned_clones_simps [simp]:
  "owned_clones ns [] = {#}"
  "owned_clones ns ((k, p) # cs) = add_mset (KPVC, ns, om_name (pvc_meta p)) (owned_clones ns cs)"
  by (simp_all add: owned_clones_def)

lemma owned_clones_update:
  "k \<notin> fst ` set cs \<Longrightarrow> owned_clones ns (AList.update k p cs)
     = add_mset (KPVC, ns, om_name (pvc_meta p)) (owned_clones ns cs)"
  by (simp add: update_fresh owned_clones_def)

lemma delete_clones_run:
  "delete_clones ns (map snd cs) acc w s tr = (r, s', tr') \<Longrightarrow> within d (outstanding tr) (base + owned_clones ns cs) \<Longrightarrow>
     within d (outstanding tr') (base)"
proof (induction cs arbitrary: acc s tr)
  case Nil
  then show ?case by (auto split: option.splits)
next
  case (Cons c cs)
  obtain k p where c: "c = (k, p)" by (cases c)
  obtain rd sd trd where d: "delete_pvc ns (om_name (pvc_meta p)) w s tr = (rd, sd, trd)" by (metis prod_cases3)
  from d Cons.prems(2) c have o2: "within d (outstanding trd) (base + owned_clones ns cs)"
    by (auto simp: delete_pvc_def prog_simps within_diff split: option.splits)
  from Cons.prems(1) c d obtain acc' where "delete_clones ns (map snd cs) acc' w sd trd = (r, s', tr')"
    by (cases rd) auto
  from Cons.IH [OF this o2] show ?case .
qed

lemma owned_clones_mset: "mset cs = mset ds \<Longrightarrow> owned_clones ns cs = owned_clones ns ds"
  by (simp add: owned_clones_def)

lemma disposes_delete_clones:
  assumes w: "world_ok w"
  shows "disposes d w (\<lambda>_. True) (owned_clones ns)
     (bnd get_st (\<lambda>clones. bnd (map_range clones) (\<lambda>cs. delete_clones ns (map snd cs) None))) (\<lambda>_. {#})"
  unfolding disposes_def
proof (rule ownsI)
  fix s tr base r s' tr'
  assume o1: "within d (outstanding tr) (base + owned_clones ns s)"
    and run: "bnd get_st (\<lambda>clones. bnd (map_range clones) (\<lambda>cs. delete_clones ns (map snd cs) None)) w s tr = (r, s', tr')"
  let ?cs = "map (nth s) (w_map_order w tr (length s))"
  from run have run': "delete_clones ns (map snd ?cs) None w s tr = (r, s', tr')" by (simp only: prog_simps prod.case sum.case)
  have "mset ?cs = mset s" by (rule mset_map_nth [OF world_ok_apis(11) [OF w]])
  with o1 have "within d (outstanding tr) (base + owned_clones ns ?cs)" by (simp only: owned_clones_mset [of ?cs s])
  from delete_clones_run [OF run' this] show "case r of Inl _ \<Rightarrow> within d (outstanding tr') (base + {#})
       | Inr x \<Rightarrow> within d (outstanding tr') (base + {#}) \<and> True" by (simp split: sum.splits)
qed

lemma owns_clone_member [owns_rules]:
  assumes w: "world_ok w"
  shows "owns d w I P (clone_pvc_from_member ns opts m) P
     (\<lambda>x s. add_mset (KPVC, ns, om_name (pvc_meta x)) (P s)) (\<lambda>x s. I s \<and> om_ns (pvc_meta x) = ns)"
  unfolding clone_pvc_from_member_def
  by (auto intro!: owns_fail owns_wrapping owns_create_from_snapshot [OF w] simp del: add_mset_add_single)

text \<open>The sources still to come are distinct and not cloned yet.\<close>
definition fresh_sources :: "snapshot list \<Rightarrow> (string \<times> pvc) list \<Rightarrow> bool" where
  "fresh_sources ms cs \<longleftrightarrow> distinct (map source_name_of ms) \<and> fst ` set cs \<inter> source_name_of ` set ms = {}"

lemma owns_clone_members:
  assumes w: "world_ok w"
  shows "owns d w (fresh_sources ms) (owned_clones ns) (clone_members ns opts ms) (owned_clones ns)
     (\<lambda>_. owned_clones ns) (\<lambda>_ _. True)"
proof (induction ms)
  case Nil
  show ?case unfolding clone_members.simps by (rule owns_ret) simp
next
  case (Cons m ms)
  show ?case
    unfolding clone_members.simps
    apply (rule owns_bnd, rule owns_wrapping, rule owns_clone_member [OF w])
    apply (rule owns_thn [OF _ Cons])
    apply (rule owns_upd_st)
    apply (auto simp: fresh_sources_def owned_clones_update dom_update)
    done
qed

lemma owns_clone_and_bind:
  assumes w: "world_ok w" and d: "distinct (map source_name_of members)"
  shows "owns d w (\<lambda>s. s = []) (\<lambda>_. {#}) (clone_and_bind ns opts members) (\<lambda>_. {#})
     (\<lambda>cs _. owned_clones ns cs) (\<lambda>_ _. True)"
proof -
  have members: "owns d w (\<lambda>s. s = []) (\<lambda>_. {#}) (clone_members ns opts members) (owned_clones ns)
      (\<lambda>_. owned_clones ns) (\<lambda>_ _. True)"
    by (rule owns_conseq [OF owns_clone_members [OF w]]) (auto simp: fresh_sources_def d)
  show ?thesis
    unfolding clone_and_bind_def
    apply (rule owns_deferred [where Gm = "\<lambda>cs s. owned_clones ns cs" and Qm = "\<lambda>_ _. True"
          and ?F1.0 = "owned_clones ns"])
      apply (rule owns_thn [OF members])
      apply (rule owns_bnd, rule owns_steps(5))
    subgoal for cs
      apply (cases "cpg_force_bind opts"; simp)
       apply (rule owns_bnd, rule owns_map_range [OF w])
       apply (rule owns_thn, rule owns_wrapping, rule owns_force_bind [OF w], rule owns_ret, simp)
      apply (rule owns_ret, simp)
      done
     apply (simp, rule disposes_delete_clones [OF w])
    apply (simp, rule owns_ret, simp)
    done
qed

text \<open>Member snapshots of one group have distinct source PVCs: what the CSI snapshotter guarantees.\<close>
definition distinct_member_sources :: "world \<Rightarrow> string \<Rightarrow> bool" where
  "distinct_member_sources w ns \<longleftrightarrow> (\<forall>tr t g. \<forall>a \<in> delivered (k_watch (w_snapshot w) tr ns [] t).
     \<forall>b \<in> delivered (k_watch (w_snapshot w) tr ns [] t).
       is_ready_group_member g a \<longrightarrow> is_ready_group_member g b \<longrightarrow>
       source_name_of a = source_name_of b \<longrightarrow> om_name (sn_meta a) = om_name (sn_meta b))"

lemma owns_wait_members_distinct:
  assumes d: "distinct_member_sources w ns"
  shows "owns d w I P (wait_for_ready_group_snapshot_members ns g k t) P (\<lambda>_. P)
     (\<lambda>ms s. I s \<and> distinct (map source_name_of ms))"
proof (rule ownsI)
  fix s tr base r s' tr'
  assume I: "I s" and o1: "within d (outstanding tr) (base + P s)"
    and run: "wait_for_ready_group_snapshot_members ns g k t w s tr = (r, s', tr')"
  let ?run = "k_watch (w_snapshot w) tr ns [] (max_wait t (10 * minute))"
  show "case r of Inl _ \<Rightarrow> within d (outstanding tr') (base + P s')
       | Inr ms \<Rightarrow> within d (outstanding tr') (base + P s') \<and> I s' \<and> distinct (map source_name_of ms)"
  proof (cases r)
    case (Inl e)
    with owns_err [OF owns_wait_members [where I = I and P = P] _ I o1] run show ?thesis by simp
  next
    case (Inr ms)
    with owns_ok [OF owns_wait_members [where I = I and P = P] _ I o1] run
    have o2: "within d (outstanding tr') (base + P s') \<and> I s'" by simp
    from run Inr have "run_wait (members_processor g (nat k)) [] ?run = Inr (Some ms)"
      by (auto simp: wait_for_ready_group_snapshot_members_def wait_for_resource_condition_def
          prog_simps deref_def split: if_splits sum.splits option.splits)
    from members_wait_inv [OF this] have ms: "distinct (map (\<lambda>sn. om_name (sn_meta sn)) ms)"
      "\<forall>sn \<in> set ms. sn \<in> delivered ?run \<and> is_ready_group_member g sn" by auto
    have "inj_on source_name_of (set ms)"
    proof (rule inj_onI)
      fix a b assume ab: "a \<in> set ms" "b \<in> set ms" "source_name_of a = source_name_of b"
      with ms(2) d have "om_name (sn_meta a) = om_name (sn_meta b)"
        unfolding distinct_member_sources_def by blast
      with ms(1) ab show "a = b" by (metis distinct_map inj_onD)
    qed
    with ms(1) have "distinct (map source_name_of ms)" by (simp add: distinct_map)
    with o2 Inr show ?thesis by simp
  qed
qed

definition owned_group_result :: "string \<Rightarrow> clone_pvc_group_result \<Rightarrow> objref multiset" where
  "owned_group_result ns res = add_mset (KGroupSnapshot, ns, om_name (gs_meta (cgr_group res))) (owned_clones ns (cgr_clones res))"

lemma owns_clone_pvc_group [owns_rules]:
  assumes w: "world_ok w" and d: "distinct_member_sources w ns"
  shows "owns b w I P (clone_pvc_group as_sel ns sel opts) P (\<lambda>res s. P s + owned_group_result ns res) (\<lambda>_. I)"
  unfolding clone_pvc_group_def
  apply (rule owns_bnd, rule owns_wrapping, rule owns_list_pvcs)
  apply (rule owns_thn, rule owns_steps(2))
  apply (rule owns_bnd, rule owns_wrapping, rule owns_group_snapshot_volumes [OF w])
  subgoal for sources g
    apply (rule owns_deferred [where Gm = "\<lambda>res s. P s + owned_group_result ns res" and Qm = "\<lambda>_. I"
          and ?F1.0 = "\<lambda>s. add_mset (KGroupSnapshot, ns, om_name (gs_meta g)) (P s)"])
      apply (rule owns_bnd, rule owns_wrapping, rule owns_wait_ready_group [OF w])
      apply (rule owns_bnd, rule owns_wrapping, rule owns_wait_members_distinct [OF d])
    subgoal for ready members
      apply (rule owns_bnd [where Gm = "\<lambda>cs s. add_mset (KGroupSnapshot, ns, om_name (gs_meta g)) (P s) + owned_clones ns cs"
            and Qm = "\<lambda>_ s. I s \<and> om_name (gs_meta ready) = om_name (gs_meta g)"])
       apply (cases "distinct (map source_name_of members) \<and> om_name (gs_meta ready) = om_name (gs_meta g)")
        apply (rule owns_conseq [OF owns_with_local [OF owns_clone_and_bind [OF w], where I = I
              and P = "\<lambda>s. add_mset (KGroupSnapshot, ns, om_name (gs_meta g)) (P s)"]])
           apply (auto simp: owns_def)[4]
       apply (auto simp: owns_def)[1]
      apply (rule owns_ret, simp add: owned_group_result_def)
      done
     apply (simp add: disposes_def)
     apply (rule owns_weaken, rule owns_deletes, simp)
    apply (simp, rule owns_ret, simp)
    done
  done

text \<open>C15: a failed clone_pvc_group leaves nothing behind, and a successful one exactly the group
  snapshot and the clones it returns.\<close>
theorem clone_pvc_group_owns:
  assumes w: "world_ok w" and d: "distinct_member_sources w ns"
    and run: "clone_pvc_group as_sel ns sel opts w s tr = (r, s', tr')"
  shows "outstanding tr' = outstanding tr + (case r of Inl _ \<Rightarrow> {#}
     | Inr res \<Rightarrow> add_mset (KGroupSnapshot, ns, om_name (gs_meta (cgr_group res))) (owned_clones ns (cgr_clones res)))"
proof -
  note O = owns_clone_pvc_group [OF w d, where b = Exactly and I = "\<lambda>_. True" and P = "\<lambda>_. {#}"]
  show ?thesis
  proof (cases r)
    case (Inl e)
    from owns_err [OF O run [unfolded Inl]] Inl show ?thesis by simp
  next
    case (Inr res)
    from owns_ok [OF O run [unfolded Inr]] Inr show ?thesis by (simp add: owned_group_result_def)
  qed
qed

text \<open>When snapshots can be deleted, a failed clone_pvc leaves nothing.\<close>
lemma owns_clone_pvc [owns_rules]:
  assumes w: "world_ok w" and deletable: "\<And>tr n. k_delete (w_snapshot w) tr ns n = None"
  shows "owns b w I P (clone_pvc ns n opts) P (\<lambda>x s. add_mset (KPVC, ns, om_name (pvc_meta x)) (P s)) (\<lambda>_. I)"
  unfolding clone_pvc_def
  apply (rule owns_bnd, rule owns_wrapping, rule owns_snapshot_volume [OF w])
  subgoal for snap
    apply (rule owns_deferred [where Gm = "\<lambda>x s. add_mset (KPVC, ns, om_name (pvc_meta x)) (add_mset (KSnapshot, ns, om_name (sn_meta snap)) (P s))"
          and Qm = "\<lambda>_. I"])
      apply (rule owns_weaken, rule owns_clone_from_ready [OF w, where P = "\<lambda>s. add_mset (KSnapshot, ns, om_name (sn_meta snap)) (P s)"], simp)
     apply (simp add: disposes_def, rule owns_weaken, rule owns_deletes, simp)
    apply (rule ownsI)
    apply (auto simp: delete_snapshot_def prog_simps deletable add_mset_commute within_diff split: option.splits)
    done
  done

section \<open>The operations in the sample world\<close>

text \<open>The sample world, except that snapshots cannot be deleted.\<close>
definition stuck_snapshots :: world where
  "stuck_snapshots = sample_world\<lparr>w_snapshot := (w_snapshot sample_world)\<lparr>k_delete := \<lambda>tr ns n. Some (errorf ''forbidden'')\<rparr>\<rparr>"

definition sample_clone_pvc_options :: clone_pvc_options where
  "sample_clone_pvc_options = \<lparr> cpv_snapshot_timeout = 0, cpv_snapshot_class = [], cpv_dest_class = ''fast'',
     cpv_dest_prefix = [], cpv_force_bind = True, cpv_force_bind_timeout = 0 \<rparr>"

definition sample_group_options :: clone_pvc_group_options where
  "sample_group_options = \<lparr> cpg_name = [], cpg_snapshot_class = [], cpg_snapshot_timeout = 0, cpg_dest_class = [],
     cpg_force_bind = True, cpg_force_bind_timeout = 0 \<rparr>"

lemma stuck_snapshots_ok: "world_ok stuck_snapshots"
  using sample_world_ok unfolding world_ok_def stuck_snapshots_def by (simp add: api_ok_def)

theorem clone_pvc_error_leftover_witness:
  "\<exists>e tr'. clone_pvc ''ns'' ''data'' sample_clone_pvc_options stuck_snapshots () [] = (Inl e, (), tr') \<and>
     (\<exists>p. outstanding tr' = {#(KPVC, ''ns'', p)#})"
proof -
  obtain r u tr' where run: "clone_pvc ''ns'' ''data'' sample_clone_pvc_options stuck_snapshots () [] = (r, u, tr')"
    by (metis prod_cases3)
  have "isl (fst (clone_pvc ''ns'' ''data'' sample_clone_pvc_options stuck_snapshots () []))"
    "outstanding (snd (snd (clone_pvc ''ns'' ''data'' sample_clone_pvc_options stuck_snapshots () []))) \<noteq> {#}" by code_simp+
  with run obtain e where r: "r = Inl e" and left: "outstanding tr' \<noteq> {#}" by (cases r) auto
  from clone_pvc_error_leftover [OF stuck_snapshots_ok run [unfolded r]] left run r show ?thesis by auto
qed

theorem members_wait_result_witness:
  "\<exists>ms. run_wait (members_processor ''volume-group-snapshot-x'' 2) [] (k_watch (w_snapshot sample_world) [] ''ns'' [] 0) = Inr (Some ms) \<and>
     2 \<le> length ms \<and> distinct (map (\<lambda>sn. om_name (sn_meta sn)) ms)"
proof -
  let ?run = "run_wait (members_processor ''volume-group-snapshot-x'' 2) [] (k_watch (w_snapshot sample_world) [] ''ns'' [] 0)"
  have "\<not> isl ?run" by code_simp
  then obtain v where v: "?run = Inr v" by (cases ?run) auto
  from members_wait_result [OF v] v show ?thesis by auto
qed

theorem clone_pvc_group_owns_witness:
  "\<exists>res tr'. clone_pvc_group (\<lambda>_. None) ''ns'' \<lparr> ls_labels = [], ls_exprs = [] \<rparr> sample_group_options sample_world () [] = (Inr res, (), tr') \<and>
     outstanding tr' = add_mset (KGroupSnapshot, ''ns'', om_name (gs_meta (cgr_group res))) (owned_clones ''ns'' (cgr_clones res)) \<and>
     length (cgr_clones res) = 2"
proof -
  let ?c = "clone_pvc_group (\<lambda>_. None) ''ns'' \<lparr> ls_labels = [], ls_exprs = [] \<rparr> sample_group_options sample_world () []"
  have d: "distinct_member_sources sample_world ''ns''"
    by (auto simp: distinct_member_sources_def sample_world_def sample_api_def delivered_def sample_snapshot_def source_name_of_def)
  obtain r u tr' where run: "?c = (r, u, tr')" by (metis prod_cases3)
  have "case fst ?c of Inl _ \<Rightarrow> False | Inr res \<Rightarrow> length (cgr_clones res) = 2" by code_simp
  with run obtain res where r: "r = Inr res" and len: "length (cgr_clones res) = 2" by (cases r) auto
  from clone_pvc_group_owns [OF sample_world_ok d run] run r len show ?thesis by simp
qed

end
