(* ===== verification/Instance.thy ===== *)
theory Instance
  imports SampleWorld Paths
begin

text \<open>
  The pod the backup tool runs in and the DR volume
  (\<^verbatim>\<open>src/pkg/kubecluster/composite/backuptoolinstance\<close>, \<^verbatim>\<open>drvolume\<close>), the gRPC connection to
  the pod (\<^verbatim>\<open>src/pkg/grpc/clients/client.go\<close>), and the constants they use.
\<close>

section \<open>constants.go, grpc.go\<close>

definition tool_name :: string where "tool_name = ''backup-tool''"
definition tool_short_name :: string where "tool_short_name = ''bt''"
definition version :: string where "version = ''0.0.1-dev''"
definition image_registry :: string where "image_registry = ''ghcr.io/soliddowant''"
definition full_image_name :: string where
  "full_image_name = image_registry @ ''/'' @ tool_name @ '':'' @ version"
definition grpc_port :: nat where "grpc_port = 40983"
definition grpc_port_string :: string where "grpc_port_string = ''40983''"
definition system_service :: string where "system_service = []"

section \<open>clients/client.go\<close>

text \<open>
  NewClient makes the connection and then verifies that the address can be reached; a failed
  verification returns without closing the connection.
\<close>
definition verify_connection :: "string \<Rightarrow> ('s, unit) prog" where
  "verify_connection addr = (\<lambda>w s tr.
     (case w_dial w tr addr of None \<Rightarrow> Inr () | Some e \<Rightarrow> Inl e, s, tr @ [Dialed addr]))"

definition new_grpc_client :: "string \<Rightarrow> ('s, unit) prog" where
  "new_grpc_client addr = (\<lambda>w s tr. case w_new_conn w tr addr of
      Some e \<Rightarrow> (Inl (WrapErr ''create client'' e), s, tr)
    | None \<Rightarrow> wrapping ''verify connection'' (verify_connection addr) w s (tr @ [Opened addr]))"

definition close_grpc_client :: "('s, unit) prog" where
  "close_grpc_client = (\<lambda>w s tr.
     (case w_close w tr of None \<Rightarrow> Inr () | Some e \<Rightarrow> Inl e, s, tr @ [Closed]))"

text \<open>Connections opened and not closed.\<close>
fun open_conns :: "trace \<Rightarrow> int" where
  "open_conns [] = 0"
| "open_conns (Opened _ # tr) = 1 + open_conns tr"
| "open_conns (Closed # tr) = open_conns tr - 1"
| "open_conns (_ # tr) = open_conns tr"

lemma open_conns_append [simp]: "open_conns (tr @ tr') = open_conns tr + open_conns tr'"
  by (induction tr rule: open_conns.induct) auto

section \<open>backuptoolinstance.go\<close>

record bt_options =
  bto_prefix :: string
  bto_volumes :: "scv list"
  bto_cleanup :: duration
  bto_pod_wait :: duration

record bt_instance = bti_pod :: "pod option"

definition bt_probe :: probe where
  "bt_probe = \<lparr> pb_port = grpc_port, pb_service = system_service, pb_timeout = 1, pb_period = 3,
     pb_success = 1, pb_failure = 2 \<rparr>"

definition bt_container :: "volume_mount list \<Rightarrow> container" where
  "bt_container mounts = \<lparr> ct_name = tool_name, ct_image = full_image_name, ct_command = [tool_name],
     ct_args = [''grpc''], ct_mounts = mounts,
     ct_ports = [\<lparr> cp_name = ''grpc'', cp_port = grpc_port, cp_proto = ''TCP'' \<rparr>],
     ct_security = file_management_container_security_context,
     ct_startup = Some bt_probe, ct_readiness = Some bt_probe, ct_liveness = Some bt_probe \<rparr>"

definition bt_pod :: "string \<Rightarrow> volume list \<Rightarrow> volume_mount list \<Rightarrow> pod" where
  "bt_pod name_prefix volumes mounts =
     \<lparr> pod_meta = empty_meta\<lparr>om_genname := clean_name name_prefix,
         om_labels := Some [''app.kubernetes.io/component'' \<mapsto> tool_name @ ''-grpc-server'']\<rparr>,
       pod_containers = [bt_container mounts], pod_volumes = volumes, pod_restart = ''Never'',
       pod_security = file_management_pod_security_context, pod_conditions = [], pod_ip = [] \<rparr>"

definition delete_instance :: "bt_instance \<Rightarrow> ('s, unit) prog" where
  "delete_instance b = (case bti_pod b of
      None \<Rightarrow> ret ()
    | Some p \<Rightarrow> wrapping ''cleanup instance'' (delete_pod (om_ns (pod_meta p)) (om_name (pod_meta p))))"

definition set_pod :: "pod \<Rightarrow> bt_instance \<Rightarrow> bt_instance" where
  "set_pod p b = b\<lparr>bti_pod := Some p\<rparr>"

definition create_instance_body :: "string \<Rightarrow> bt_options \<Rightarrow> (bt_instance, bt_instance) prog" where
  "create_instance_body ns opts =
     bnd (ask w_generate_name) (\<lambda>gen.
     let name_prefix = (if bto_prefix opts = [] then tool_name else bto_prefix opts);
         (volumes, mounts) = convert_scvs gen (bto_volumes opts) in
     err_handler ''cleanup backup tool instance'' (bnd get_st delete_instance)
      (bnd (wrapping ''create pod'' (create_pod ns (bt_pod name_prefix volumes mounts))) (\<lambda>p.
       thn (upd_st (set_pod p))
       (bnd (wrapping ''wait for pod'' (wait_for_ready_pod ns (om_name (pod_meta p)) (bto_pod_wait opts))) (\<lambda>ready.
       thn (upd_st (set_pod ready)) get_st)))))"

definition create_backup_tool_instance :: "string \<Rightarrow> bt_options \<Rightarrow> ('s, bt_instance) prog" where
  "create_backup_tool_instance ns opts = with_local \<lparr> bti_pod = None \<rparr> (create_instance_body ns opts)"

definition get_grpc_client :: "bt_instance \<Rightarrow> ('s, unit) prog" where
  "get_grpc_client b = (case bti_pod b of
      None \<Rightarrow> fail (LeafErr NotFound ''no IP address'')
    | Some p \<Rightarrow> if pod_ip p = [] then fail (LeafErr NotFound ''no IP address'')
        else wrapping ''connect'' (new_grpc_client (join_host_port (pod_ip p) grpc_port_string)))"

definition owned_instance :: "bt_instance \<Rightarrow> objref multiset" where
  "owned_instance b = (case bti_pod b of None \<Rightarrow> {#}
     | Some p \<Rightarrow> {#(KPod, om_ns (pod_meta p), om_name (pod_meta p))#})"

lemma owns_delete_instance:
  "owns d w I (\<lambda>s. P s + owned_instance b) (delete_instance b) P (\<lambda>_. P) (\<lambda>_. I)"
proof (cases "bti_pod b")
  case None
  then show ?thesis by (auto simp: delete_instance_def owned_instance_def intro!: owns_ret)
next
  case (Some p)
  then show ?thesis by (auto simp: delete_instance_def owned_instance_def
      intro!: owns_wrapping owns_deletes)
qed

lemma disposes_own_instance:
  "disposes d w (\<lambda>_. True) owned_instance (bnd get_st delete_instance) (\<lambda>_. {#})"
  unfolding disposes_def
proof (rule ownsI)
  fix s tr base r s' tr'
  assume o1: "within d (outstanding tr) (base + owned_instance s)"
    and run: "bnd get_st delete_instance w s tr = (r, s', tr')"
  from run have run': "delete_instance s w s tr = (r, s', tr')" by (simp add: prog_simps)
  note O = owns_delete_instance [of d w "\<lambda>_. True" "\<lambda>_. {#}" s]
  show "case r of Inl _ \<Rightarrow> within d (outstanding tr') (base + {#}) | Inr x \<Rightarrow> within d (outstanding tr') (base + {#}) \<and> True"
  proof (cases r)
    case (Inl e)
    from owns_err [OF O run' [unfolded Inl], of base] o1 Inl show ?thesis by simp
  next
    case (Inr x)
    from owns_ok [OF O run' [unfolded Inr], of base] o1 Inr show ?thesis by simp
  qed
qed

lemma owns_create_instance [owns_rules]:
  assumes w: "world_ok w"
  shows "owns d w I P (create_backup_tool_instance ns opts) P (\<lambda>b s. P s + owned_instance b)
     (\<lambda>b s. I s \<and> (\<exists>p. bti_pod b = Some p \<and> condition_true cond_ready (pod_conditions p) \<and> om_ns (pod_meta p) = ns))"
  unfolding create_backup_tool_instance_def
proof (rule owns_with_local)
  show "owns d w (\<lambda>s. s = \<lparr>bti_pod = None\<rparr>) (\<lambda>_. {#}) (create_instance_body ns opts) (\<lambda>_. {#})
     (\<lambda>b _. owned_instance b)
     (\<lambda>b _. \<exists>p. bti_pod b = Some p \<and> condition_true cond_ready (pod_conditions p) \<and> om_ns (pod_meta p) = ns)"
    unfolding create_instance_body_def Let_def split_def
    apply (rule owns_bnd, rule owns_steps(1))
    apply (rule owns_err_handler [OF _ disposes_own_instance])
    apply (rule owns_bnd [where Gm = "\<lambda>p _. {#(KPod, ns, om_name (pod_meta p))#}"
          and Qm = "\<lambda>p s. bti_pod s = None \<and> om_ns (pod_meta p) = ns"])
     apply (rule owns_wrapping, rule owns_conseq, rule owns_create_pod [OF w, where P = owned_instance and I = "\<lambda>s. bti_pod s = None"])
       apply (auto simp: owned_instance_def)[3]
    subgoal for gen p
      apply (rule owns_thn [where Gm = "\<lambda>_. owned_instance" and Qm = "\<lambda>_ s. bti_pod s = Some p \<and> om_ns (pod_meta p) = ns"])
       apply (rule owns_upd_st, simp add: owned_instance_def set_pod_def)
      apply (rule owns_bnd, rule owns_wrapping, rule owns_wait_ready_pod [OF w])
      subgoal for ready
        apply (rule owns_thn [where Gm = "\<lambda>_. owned_instance" and Qm = "\<lambda>_ s. bti_pod s = Some ready \<and>
            condition_true cond_ready (pod_conditions ready) \<and> om_ns (pod_meta ready) = ns"])
         apply (rule owns_upd_st, auto simp: owned_instance_def set_pod_def)[1]
        apply (rule owns_get_st, auto)
        done
      done
    done
qed

text \<open>C39: a client whose connection cannot be verified is not returned, and the connection that
  was made for it is never closed.\<close>
theorem new_grpc_client_conns:
  "new_grpc_client addr w s tr = (r, s', tr') \<Longrightarrow>
     (r = Inr () \<longrightarrow> open_conns tr' = open_conns tr + 1) \<and>
     (w_new_conn w tr addr = None \<longrightarrow> w_dial w (tr @ [Opened addr]) addr = Some e \<longrightarrow>
        r = Inl (WrapErr ''verify connection'' e) \<and> open_conns tr' = open_conns tr + 1)"
  by (auto simp: new_grpc_client_def verify_connection_def prog_simps split: option.splits)

section \<open>drvolume.go\<close>

record dr_volume = drv_pvc :: "pvc option"

definition lookup_cluster_size :: "string \<Rightarrow> string \<Rightarrow> ('s, quantity) prog" where
  "lookup_cluster_size ns cn =
     bnd (wrapping ''get cluster'' (get_cluster ns cn)) (\<lambda>c.
     bnd (ask w_parse_quantity) (\<lambda>parse.
     wrapping ''parse cluster size'' (lift_res (parse (cl_size c)))))"

fun lookup_clusters_size :: "string \<Rightarrow> string list \<Rightarrow> quantity \<Rightarrow> ('s, quantity) prog" where
  "lookup_clusters_size ns [] storage_sum = ret storage_sum"
| "lookup_clusters_size ns (cn # cns) storage_sum =
     bnd (wrapping ''get cluster size'' (lookup_cluster_size ns cn)) (\<lambda>q.
     lookup_clusters_size ns cns (storage_sum + q))"

definition lookup_dr_volume_size :: "string \<Rightarrow> string list \<Rightarrow> ('s, quantity) prog" where
  "lookup_dr_volume_size ns cns =
     bnd (if cns \<noteq> [] then wrapping ''get cluster sizes'' (lookup_clusters_size ns cns 0) else ret 0) (\<lambda>storage_sum.
     if storage_sum = 0 then fail (errorf ''calculated storage size of 0'') else ret storage_sum)"

definition new_dr_volume :: "string \<Rightarrow> string \<Rightarrow> quantity \<Rightarrow> string \<Rightarrow> string list \<Rightarrow> ('s, dr_volume) prog" where
  "new_dr_volume ns n configured_size storage_class cluster_names =
     bnd (if configured_size = 0
          then bnd (wrapping ''calculate size'' (lookup_dr_volume_size ns cluster_names)) (\<lambda>q. ret (q * 2))
          else ret configured_size) (\<lambda>sz.
     bnd (wrapping ''ensure volume'' (ensure_pvc_exists ns n sz
            \<lparr> cpo_generate = False, cpo_class = storage_class, cpo_source = None \<rparr>)) (\<lambda>p.
     ret \<lparr> drv_pvc = Some p \<rparr>))"

definition snapshot_and_wait_ready :: "dr_volume \<Rightarrow> string \<Rightarrow> duration \<Rightarrow> string \<Rightarrow> ('s, unit) prog" where
  "snapshot_and_wait_ready drv snapshot_name ready_timeout snapshot_class = (case drv_pvc drv of
      None \<Rightarrow> fail (errorf ''no PVC to snapshot'')
    | Some p \<Rightarrow>
        bnd (wrapping ''snapshot volume'' (snapshot_volume (om_ns (pvc_meta p)) (om_name (pvc_meta p))
               (clean_name snapshot_name) snapshot_class)) (\<lambda>sn.
        bnd (wrapping ''wait for snapshot'' (wait_for_ready_snapshot (om_ns (pvc_meta p))
               (om_name (sn_meta sn)) ready_timeout)) (\<lambda>_. ret ())))"

text \<open>What a size lookup adds up, when every cluster can be read and its size parsed.\<close>
lemma lookup_clusters_size_ok:
  "lookup_clusters_size ns cns storage_sum w s tr = (Inr q, s', tr') \<Longrightarrow>
     \<exists>sizes. length sizes = length cns \<and> q = storage_sum + sum_list sizes \<and>
       (\<forall>i < length cns. \<exists>tr0 c. k_get (w_cluster w) tr0 ns (cns ! i) = Inr c \<and>
          w_parse_quantity w (cl_size c) = Inr (sizes ! i))"
proof (induction cns arbitrary: storage_sum s tr)
  case (Cons cn cns)
  from Cons.prems obtain c q1 tr1 where c: "k_get (w_cluster w) tr ns cn = Inr c"
    and q1: "w_parse_quantity w (cl_size c) = Inr q1"
    and rest: "lookup_clusters_size ns cns (storage_sum + q1) w s tr1 = (Inr q, s', tr')"
    by (auto simp: prog_simps lookup_cluster_size_def get_cluster_def split: sum.splits)
  from Cons.IH [OF rest] obtain sizes where "length sizes = length cns" "q = storage_sum + q1 + sum_list sizes"
    "\<forall>i < length cns. \<exists>tr0 c. k_get (w_cluster w) tr0 ns (cns ! i) = Inr c \<and>
          w_parse_quantity w (cl_size c) = Inr (sizes ! i)" by blast
  with c q1 show ?case
    by (intro exI [of _ "q1 # sizes"]) (auto simp: nth_Cons split: nat.splits)
qed simp

text \<open>C37: the DR volume that already exists is used as it is; otherwise it is created with the
  configured size, or with twice the sum of the clusters' sizes, which is not zero.\<close>
theorem new_dr_volume_result:
  assumes run: "new_dr_volume ns n configured class cns w s tr = (Inr drv, s', tr')"
  shows "\<exists>p tr0. drv_pvc drv = Some p \<and>
    (k_get (w_pvc w) tr0 ns n = Inr p \<or>
     (\<exists>sz tr1 req e. k_get (w_pvc w) tr0 ns n = Inl e \<and> is_kind NotFound e \<and>
        k_create (w_pvc w) tr1 ns req = Inr p \<and> pvc_size req = Some sz \<and> om_name (pvc_meta req) = n \<and>
        (if configured \<noteq> 0 then sz = configured
         else \<exists>sizes. length sizes = length cns \<and> sz = 2 * sum_list sizes \<and> sum_list sizes \<noteq> 0 \<and>
           (\<forall>i < length cns. \<exists>tr2 c. k_get (w_cluster w) tr2 ns (cns ! i) = Inr c \<and>
              w_parse_quantity w (cl_size c) = Inr (sizes ! i)))))"
proof -
  let ?size = "\<lambda>sz. if configured \<noteq> 0 then sz = configured
         else \<exists>sizes. length sizes = length cns \<and> sz = 2 * sum_list sizes \<and> sum_list sizes \<noteq> 0 \<and>
           (\<forall>i < length cns. \<exists>tr2 c. k_get (w_cluster w) tr2 ns (cns ! i) = Inr c \<and>
              w_parse_quantity w (cl_size c) = Inr (sizes ! i))"
  let ?get_size = "if configured = 0
          then bnd (wrapping ''calculate size'' (lookup_dr_volume_size ns cns)) (\<lambda>q. ret (q * 2))
          else ret configured"
  from run obtain sz s1 tr1 p where sz: "?get_size w s tr = (Inr sz, s1, tr1)"
    and p: "ensure_pvc_exists ns n sz \<lparr> cpo_generate = False, cpo_class = class, cpo_source = None \<rparr> w s1 tr1 = (Inr p, s', tr')"
    and drv: "drv_pvc drv = Some p"
    unfolding new_dr_volume_def by (auto elim!: bndE wrappingE)
  have size_ok: "?size sz"
  proof (cases "configured = 0")
    case False
    with sz show ?thesis by simp
  next
    case True
    with sz obtain q where q: "sz = q * 2" "q \<noteq> 0"
      and look: "cns = [] \<and> q = 0 \<or> lookup_clusters_size ns cns 0 w s tr = (Inr q, s1, tr1)"
      by (auto simp: lookup_dr_volume_size_def elim!: bndE wrappingE split: if_splits)
    with lookup_clusters_size_ok [of ns cns 0 w s tr q s1 tr1] True show ?thesis by auto
  qed
  have "k_get (w_pvc w) tr1 ns n = Inr p \<or>
     (\<exists>tr2 req e. k_get (w_pvc w) tr1 ns n = Inl e \<and> is_kind NotFound e \<and>
        k_create (w_pvc w) tr2 ns req = Inr p \<and> pvc_size req = Some sz \<and> om_name (pvc_meta req) = n)"
    using p
    by (auto simp: ensure_pvc_exists_def get_pvc_def create_pvc_def prog_simps Let_def set_name_def
        split: sum.splits if_splits intro!: exI)
  with drv size_ok show ?thesis by blast
qed

section \<open>The operations in the sample world\<close>

text \<open>The sample world, except that no address can be reached.\<close>
definition unreachable_world :: world where
  "unreachable_world = sample_world\<lparr>w_dial := \<lambda>tr addr. Some (errorf ''connection refused'')\<rparr>"

theorem new_grpc_client_conns_witness:
  "\<exists>tr'. new_grpc_client ''pod:40983'' unreachable_world () [] =
     (Inl (WrapErr ''verify connection'' (LeafErr Plain ''connection refused'')), (), tr') \<and> open_conns tr' = 1"
proof -
  obtain r u tr' where run: "new_grpc_client ''pod:40983'' unreachable_world () [] = (r, u, tr')" by (metis prod_cases3)
  have "w_new_conn unreachable_world [] ''pod:40983'' = None"
    "w_dial unreachable_world ([] @ [Opened ''pod:40983'']) ''pod:40983'' = Some (LeafErr Plain ''connection refused'')"
    by (simp_all add: unreachable_world_def sample_world_def errorf_def)
  with new_grpc_client_conns [OF run] run show ?thesis by simp
qed

text \<open>The sample world, except that the volume does not exist yet.\<close>
definition no_volume_world :: world where
  "no_volume_world = sample_world\<lparr>w_pvc := (w_pvc sample_world)\<lparr>k_get := \<lambda>tr ns n. Inl (LeafErr NotFound n)\<rparr>\<rparr>"

theorem new_dr_volume_result_witness:
  "\<exists>drv tr' p req tr1. new_dr_volume ''ns'' ''dr'' 0 [] [''pg'', ''pg2''] no_volume_world () [] = (Inr drv, (), tr') \<and>
     drv_pvc drv = Some p \<and> k_create (w_pvc no_volume_world) tr1 ''ns'' req = Inr p \<and> om_name (pvc_meta req) = ''dr''"
proof -
  let ?c = "new_dr_volume ''ns'' ''dr'' 0 [] [''pg'', ''pg2''] no_volume_world () []"
  obtain r u tr' where run: "?c = (r, u, tr')" by (metis prod_cases3)
  have "\<not> isl (fst ?c)" by code_simp
  with run obtain drv where r: "r = Inr drv" by (cases r) auto
  have "k_get (w_pvc no_volume_world) tr0 ''ns'' ''dr'' \<noteq> Inr p" for tr0 p by (simp add: no_volume_world_def)
  with new_dr_volume_result [OF run [unfolded r]] run r show ?thesis by auto
qed

end
