(* ===== verification/Certs.thy ===== *)
theory Certs
  imports SampleWorld
begin

text \<open>
  Certificate request policies derived from certificates
  (\<^verbatim>\<open>src/pkg/kubecluster/composite/createcrpforcertificate\<close>) and the user certificates of a
  cluster (\<^verbatim>\<open>clusterusercert\<close>), which own a certificate and, when approver-policy is
  installed, a policy.
\<close>

section \<open>createcrpforcertificate.go\<close>

definition ed25519 :: string where "ed25519 = ''Ed25519''"

text \<open>The private key constraint: none for Ed25519 (an upstream bug is worked around).\<close>
definition key_constraints :: "certificate \<Rightarrow> (string option \<times> int option) option" where
  "key_constraints c = (case cert_key c of
      None \<Rightarrow> None
    | Some k \<Rightarrow> if pk_algorithm k = ed25519 then None
        else (let alg = (if pk_algorithm k \<noteq> [] then Some (pk_algorithm k) else None);
                  sz = (if pk_size k \<noteq> 0 then Some (pk_size k) else None)
              in if alg = None \<and> sz = None then None else Some (alg, sz)))"

definition crp_constraints_of :: "certificate \<Rightarrow> crp_constraints option" where
  "crp_constraints_of c =
     (if cert_duration c = None \<and> key_constraints c = None then None
      else Some \<lparr> cc_min_duration = cert_duration c, cc_max_duration = cert_duration c,
        cc_algorithm = (case key_constraints c of None \<Rightarrow> None | Some (a, _) \<Rightarrow> a),
        cc_min_size = (case key_constraints c of None \<Rightarrow> None | Some (_, z) \<Rightarrow> z),
        cc_max_size = (case key_constraints c of None \<Rightarrow> None | Some (_, z) \<Rightarrow> z) \<rparr>)"

definition required :: "string list \<Rightarrow> (string list \<times> bool) option" where
  "required xs = (if xs = [] then None else Some (xs, True))"

definition crp_allowed_of :: "certificate \<Rightarrow> crp_allowed option" where
  "crp_allowed_of c =
     (if cert_cn c = [] \<and> cert_dns c = [] \<and> cert_ips c = [] \<and> cert_uris c = [] \<and> cert_emails c = [] \<and>
         \<not> cert_is_ca c \<and> cert_usages c = None then None
      else Some \<lparr> ca_cn = (if cert_cn c = [] then None else Some (cert_cn c, True)),
        ca_dns = required (cert_dns c), ca_ips = required (cert_ips c),
        ca_uris = required (cert_uris c), ca_emails = required (cert_emails c),
        ca_is_ca = (if cert_is_ca c then Some True else None), ca_usages = cert_usages c \<rparr>)"

definition crp_spec_of :: "certificate \<Rightarrow> crp_spec" where
  "crp_spec_of c = \<lparr> cs_namespaces = [om_ns (cert_meta c)], cs_issuer = cert_issuer c,
     cs_constraints = crp_constraints_of c, cs_allowed = crp_allowed_of c \<rparr>"

definition create_crp_for_certificate :: "certificate \<Rightarrow> duration \<Rightarrow> ('s, crp) prog" where
  "create_crp_for_certificate c mwt =
     bnd (wrapping ''create policy for certificate''
            (create_certificate_request_policy (om_name (cert_meta c)) (crp_spec_of c) True)) (\<lambda>p.
     wrapping ''wait for policy'' (wait_for_ready_crp (om_name (crp_meta p)) mwt))"

text \<open>A request that a certificate makes of the policy: what approver-policy compares.\<close>
definition crp_permits :: "crp_spec \<Rightarrow> certificate \<Rightarrow> bool" where
  "crp_permits spec c \<longleftrightarrow> om_ns (cert_meta c) \<in> set (cs_namespaces spec) \<and> cs_issuer spec = cert_issuer c \<and>
     (case cs_constraints spec of None \<Rightarrow> True | Some k \<Rightarrow>
        (\<forall>d. cert_duration c = Some d \<longrightarrow> (\<forall>lo. cc_min_duration k = Some lo \<longrightarrow> lo \<le> d) \<and>
            (\<forall>hi. cc_max_duration k = Some hi \<longrightarrow> d \<le> hi)) \<and>
        (\<forall>key a. cert_key c = Some key \<longrightarrow> cc_algorithm k = Some a \<longrightarrow> pk_algorithm key = a) \<and>
        (\<forall>key z. cert_key c = Some key \<longrightarrow> cc_min_size k = Some z \<longrightarrow> z \<le> pk_size key) \<and>
        (\<forall>key z. cert_key c = Some key \<longrightarrow> cc_max_size k = Some z \<longrightarrow> pk_size key \<le> z)) \<and>
     (case cs_allowed spec of
        None \<Rightarrow> cert_cn c = [] \<and> cert_dns c = [] \<and> cert_ips c = [] \<and> cert_uris c = [] \<and> cert_emails c = [] \<and>
          \<not> cert_is_ca c \<and> cert_usages c = None
      | Some a \<Rightarrow>
          (case ca_cn a of None \<Rightarrow> cert_cn c = [] | Some (v, req) \<Rightarrow> cert_cn c = v \<and> (req \<longrightarrow> cert_cn c \<noteq> [])) \<and>
          (\<forall>(get, allow) \<in> {(cert_dns c, ca_dns a), (cert_ips c, ca_ips a), (cert_uris c, ca_uris a), (cert_emails c, ca_emails a)}.
             (case allow of None \<Rightarrow> get = [] | Some (vs, req) \<Rightarrow> set get \<subseteq> set vs \<and> (req \<longrightarrow> get \<noteq> []))) \<and>
          (cert_is_ca c \<longrightarrow> ca_is_ca a = Some True) \<and>
          (case (cert_usages c, ca_usages a) of (None, _) \<Rightarrow> True | (Some u, None) \<Rightarrow> False
             | (Some u, Some us) \<Rightarrow> set u \<subseteq> set us))"


section \<open>clusterusercert.go\<close>

record user_cert =
  uc_cert :: "certificate option"
  uc_crp :: "crp option"

definition empty_user_cert :: user_cert where
  "empty_user_cert = \<lparr> uc_cert = None, uc_crp = None \<rparr>"

text \<open>A deletion whose error is appended to the list of cleanup errors.\<close>
definition collect :: "string \<Rightarrow> ('s, unit) prog \<Rightarrow> ('s, goerr list) prog" where
  "collect tag m = (\<lambda>w s tr. case m w s tr of
      (Inl e, s', tr') \<Rightarrow> (Inr [WrapErr tag e], s', tr')
    | (Inr _, s', tr') \<Rightarrow> (Inr [], s', tr'))"

text \<open>Run the deletions in order, then return the aggregate of what failed.\<close>
fun collect_all :: "(string \<times> ('s, unit) prog) list \<Rightarrow> ('s, goerr list) prog" where
  "collect_all [] = ret []"
| "collect_all ((tag, m) # ms) =
     bnd (collect tag m) (\<lambda>es. bnd (collect_all ms) (\<lambda>es'. ret (es @ es')))"

definition cleanup_errors :: "string \<Rightarrow> (string \<times> ('s, unit) prog) list \<Rightarrow> ('s, unit) prog" where
  "cleanup_errors tag ms = bnd (collect_all ms) (\<lambda>es.
     lift_err (trace_wrap tag (new_aggregate (map Some es))))"

definition delete_user_cert :: "user_cert \<Rightarrow> ('s, unit) prog" where
  "delete_user_cert c = cleanup_errors ''cleanup cluster user certificate''
     ((case uc_crp c of None \<Rightarrow> [] | Some p \<Rightarrow>
         [(''delete certificate request policy'', delete_certificate_request_policy (om_name (crp_meta p)))]) @
      (case uc_cert c of None \<Rightarrow> [] | Some ct \<Rightarrow>
         [(''delete certificate'', delete_certificate (om_ns (cert_meta ct)) (om_name (cert_meta ct)))]))"

record user_cert_options =
  uco_crp_timeout :: duration
  uco_cert_timeout :: duration

definition watched_label_name :: string where "watched_label_name = ''cnpg.io/reload''"

definition user_cert_name :: "string \<Rightarrow> string \<Rightarrow> string" where
  "user_cert_name cluster_name username = clean_name (cluster_name @ ''-'' @ username @ ''-user'')"

definition user_cert_create_options :: "string \<Rightarrow> create_certificate_options" where
  "user_cert_create_options username =
     \<lparr> cce_generate = False, cce_is_ca = False, cce_constraints = None, cce_cn = username, cce_dns = [],
       cce_duration = None, cce_labels = [watched_label_name \<mapsto> ''true''], cce_has_labels = True,
       cce_secret = [], cce_usages = [''client auth''], cce_algorithm = [] \<rparr>"

definition set_certificate :: "certificate \<Rightarrow> user_cert \<Rightarrow> user_cert" where
  "set_certificate c uc = uc\<lparr>uc_cert := Some c\<rparr>"

definition set_crp :: "crp \<Rightarrow> user_cert \<Rightarrow> user_cert" where
  "set_crp p uc = uc\<lparr>uc_crp := Some p\<rparr>"

text \<open>Step 2: the policy and the re-issue, when approver-policy enforces approval.\<close>
definition policy_and_reissue :: "certificate \<Rightarrow> duration \<Rightarrow> (crp \<Rightarrow> 's \<Rightarrow> 's) \<Rightarrow> (certificate \<Rightarrow> 's \<Rightarrow> 's)
    \<Rightarrow> ('s, certificate) prog" where
  "policy_and_reissue c crp_timeout set_policy set_cert =
     bnd (wrapping ''determine approver-policy'' is_available) (\<lambda>should_deploy.
     if should_deploy then
       bnd (wrapping ''create CertificateRequestPolicy'' (create_crp_for_certificate c crp_timeout)) (\<lambda>p.
       thn (upd_st (set_policy p))
       (bnd (wrapping ''re-issue'' (reissue_certificate (om_ns (cert_meta c)) (om_name (cert_meta c)))) (\<lambda>c2.
        thn (upd_st (set_cert c2)) (ret c2))))
     else ret c)"

definition new_user_cert_body :: "string \<Rightarrow> string \<Rightarrow> issuer_ref \<Rightarrow> string \<Rightarrow> user_cert_options
    \<Rightarrow> (user_cert, user_cert) prog" where
  "new_user_cert_body ns username ref cluster_name opts =
     err_handler ''cleanup user cert'' (bnd get_st delete_user_cert)
      (bnd (wrapping ''create user cert'' (create_certificate ns (user_cert_name cluster_name username) ref
              (user_cert_create_options username))) (\<lambda>c.
       thn (upd_st (set_certificate c))
       (bnd (policy_and_reissue c (uco_crp_timeout opts) set_crp set_certificate) (\<lambda>c2.
        bnd (wrapping ''wait for user cert'' (wait_for_ready_certificate (om_ns (cert_meta c2))
               (om_name (cert_meta c2)) (uco_cert_timeout opts))) (\<lambda>ready.
        thn (upd_st (set_certificate ready)) get_st)))))"

definition new_cluster_user_cert :: "string \<Rightarrow> string \<Rightarrow> issuer_ref \<Rightarrow> string \<Rightarrow> user_cert_options
    \<Rightarrow> ('s, user_cert) prog" where
  "new_cluster_user_cert ns username ref cluster_name opts =
     with_local empty_user_cert (new_user_cert_body ns username ref cluster_name opts)"

section \<open>Ownership\<close>

definition owned_cert :: "certificate option \<Rightarrow> objref multiset" where
  "owned_cert c = (case c of None \<Rightarrow> {#} | Some x \<Rightarrow> {#(KCertificate, om_ns (cert_meta x), om_name (cert_meta x))#})"

definition owned_crp :: "crp option \<Rightarrow> objref multiset" where
  "owned_crp c = (case c of None \<Rightarrow> {#} | Some x \<Rightarrow> {#(KCRP, [], om_name (crp_meta x))#})"

definition owned_user_cert :: "user_cert \<Rightarrow> objref multiset" where
  "owned_user_cert c = owned_crp (uc_crp c) + owned_cert (uc_cert c)"

lemma owned_simps [simp]:
  "owned_cert None = {#}" "owned_crp None = {#}"
  "owned_cert (Some x) = {#(KCertificate, om_ns (cert_meta x), om_name (cert_meta x))#}"
  "owned_crp (Some y) = {#(KCRP, [], om_name (crp_meta y))#}"
  by (simp_all add: owned_cert_def owned_crp_def)

text \<open>
  Every policy the server accepts becomes ready in time.  Without this a policy may be left behind: see \<^verbatim>\<open>crp_leaked_when_not_ready\<close>.
\<close>
definition policies_become_ready :: "world \<Rightarrow> bool" where
  "policies_become_ready w \<longleftrightarrow> (\<forall>tr n t. \<exists>x. run_wait crp_processor () (k_watch (w_crp w) tr [] (by_name n) t) = Inr (Some x))"

lemma owns_create_crp_for_certificate:
  assumes w: "world_ok w" and r: "policies_become_ready w"
  shows "owns d w I P (create_crp_for_certificate c t) P
     (\<lambda>x s. add_mset (KCRP, [], om_name (crp_meta x)) (P s)) (\<lambda>x s. I s \<and> om_ns (crp_meta x) = [])"
  unfolding create_crp_for_certificate_def
proof (rule owns_bnd, rule owns_wrapping, rule owns_create_crp [OF w])
  fix p
  let ?P = "\<lambda>s. add_mset (KCRP, [], om_name (crp_meta p)) (P s)"
  have O: "owns d w (\<lambda>s. I s \<and> om_ns (crp_meta p) = []) ?P (wait_for_ready_crp (om_name (crp_meta p)) t) ?P (\<lambda>_. ?P)
      (\<lambda>x s. (I s \<and> om_ns (crp_meta p) = []) \<and> condition_true cond_ready (crp_conditions x) \<and>
         om_ns (crp_meta x) = [] \<and> om_name (crp_meta x) = om_name (crp_meta p))"
    by (rule owns_wait_ready_crp [OF w])
  have no_err: "wait_for_ready_crp (om_name (crp_meta p)) t w s tr \<noteq> (Inl e, s', tr')" for s :: 'a and tr e s' tr'
    using r [unfolded policies_become_ready_def, rule_format, of tr "om_name (crp_meta p)" "max_wait t minute"]
    by (auto simp: wait_for_ready_crp_def wait_for_resource_condition_def prog_simps deref_def)
  show "owns d w (\<lambda>s. I s \<and> om_ns (crp_meta p) = []) ?P
     (wrapping ''wait for policy'' (wait_for_ready_crp (om_name (crp_meta p)) t)) P
     (\<lambda>x s. add_mset (KCRP, [], om_name (crp_meta x)) (P s)) (\<lambda>x s. I s \<and> om_ns (crp_meta x) = [])"
  proof (rule owns_wrapping, rule ownsI)
    fix s tr base r s' tr'
    assume I: "I s \<and> om_ns (crp_meta p) = []" and o1: "within d (outstanding tr) (base + ?P s)"
      and run: "wait_for_ready_crp (om_name (crp_meta p)) t w s tr = (r, s', tr')"
    show "case r of Inl _ \<Rightarrow> within d (outstanding tr') (base + P s')
       | Inr x \<Rightarrow> within d (outstanding tr') (base + add_mset (KCRP, [], om_name (crp_meta x)) (P s')) \<and> I s' \<and> om_ns (crp_meta x) = []"
    proof (cases r)
      case (Inl e)
      with run no_err show ?thesis by simp
    next
      case (Inr x)
      from owns_ok [OF O run [unfolded Inr] I o1] Inr show ?thesis by simp
    qed
  qed
qed


lemma collect_all_run:
  assumes "\<And>tag m w s tr. (tag, m) \<in> set ms \<Longrightarrow> (\<exists>r tr'. m w s tr = (r, s, tr'))"
  shows "\<exists>es tr'. collect_all ms w s tr = (Inr es, s, tr')"
  using assms
proof (induction ms arbitrary: tr)
  case (Cons x ms)
  obtain tag m where x: "x = (tag, m)" by (cases x)
  with Cons.prems obtain r tr1 where m: "m w s tr = (r, s, tr1)" by (metis list.set_intros(1))
  from Cons.IH [of tr1] Cons.prems obtain es tr' where "collect_all ms w s tr1 = (Inr es, s, tr')"
    by (metis list.set_intros(2))
  with x m show ?case by (cases r) (auto simp: prog_simps collect_def)
qed (simp add: prog_simps)

text \<open>The ownership of a list of deletions that all run, whatever each returns.\<close>
fun owns_each :: "world \<Rightarrow> (string \<times> ('s, unit) prog) list \<Rightarrow> objref multiset list \<Rightarrow> bool" where
  "owns_each w [] [] = True"
| "owns_each w ((_, m) # ms) (M # Ms) =
     ((\<forall>d I P. owns d w I (\<lambda>s. P s + M) m P (\<lambda>_. P) (\<lambda>_. I)) \<and>
      (\<forall>s tr. fst (snd (m w s tr)) = s) \<and> owns_each w ms Ms)"
| "owns_each _ _ _ = False"

lemma owns_each_run:
  "owns_each w ms Ms \<Longrightarrow> within d (outstanding tr) (base + sum_list Ms) \<Longrightarrow>
     \<exists>es tr'. collect_all ms w s tr = (Inr es, s, tr') \<and> within d (outstanding tr') (base)"
proof (induction w ms Ms arbitrary: tr rule: owns_each.induct)
  case (2 w tag m ms M Ms)
  obtain r s1 tr1 where m: "m w s tr = (r, s1, tr1)" by (metis prod_cases3)
  have all: "\<And>I P. owns d w I (\<lambda>s. P s + M) m P (\<lambda>_. P) (\<lambda>_. I)" and st: "\<And>s tr. fst (snd (m w s tr)) = s"
    and rest: "owns_each w ms Ms" using 2(2) by auto
  have s1: "s1 = s" using st [of s tr] m by simp
  have O: "owns d w (\<lambda>_. True) (\<lambda>_. {#} + M) m (\<lambda>_. {#}) (\<lambda>_ _. {#}) (\<lambda>_ _. True)"
    by (rule all [of "\<lambda>_. True" "\<lambda>_. {#}"])
  have o1: "within d (outstanding tr) ((base + sum_list Ms) + ({#} + M))" using 2(3) by (simp add: ac_simps)
  have "within d (outstanding tr1) (base + sum_list Ms)"
  proof (cases r)
    case (Inl e)
    from owns_err [OF O m [unfolded Inl] _ o1] show ?thesis by simp
  next
    case (Inr u)
    from owns_ok [OF O m [unfolded Inr] _ o1] show ?thesis by simp
  qed
  with 2(1) [OF rest] obtain es tr' where "collect_all ms w s tr1 = (Inr es, s, tr') \<and> within d (outstanding tr') (base)"
    by blast
  with m s1 show ?case by (cases r) (auto simp: prog_simps collect_def)
qed (auto simp: prog_simps)

lemma owns_cleanup_errors:
  assumes "owns_each w ms Ms"
  shows "owns d w I (\<lambda>s. P s + sum_list Ms) (cleanup_errors tag ms) P (\<lambda>_. P) (\<lambda>_. I)"
proof (rule ownsI)
  fix s tr base r s' tr'
  assume I: "I s" and o1: "within d (outstanding tr) (base + (P s + sum_list Ms))"
    and run: "cleanup_errors tag ms w s tr = (r, s', tr')"
  from owns_each_run [OF assms, of d tr "base + P s" s] o1
  obtain es tr1 where c: "collect_all ms w s tr = (Inr es, s, tr1)" and o2: "within d (outstanding tr1) (base + P s)"
    by (auto simp: ac_simps)
  from run c have "s' = s" "tr' = tr1" by (auto simp: cleanup_errors_def prog_simps)
  with o2 I show "case r of Inl _ \<Rightarrow> within d (outstanding tr') (base + P s')
       | Inr x \<Rightarrow> within d (outstanding tr') (base + P s') \<and> I s'" by (simp split: sum.splits)
qed

lemma cleanup_errors_state:
  assumes "owns_each w ms Ms" shows "fst (snd (cleanup_errors tag ms w s tr)) = s"
  using owns_each_run [OF assms, of AtMost tr "outstanding tr" s] by (auto simp: cleanup_errors_def prog_simps)

definition user_cert_deletions :: "user_cert \<Rightarrow> objref multiset list" where
  "user_cert_deletions c = (case uc_crp c of None \<Rightarrow> [] | Some p \<Rightarrow> [owned_crp (Some p)]) @
     (case uc_cert c of None \<Rightarrow> [] | Some ct \<Rightarrow> [owned_cert (Some ct)])"

lemma deletes_keep_state:
  "fst (snd (delete_certificate ns n w s tr)) = s" "fst (snd (delete_issuer ns n w s tr)) = s"
  "fst (snd (delete_certificate_request_policy n w s tr)) = s" "fst (snd (delete_cluster ns n w s tr)) = s"
  "fst (snd (delete_backup ns n w s tr)) = s" "fst (snd (delete_pvc ns n w s tr)) = s"
  "fst (snd (delete_group_snapshot ns n w s tr)) = s"
  by (auto simp: delete_certificate_def delete_issuer_def delete_certificate_request_policy_def
      delete_cluster_def delete_backup_def delete_pvc_def delete_group_snapshot_def prog_simps
      split: option.splits)

lemma owns_delete_user_cert:
  "owns d w I (\<lambda>s. P s + owned_user_cert c) (delete_user_cert c) P (\<lambda>_. P) (\<lambda>_. I)"
proof -
  have "sum_list (user_cert_deletions c) = owned_user_cert c"
    by (auto simp: user_cert_deletions_def owned_user_cert_def split: option.splits)
  moreover have "owns d w I (\<lambda>s. P s + sum_list (user_cert_deletions c)) (delete_user_cert c) P (\<lambda>_. P) (\<lambda>_. I)"
    unfolding delete_user_cert_def
    by (rule owns_cleanup_errors)
      (auto simp: user_cert_deletions_def deletes_keep_state intro: owns_deletes split: option.splits)
  ultimately show ?thesis by simp
qed

lemma delete_user_cert_state: "fst (snd (delete_user_cert c w s tr)) = s"
proof -
  have "\<exists>es tr'. collect_all ((case uc_crp c of None \<Rightarrow> [] | Some p \<Rightarrow>
         [(''delete certificate request policy'', delete_certificate_request_policy (om_name (crp_meta p)))]) @
      (case uc_cert c of None \<Rightarrow> [] | Some ct \<Rightarrow>
         [(''delete certificate'', delete_certificate (om_ns (cert_meta ct)) (om_name (cert_meta ct)))])) w s tr
      = (Inr es, s, tr')"
    by (rule collect_all_run)
      (auto split: option.splits simp: delete_certificate_request_policy_def delete_certificate_def prog_simps)
  then show ?thesis by (auto simp: delete_user_cert_def cleanup_errors_def prog_simps)
qed

text \<open>A cleanup of the receiver itself.\<close>
lemma disposes_own:
  assumes "\<And>b. owns d w (\<lambda>_. True) (\<lambda>s. {#} + owned b) (del b) (\<lambda>_. {#}) (\<lambda>_ _. {#}) (\<lambda>_ _. True)"
  shows "disposes d w (\<lambda>_. True) owned (bnd get_st del) (\<lambda>_. {#})"
  unfolding disposes_def
proof (rule ownsI)
  fix s tr base r s' tr'
  assume o1: "within d (outstanding tr) (base + owned s)" and run: "bnd get_st del w s tr = (r, s', tr')"
  from run have run': "del s w s tr = (r, s', tr')" by (simp add: prog_simps)
  show "case r of Inl _ \<Rightarrow> within d (outstanding tr') (base + {#}) | Inr x \<Rightarrow> within d (outstanding tr') (base + {#}) \<and> True"
  proof (cases r)
    case (Inl e)
    from owns_err [OF assms run' [unfolded Inl], of base] o1 Inl show ?thesis by simp
  next
    case (Inr x)
    from owns_ok [OF assms run' [unfolded Inr], of base] o1 Inr show ?thesis by simp
  qed
qed

lemma owns_policy_and_reissue:
  assumes w: "world_ok w" and r: "policies_become_ready w"
    and pol: "\<And>p s. I s \<Longrightarrow> owned (set_policy p s) = add_mset (KCRP, [], om_name (crp_meta p)) (owned s) \<and> I' (set_policy p s)"
    and cert: "\<And>c2 s. I' s \<Longrightarrow> om_ns (cert_meta c2) = om_ns (cert_meta c) \<Longrightarrow> om_name (cert_meta c2) = om_name (cert_meta c) \<Longrightarrow>
        owned (set_cert c2 s) = owned s \<and> I' (set_cert c2 s)"
    and II: "\<And>s. I s \<Longrightarrow> I' s"
  shows "owns d w I owned (policy_and_reissue c t set_policy set_cert) owned (\<lambda>_. owned)
     (\<lambda>c2 s. I' s \<and> om_ns (cert_meta c2) = om_ns (cert_meta c) \<and> om_name (cert_meta c2) = om_name (cert_meta c))"
  unfolding policy_and_reissue_def
  apply (rule owns_bnd, rule owns_wrapping, rule owns_is_available)
  subgoal for b
    apply (cases b)
     apply (simp only: if_True simp_thms)
     apply (rule owns_bnd, rule owns_wrapping, rule owns_create_crp_for_certificate [OF w r])
    subgoal for p
      apply (rule owns_thn [where Gm = "\<lambda>_. owned" and Qm = "\<lambda>_ s. I' s"])
       apply (rule owns_upd_st, simp add: pol)
      apply (rule owns_bnd, rule owns_wrapping, rule owns_reissue_certificate [OF w])
      subgoal for c2
        apply (rule owns_thn [where Gm = "\<lambda>_. owned" and Qm = "\<lambda>_ s. I' s \<and>
           om_ns (cert_meta c2) = om_ns (cert_meta c) \<and> om_name (cert_meta c2) = om_name (cert_meta c)"])
         apply (rule owns_upd_st, simp add: cert)
        apply (rule owns_ret, simp)
        done
      done
    apply (simp, rule owns_ret, simp add: II)
    done
  done

lemma clean_name_user: "user_cert_name cn u \<noteq> []"
proof -
  have eq: "cn @ ''-'' @ u @ ''-user'' = (cn @ ''-'' @ u @ ''-use'') @ [CHR ''r'']" by simp
  have "clean_name ((cn @ ''-'' @ u @ ''-use'') @ [CHR ''r''])
      = replace_special (to_lower (cn @ ''-'' @ u @ ''-use'')) @ [CHR ''r'']"
    by (rule clean_name_snoc) (simp_all add: replace_chars_def lower_char_def)
  then show ?thesis unfolding user_cert_name_def eq by (simp del: append_assoc)
qed

text \<open>The recorded certificate is the object that was created, whatever version of it.\<close>
definition has_cert :: "certificate \<Rightarrow> user_cert \<Rightarrow> bool" where
  "has_cert c s \<longleftrightarrow> (\<exists>c'. uc_cert s = Some c' \<and> om_ns (cert_meta c') = om_ns (cert_meta c) \<and>
     om_name (cert_meta c') = om_name (cert_meta c))"

lemma owned_set_certificate:
  "has_cert c s \<Longrightarrow> om_ns (cert_meta c2) = om_ns (cert_meta c) \<Longrightarrow> om_name (cert_meta c2) = om_name (cert_meta c) \<Longrightarrow>
     owned_user_cert (set_certificate c2 s) = owned_user_cert s \<and> has_cert c (set_certificate c2 s)"
  by (auto simp: has_cert_def owned_user_cert_def set_certificate_def)

lemma owned_set_crp:
  "uc_crp s = None \<Longrightarrow> has_cert c s \<Longrightarrow>
     owned_user_cert (set_crp p s) = add_mset (KCRP, [], om_name (crp_meta p)) (owned_user_cert s) \<and> has_cert c (set_crp p s)"
  by (auto simp: has_cert_def owned_user_cert_def set_crp_def)

lemma owns_new_cluster_user_cert [owns_rules]:
  assumes w: "world_ok w" and r: "policies_become_ready w"
  shows "owns d w I P (new_cluster_user_cert ns username ref cluster_name opts) P
     (\<lambda>c s. P s + owned_user_cert c) (\<lambda>c s. I s \<and> (\<exists>x. uc_cert c = Some x \<and> is_certificate_ready x \<and>
        om_ns (cert_meta x) = ns \<and> om_name (cert_meta x) = user_cert_name cluster_name username))"
  unfolding new_cluster_user_cert_def
proof (rule owns_with_local)
  let ?n = "user_cert_name cluster_name username"
  let ?ready = "\<lambda>c. \<exists>x. uc_cert c = Some x \<and> is_certificate_ready x \<and> om_ns (cert_meta x) = ns \<and> om_name (cert_meta x) = ?n"
  show "owns d w (\<lambda>s. s = empty_user_cert) (\<lambda>_. {#}) (new_user_cert_body ns username ref cluster_name opts) (\<lambda>_. {#})
     (\<lambda>c _. owned_user_cert c) (\<lambda>c _. ?ready c)"
    unfolding new_user_cert_body_def
    apply (rule owns_err_handler [OF _ disposes_own [OF owns_delete_user_cert]])
    apply (rule owns_bnd [where Gm = "\<lambda>c _. {#(KCertificate, ns, om_name (cert_meta c))#}"
          and Qm = "\<lambda>c s. s = empty_user_cert \<and> om_ns (cert_meta c) = ns \<and> om_name (cert_meta c) = ?n"])
     apply (rule owns_wrapping, rule owns_conseq, rule owns_create_certificate [OF w _ clean_name_user,
           where P = owned_user_cert and I = "\<lambda>s. s = empty_user_cert"])
        apply (auto simp: owned_user_cert_def empty_user_cert_def user_cert_create_options_def)[4]
    subgoal for c
      apply (rule owns_thn [where Gm = "\<lambda>_. owned_user_cert" and Qm = "\<lambda>_ s. uc_crp s = None \<and> has_cert c s \<and>
            om_ns (cert_meta c) = ns \<and> om_name (cert_meta c) = ?n"])
       apply (rule owns_upd_st, simp add: owned_user_cert_def empty_user_cert_def set_certificate_def has_cert_def)
      apply (rule owns_bnd [OF owns_policy_and_reissue [OF w r, where I' = "\<lambda>s. has_cert c s \<and>
            om_ns (cert_meta c) = ns \<and> om_name (cert_meta c) = ?n"]])
      subgoal for p s using owned_set_crp [of s c p] by simp
      subgoal for c2 s using owned_set_certificate [of c s c2] by simp
       apply simp
      apply (rule owns_bnd, rule owns_wrapping, rule owns_wait_ready_certificate [OF w])
      subgoal for c2 c3
        apply (rule owns_thn [where Gm = "\<lambda>_. owned_user_cert" and Qm = "\<lambda>_ s. ?ready s"])
         apply (rule owns_upd_st)
        subgoal for s using owned_set_certificate [of c s c3] by (simp add: set_certificate_def)
        apply (rule owns_get_st, simp)
        done
      done
    done
qed

section \<open>Policies in the sample world\<close>


text \<open>The sample world, except that no policy becomes ready within the wait.\<close>
definition unready_policies :: world where
  "unready_policies = sample_world\<lparr>w_crp := (w_crp sample_world)\<lparr>k_watch := \<lambda>tr ns sel t.
     \<lparr> wr_sync = Some [], wr_events = [], wr_end = LeafErr Deadline ''timed out'' \<rparr>\<rparr>\<rparr>"


end
