(* ===== verification/Postgres.thy ===== *)
theory Postgres
  imports SampleWorld Paths "HOL-Library.Word"
begin

text \<open>
  \<^verbatim>\<open>src/pkg/postgres\<close>: credentials and the server address, the filter that the dump of all
  databases goes through, time-valued configuration parameters, and the WAL recovery fence.
  Strings are the bytes of the Go strings; white space is the ASCII white space of
  strings.TrimSpace.
\<close>

section \<open>credentials.go and the credentials of cnpg.go\<close>

definition postgres_default_port :: string where "postgres_default_port = ''5432''"

type_synonym credential_variables = "varname \<rightharpoonup> string"

definition set_database_name :: "string \<Rightarrow> credential_variables \<Rightarrow> credential_variables" where
  "set_database_name n cv = cv(PGDATABASE \<mapsto> n)"

text \<open>The two implementations of the Credentials interface.\<close>
record secret_credentials =
  sec_host :: string
  sec_port :: string
  sec_user :: string
  sec_ca_path :: string
  sec_cert_path :: string
  sec_key_path :: string

datatype credentials = EnvironmentCredentials credential_variables
  | KubernetesSecretCredentials secret_credentials

definition env_value :: "credential_variables \<Rightarrow> varname \<Rightarrow> string" where
  "env_value cv v = (case cv v of None \<Rightarrow> [] | Some s \<Rightarrow> s)"

definition secret_username :: "secret_credentials \<Rightarrow> string" where
  "secret_username k = (if sec_user k = [] then ''postgres'' else sec_user k)"

definition secret_port :: "secret_credentials \<Rightarrow> string" where
  "secret_port k = (if sec_port k \<noteq> [] then sec_port k else postgres_default_port)"

definition secret_variables :: "secret_credentials \<Rightarrow> credential_variables" where
  "secret_variables k =
     [PGHOST \<mapsto> sec_host k, PGPORT \<mapsto> secret_port k, PGUSER \<mapsto> secret_username k, PGREQUIREAUTH \<mapsto> ''none'',
      PGSSLMODE \<mapsto> ''verify-full'', PGSSLCERT \<mapsto> sec_cert_path k, PGSSLKEY \<mapsto> sec_key_path k,
      PGSSLROOTCERT \<mapsto> sec_ca_path k]"

lemmas secret_defs [simp] = secret_username_def secret_port_def secret_variables_def

fun get_username :: "credentials \<Rightarrow> string" where
  "get_username (EnvironmentCredentials cv) = env_value cv PGUSER"
| "get_username (KubernetesSecretCredentials k) = secret_username k"

fun get_host :: "credentials \<Rightarrow> string" where
  "get_host (EnvironmentCredentials cv) = env_value cv PGHOST"
| "get_host (KubernetesSecretCredentials k) = sec_host k"

fun get_port :: "credentials \<Rightarrow> string" where
  "get_port (EnvironmentCredentials cv) =
     (if env_value cv PGPORT \<noteq> [] then env_value cv PGPORT else postgres_default_port)"
| "get_port (KubernetesSecretCredentials k) = secret_port k"

fun get_variables :: "credentials \<Rightarrow> credential_variables" where
  "get_variables (EnvironmentCredentials cv) = cv"
| "get_variables (KubernetesSecretCredentials k) = secret_variables k"

definition get_server_address :: "credentials \<Rightarrow> string" where
  "get_server_address c = join_host_port (get_host c) (get_port c)"

text \<open>
  Turning credentials into their variables and back, as the two ends of the gRPC channel do,
  changes nothing that a reader of the interface can see.
\<close>
lemma env_credentials_same:
  "get_username (EnvironmentCredentials (get_variables c)) = get_username c \<and>
   get_host (EnvironmentCredentials (get_variables c)) = get_host c \<and>
   get_port (EnvironmentCredentials (get_variables c)) = get_port c \<and>
   get_variables (EnvironmentCredentials (get_variables c)) = get_variables c"
  by (cases c) (auto simp: env_value_def postgres_default_port_def)

section \<open>Lines\<close>

fun first_non_empty :: "string list \<Rightarrow> string" where
  "first_non_empty [] = []"
| "first_non_empty (l # ls) = (if trim_space l \<noteq> [] then trim_space l else first_non_empty ls)"

definition last_non_empty_line :: "string \<Rightarrow> string" where
  "last_non_empty_line output = first_non_empty (rev (split_on newline (trim_space output)))"

section \<open>duration.go\<close>

definition duration_units :: "(string \<times> 64 word) list" where
  "duration_units = [(''us'', 1000), (''ms'', 1000000), (''min'', 60000000000),
     (''s'', 1000000000), (''h'', 3600000000000), (''d'', 86400000000000)]"

definition is_digit :: "char \<Rightarrow> bool" where
  "is_digit c \<longleftrightarrow> (48 :: nat) \<le> of_char c \<and> (of_char c :: nat) \<le> 57"

definition digit_value :: "char \<Rightarrow> nat" where
  "digit_value c = of_char c - 48"

definition digits_value :: "string \<Rightarrow> nat" where
  "digits_value ds = foldl (\<lambda>n c. 10 * n + digit_value c) 0 ds"

text \<open>strconv.ParseInt in base 10 with 64 bits: optional sign, digits only, range checked.\<close>
definition parse_int64 :: "string \<Rightarrow> goerr + 64 word" where
  "parse_int64 s =
     (let (neg, ds) = (case s of
            [] \<Rightarrow> (False, [])
          | c # cs \<Rightarrow> if c = CHR ''-'' then (True, cs) else if c = CHR ''+'' then (False, cs) else (False, c # cs))
      in if ds = [] \<or> \<not> list_all is_digit ds then Inl (errorf ''invalid syntax'')
         else if neg then (if digits_value ds \<le> 2 ^ 63 then Inr (- of_nat (digits_value ds)) else Inl (errorf ''value out of range''))
         else (if digits_value ds < 2 ^ 63 then Inr (of_nat (digits_value ds)) else Inl (errorf ''value out of range'')))"

definition cut_suffix :: "string \<Rightarrow> string \<Rightarrow> string option" where
  "cut_suffix suf s = (if has_suffix suf s then Some (take (length s - length suf) s) else None)"

fun find_unit :: "string \<Rightarrow> (string \<times> 64 word) list \<Rightarrow> string \<times> 64 word" where
  "find_unit s [] = (s, 1000000000)"
| "find_unit s ((suf, u) # us) = (case cut_suffix suf s of
      Some before \<Rightarrow> (trim_space before, u)
    | None \<Rightarrow> find_unit s us)"

definition parse_duration :: "string \<Rightarrow> goerr + 64 word" where
  "parse_duration v =
     (let trimmed = trim_space v in
      if trimmed = [] then Inl (errorf ''empty duration value'')
      else (let (number_part, unit) = find_unit trimmed duration_units in
        (case parse_int64 number_part of
           Inl e \<Rightarrow> Inl (WrapErr ''parse as a PostgreSQL duration'' e)
         | Inr magnitude \<Rightarrow> Inr (magnitude * unit))))"

lemma is_digit_not_space: "is_digit c \<Longrightarrow> \<not> is_space c"
  by (auto simp: is_digit_def is_space_def)

lemma dropWhile_space_digits: "list_all is_digit ds \<Longrightarrow> dropWhile is_space (ds @ s) = (if ds = [] then dropWhile is_space s else ds @ s)"
  by (cases ds) (auto dest: is_digit_not_space)

lemma trim_space_digits: "list_all is_digit ds \<Longrightarrow> trim_space ds = ds"
  using dropWhile_space_digits [of ds "[]"] dropWhile_space_digits [of "rev ds" "[]"]
  by (auto simp: trim_space_def list_all_iff)

lemma trim_space_append:
  "list_all is_digit ds \<Longrightarrow> ds \<noteq> [] \<Longrightarrow> suf = [] \<or> \<not> is_space (last suf) \<Longrightarrow> trim_space (ds @ suf) = ds @ suf"
  using trim_space_digits [of ds]
  by (cases suf rule: rev_cases) (auto simp: dropWhile_space_digits trim_space_def)

lemma cut_suffix_append: "cut_suffix suf (s @ suf) = Some s"
  by (simp add: cut_suffix_def has_suffix_def has_prefix_def)

lemma cut_suffix_differs:
  "list_all is_digit ds \<Longrightarrow> ds \<noteq> [] \<Longrightarrow> suf \<noteq> [] \<Longrightarrow> \<not> is_digit (last suf) \<Longrightarrow> cut_suffix suf ds = None"
  by (cases ds rule: rev_cases; cases suf rule: rev_cases) (auto simp: cut_suffix_def has_suffix_def has_prefix_def)

lemma not_digits: "\<not> is_digit (CHR ''u'')" "\<not> is_digit (CHR ''m'')" "\<not> is_digit (CHR ''n'')" "\<not> is_digit (CHR ''s'')"
    "\<not> is_digit (CHR ''h'')" "\<not> is_digit (CHR ''d'')" "\<not> is_digit (CHR ''-'')" "\<not> is_digit (CHR ''+'')"
  by (simp_all add: is_digit_def)

lemma find_unit_digits:
  assumes d: "list_all is_digit ds" "ds \<noteq> []" and u: "(suf, unit) \<in> insert ([], 1000000000) (set duration_units)"
  shows "find_unit (ds @ suf) duration_units = (ds, unit)"
proof -
  obtain d0 d1 where ds: "ds = d0 @ [d1]" using d(2) by (cases ds rule: rev_cases) auto
  with d have d1: "is_digit d1" by simp
  have t: "trim_space (d0 @ [d1]) = d0 @ [d1]" using trim_space_digits [OF d(1)] ds by simp
  from u d1 not_digits show ?thesis
    by (auto simp: duration_units_def cut_suffix_def has_suffix_def has_prefix_def ds t)
qed

lemma digits_no_sign: "list_all is_digit ds \<Longrightarrow> ds \<noteq> [] \<Longrightarrow> digits_value ds < 2 ^ 63 \<Longrightarrow> parse_int64 ds = Inr (of_nat (digits_value ds))"
  using not_digits by (cases ds) (auto simp: parse_int64_def)

lemma parse_duration_digits:
  assumes d: "list_all is_digit ds" "ds \<noteq> []" "digits_value ds < 2 ^ 63"
    and u: "(suf, unit) \<in> insert ([], 1000000000) (set duration_units)"
  shows "parse_duration (ds @ suf) = Inr (of_nat (digits_value ds) * unit)"
proof -
  have "suf = [] \<or> \<not> is_space (last suf)" using u by (auto simp: duration_units_def is_space_def)
  with d have "trim_space (ds @ suf) = ds @ suf" by (simp add: trim_space_append)
  with find_unit_digits [OF d(1,2) u] digits_no_sign [OF d] d(2) show ?thesis
    by (simp add: parse_duration_def)
qed

lemma sint_of_nat_mult:
  assumes "n * unat u < 2 ^ 63" shows "sint (of_nat n * (u :: 64 word)) = int (n * unat u)"
proof -
  have "of_nat n * u = (of_nat (n * unat u) :: 64 word)" by simp
  moreover have "sint (of_nat m :: 64 word) = int m" if "m < 2 ^ 63" for m
    using that by (simp add: signed_of_nat signed_take_bit_int_eq_self)
  from this [OF assms] have "sint (of_nat (n * unat u) :: 64 word) = int (n * unat u)" .
  ultimately show ?thesis by (simp only:)
qed

text \<open>C35: an integer of 63 bits with one of the units, or none, is parsed to that many units exactly when the product
  fits a time.Duration; otherwise it wraps to another duration, without an error.\<close>
theorem parse_duration_value:
  assumes d: "list_all is_digit ds" "ds \<noteq> []"
    and u: "(suf, unit) \<in> insert ([], 1000000000) (set duration_units)"
    and small: "digits_value ds < 2 ^ 63"
  shows "\<exists>v. parse_duration (ds @ suf) = Inr v \<and>
    (sint v = int (digits_value ds) * int (unat unit) \<longleftrightarrow> digits_value ds * unat unit < 2 ^ 63)"
proof -
  let ?v = "of_nat (digits_value ds) * unit"
  have "digits_value ds * unat unit < 2 ^ 63" if "sint ?v = int (digits_value ds) * int (unat unit)"
  proof -
    from that sint_lt [of ?v] have "int (digits_value ds * unat unit) < int (2 ^ 63)" by simp
    then show ?thesis by (simp only: of_nat_less_iff)
  qed
  with parse_duration_digits [OF d small u] sint_of_nat_mult [of "digits_value ds" unit] show ?thesis by auto
qed

theorem parse_duration_value_witness:
  "(\<exists>v. parse_duration ''5min'' = Inr v \<and> sint v = 300000000000) \<and> (\<exists>v. parse_duration ''9223372037s'' = Inr v \<and> sint v \<noteq> 9223372037000000000)"
  using parse_duration_value [of "''5''" "''min''" 60000000000] parse_duration_value [of "''9223372037''" "''s''" 1000000000]
  by (simp add: duration_units_def is_digit_def digits_value_def digit_value_def)

section \<open>dump.go\<close>

definition ignore_lines :: "string list" where
  "ignore_lines = [''DROP ROLE IF EXISTS postgres'', ''DROP ROLE IF EXISTS streaming_replica'',
     ''CREATE ROLE postgres'', ''ALTER ROLE postgres'', ''COMMENT ON ROLE postgres'',
     ''CREATE ROLE streaming_replica'', ''ALTER ROLE streaming_replica'', ''COMMENT ON ROLE streaming_replica'']"

definition ignore_mark :: string where "ignore_mark = ''-- Ignored statement: ''"

text \<open>What bufio.Reader.ReadString returns, call by call: each line with its newline, then the rest.\<close>
fun read_lines :: "string \<Rightarrow> string list" where
  "read_lines [] = [[]]"
| "read_lines (c # cs) = (if c = newline then [c] # read_lines cs
     else (case read_lines cs of [] \<Rightarrow> [[c]] | l # ls \<Rightarrow> (c # l) # ls))"

definition statement_line :: "string \<Rightarrow> bool" where
  "statement_line l \<longleftrightarrow> 2 \<le> length l \<and> (l ! 0 \<noteq> CHR ''-'' \<or> l ! 1 \<noteq> CHR ''-'') \<and> l ! 0 \<noteq> CHR 0x5C \<and>
     l ! (length l - 2) = CHR '';''"

text \<open>One line: the prefixes found so far, and the line to write.\<close>
definition filter_line :: "string list \<Rightarrow> string \<Rightarrow> string list \<times> string" where
  "filter_line found l =
     (if length found < length ignore_lines \<and> statement_line l then
        (case List.find (\<lambda>p. p \<notin> set found \<and> has_prefix p l) ignore_lines of
           None \<Rightarrow> (found, l)
         | Some p \<Rightarrow> (p # found, ignore_mark @ l))
      else (found, l))"

fun filter_dump :: "string list \<Rightarrow> string list \<Rightarrow> string list" where
  "filter_dump found [] = []"
| "filter_dump found (l # ls) = (case filter_line found l of (found', l') \<Rightarrow> l' # filter_dump found' ls)"

text \<open>
  DumpAll.  The process and the files are the environment: what pg_dumpall prints when it is given
  these arguments and variables, and the error of each call.
\<close>
record dump_env =
  dv_pipe :: error
  dv_open :: error
  dv_start :: error
  dv_stdout :: "string list \<Rightarrow> credential_variables \<Rightarrow> string"
  dv_read_err :: error          \<comment> \<open>nil when the output ends with EOF\<close>
  dv_write :: "nat \<Rightarrow> error"
  dv_wait :: error
  dv_flush :: error
  dv_close :: error

definition dump_args :: "string list" where
  "dump_args = [''--clean'', ''--if-exists'', ''--exclude-database=postgres'']"

fun dump_loop :: "dump_env \<Rightarrow> nat \<Rightarrow> string list \<Rightarrow> string list \<Rightarrow> error \<times> string list" where
  "dump_loop env i found [] = (None, [])"
| "dump_loop env i found (l # ls) =
     (if ls = [] \<and> dv_read_err env \<noteq> None then (trace_wrap ''read from stdout'' (dv_read_err env), [])
      else (case filter_line found l of (found', l') \<Rightarrow>
        (case dv_write env i of
           Some e \<Rightarrow> (Some (WrapErr ''write SQL line'' e), [])
         | None \<Rightarrow> (case dump_loop env (Suc i) found' ls of (e, out) \<Rightarrow> (e, l' # out)))))"

text \<open>The error that is returned, and the lines given to the buffered writer (None: no file was opened).\<close>
definition dump_all :: "dump_env \<Rightarrow> credentials \<Rightarrow> error \<times> string list option" where
  "dump_all env creds =
     (let vars = set_database_name ''postgres'' (get_variables creds) in
      case dv_pipe env of Some e \<Rightarrow> (Some (WrapErr ''get stdout pipe'' e), None)
    | None \<Rightarrow> (case dv_open env of Some e \<Rightarrow> (Some (WrapErr ''open SQL dump output file'' e), None)
    | None \<Rightarrow>
      (let (err, out) = (case dv_start env of
              Some e \<Rightarrow> (Some (WrapErr ''start process'' e), [])
            | None \<Rightarrow> (case dump_loop env 0 [] (read_lines (dv_stdout env dump_args vars)) of
                (Some e, out) \<Rightarrow> (Some e, out)
              | (None, out) \<Rightarrow> (new_aggregate [trace_wrap ''process failed'' (dv_wait env), None], out)));
           cleanup_err = new_aggregate [trace_wrap ''flush'' (dv_flush env), trace_wrap ''close'' (dv_close env)]
       in (new_aggregate [err, trace_wrap [] cleanup_err], Some out))))"

lemma concat_read_lines: "concat (read_lines s) = s"
  by (induction s) (auto split: list.splits)

lemma read_lines_ne [simp]: "read_lines s \<noteq> []"
  by (cases s) (auto split: list.splits)

definition apply_mark :: "string option \<Rightarrow> string \<Rightarrow> string" where
  "apply_mark p l = (case p of None \<Rightarrow> l | Some _ \<Rightarrow> ignore_mark @ l)"

text \<open>What the filter may do to one line, given the prefixes found before.\<close>
definition line_ok :: "string list \<Rightarrow> string option \<Rightarrow> string \<Rightarrow> bool" where
  "line_ok found p l = (case p of
      Some q \<Rightarrow> q \<in> set ignore_lines \<and> q \<notin> set found \<and> has_prefix q l \<and> statement_line l
    | None \<Rightarrow> statement_line l \<longrightarrow> (\<forall>q \<in> set ignore_lines. has_prefix q l \<longrightarrow> q \<in> set found))"

lemma filter_line_ok:
  assumes "distinct found" "set found \<subseteq> set ignore_lines" and f: "filter_line found l = (found', l')"
  shows "\<exists>p. line_ok found p l \<and> l' = apply_mark p l \<and> found' = (case p of None \<Rightarrow> found | Some q \<Rightarrow> q # found)"
proof (cases "length found < length ignore_lines \<and> statement_line l")
  case False
  have "line_ok found None l"
  proof (cases "statement_line l")
    case True
    with False have "length ignore_lines \<le> length found" by simp
    then have "card (set ignore_lines) \<le> card (set found)"
      using assms(1) by (simp add: distinct_card ignore_lines_def)
    with assms(2) have "set found = set ignore_lines" by (intro card_seteq) auto
    then show ?thesis by (simp add: line_ok_def)
  qed (simp add: line_ok_def)
  with False f show ?thesis
    by (intro exI [of _ None]) (auto simp: filter_line_def apply_mark_def)
next
  case True
  let ?f = "List.find (\<lambda>p. p \<notin> set found \<and> has_prefix p l) ignore_lines"
  show ?thesis
  proof (cases ?f)
    case None
    with True f show ?thesis
      by (intro exI [of _ None]) (auto simp: filter_line_def apply_mark_def line_ok_def find_None_iff)
  next
    case (Some q)
    then have "q \<notin> set found \<and> has_prefix q l \<and> q \<in> set ignore_lines"
      by (auto simp: find_Some_iff)
    with Some True f show ?thesis
      by (intro exI [of _ "Some q"]) (auto simp: filter_line_def apply_mark_def line_ok_def)
  qed
qed

fun marks_ok :: "string list \<Rightarrow> string option list \<Rightarrow> string list \<Rightarrow> bool" where
  "marks_ok found [] [] = True"
| "marks_ok found (p # ps) (l # ls) =
     (line_ok found p l \<and> marks_ok (case p of None \<Rightarrow> found | Some q \<Rightarrow> q # found) ps ls)"
| "marks_ok found _ _ = False"

lemma filter_dump_marks:
  "distinct found \<Longrightarrow> set found \<subseteq> set ignore_lines \<Longrightarrow>
     \<exists>ps. marks_ok found ps ls \<and> filter_dump found ls = map2 apply_mark ps ls"
proof (induction ls arbitrary: found)
  case Nil
  show ?case by (rule exI [of _ "[]"]) simp
next
  case (Cons l ls)
  obtain found' l' where f: "filter_line found l = (found', l')" by (metis prod.exhaust)
  from filter_line_ok [OF Cons.prems f] obtain p where p: "line_ok found p l" "l' = apply_mark p l"
    "found' = (case p of None \<Rightarrow> found | Some q \<Rightarrow> q # found)" by blast
  then have "distinct found'" "set found' \<subseteq> set ignore_lines"
    using Cons.prems by (auto simp: line_ok_def split: option.splits)
  from Cons.IH [OF this] obtain ps where "marks_ok found' ps ls" "filter_dump found' ls = map2 apply_mark ps ls"
    by blast
  with p f show ?case by (intro exI [of _ "p # ps"]) auto
qed

fun used_marks :: "string option list \<Rightarrow> string list" where
  "used_marks [] = []"
| "used_marks (None # ps) = used_marks ps"
| "used_marks (Some q # ps) = q # used_marks ps"

lemma marks_ok_props:
  "marks_ok found ps ls \<Longrightarrow> length ps = length ls \<and>
     distinct (used_marks ps) \<and> set (used_marks ps) \<inter> set found = {} \<and>
     (\<forall>i < length ls. (\<forall>q. ps ! i = Some q \<longrightarrow> q \<in> set ignore_lines \<and> has_prefix q (ls ! i) \<and> statement_line (ls ! i)) \<and>
        (ps ! i = None \<longrightarrow> statement_line (ls ! i) \<longrightarrow> (\<forall>q \<in> set ignore_lines. has_prefix q (ls ! i) \<longrightarrow>
            q \<in> set found \<or> (\<exists>j < i. ps ! j = Some q))))"
proof (induction found ps ls rule: marks_ok.induct)
  case (2 found p ps l ls)
  let ?f = "case p of None \<Rightarrow> found | Some q \<Rightarrow> q # found"
  from 2 have l: "line_ok found p l" by simp
  from 2 have IH: "length ps = length ls" "distinct (used_marks ps)" "set (used_marks ps) \<inter> set ?f = {}"
    and IHi: "\<And>i. i < length ls \<Longrightarrow> (\<forall>q. ps ! i = Some q \<longrightarrow> q \<in> set ignore_lines \<and> has_prefix q (ls ! i) \<and> statement_line (ls ! i)) \<and>
        (ps ! i = None \<longrightarrow> statement_line (ls ! i) \<longrightarrow> (\<forall>q \<in> set ignore_lines. has_prefix q (ls ! i) \<longrightarrow>
            q \<in> set ?f \<or> (\<exists>j < i. ps ! j = Some q)))" by auto
  show ?case
  proof (intro conjI allI impI)
    show "length (p # ps) = length (l # ls)" using IH by simp
    show "distinct (used_marks (p # ps))" using IH by (cases p) auto
    show "set (used_marks (p # ps)) \<inter> set found = {}"
      using IH l by (cases p) (auto simp: line_ok_def)
  next
    fix i q assume "i < length (l # ls)" "(p # ps) ! i = Some q"
    with l IHi [of "i - 1"]
    show "q \<in> set ignore_lines" "has_prefix q ((l # ls) ! i)" "statement_line ((l # ls) ! i)"
      by (cases i; auto simp: line_ok_def split: option.splits)+
  next
    fix i assume i: "i < length (l # ls)" "(p # ps) ! i = None" "statement_line ((l # ls) ! i)"
    show "\<forall>q \<in> set ignore_lines. has_prefix q ((l # ls) ! i) \<longrightarrow> q \<in> set found \<or> (\<exists>j < i. (p # ps) ! j = Some q)"
    proof (cases i)
      case 0
      with i l show ?thesis by (auto simp: line_ok_def)
    next
      case (Suc k)
      have up: "q \<in> set ?f \<or> (\<exists>j < k. ps ! j = Some q) \<Longrightarrow> q \<in> set found \<or> (\<exists>j < i. (p # ps) ! j = Some q)" for q
        using Suc by (cases p) (force intro: exI [of _ 0] exI [of _ "Suc _"])+
      from i Suc IHi [of k] up show ?thesis by auto
    qed
  qed
qed auto

text \<open>C34: the filter changes nothing but to comment out statements; a commented statement
  starts with one of the ignored prefixes, every prefix is used at most once, and the first statement
  with an ignored prefix is always commented out.\<close>
theorem filter_dump_result:
  "\<exists>ps. length ps = length ls \<and> filter_dump [] ls = map2 apply_mark ps ls \<and> distinct (used_marks ps) \<and>
     (\<forall>i < length ls. \<forall>q. ps ! i = Some q \<longrightarrow> q \<in> set ignore_lines \<and> has_prefix q (ls ! i) \<and> statement_line (ls ! i)) \<and>
     (\<forall>i < length ls. \<forall>q \<in> set ignore_lines. statement_line (ls ! i) \<longrightarrow> has_prefix q (ls ! i) \<longrightarrow>
        (\<exists>j \<le> i. ps ! j \<noteq> None \<and> (j = i \<or> ps ! j = Some q)))"
proof -
  from filter_dump_marks [of "[]" ls] obtain ps where m: "marks_ok [] ps ls" "filter_dump [] ls = map2 apply_mark ps ls"
    by auto
  note P = marks_ok_props [OF m(1)]
  have "\<exists>j \<le> i. ps ! j \<noteq> None \<and> (j = i \<or> ps ! j = Some q)"
    if "i < length ls" "q \<in> set ignore_lines" "statement_line (ls ! i)" "has_prefix q (ls ! i)" for i q
  proof (cases "ps ! i")
    case None
    with P that have "\<exists>j < i. ps ! j = Some q" by simp
    then show ?thesis by (auto intro: less_imp_le)
  qed auto
  with P m(2) show ?thesis by (intro exI [of _ ps]) auto
qed

text \<open>The prefixes end at a role name without a delimiter, so the first statement about a role whose
  name merely starts with that of a managed role is commented out as well.\<close>
lemma filter_dump_longer_name:
  "q \<in> set ignore_lines \<Longrightarrow> statement_line (q @ rest) \<Longrightarrow>
     filter_dump [] [q @ rest] = [ignore_mark @ q @ rest]"
proof -
  assume q: "q \<in> set ignore_lines" and st: "statement_line (q @ rest)"
  have "has_prefix q (q @ rest)" by (simp add: has_prefix_def)
  with q have "List.find (\<lambda>p. p \<notin> set [] \<and> has_prefix p (q @ rest)) ignore_lines \<noteq> None"
    by (auto simp: find_None_iff)
  then obtain p where "List.find (\<lambda>p. p \<notin> set [] \<and> has_prefix p (q @ rest)) ignore_lines = Some p" by blast
  with st show ?thesis by (simp add: filter_line_def ignore_lines_def)
qed

theorem filter_dump_longer_name_witness:
  "filter_dump [] [''COMMENT ON ROLE postgres_exporter IS 1;'' @ [newline]]
     = [ignore_mark @ ''COMMENT ON ROLE postgres_exporter IS 1;'' @ [newline]]"
  using filter_dump_longer_name [of "''COMMENT ON ROLE postgres''" "''_exporter IS 1;'' @ [newline]"]
  by (simp add: ignore_lines_def statement_line_def)

section \<open>walarchive.go\<close>

text \<open>A PSQLRunner: one statement, psql's standard output.\<close>
type_synonym 's runner = "string \<Rightarrow> ('s, string) prog"

definition archive_poll_interval :: duration where "archive_poll_interval = 2 * second"

text \<open>Go's comparison of strings: lexicographic on bytes.\<close>
fun str_le :: "string \<Rightarrow> string \<Rightarrow> bool" where
  "str_le [] t = True"
| "str_le (c # s) [] = False"
| "str_le (c # s) (d # t) = ((of_char c :: nat) < of_char d \<or> c = d \<and> str_le s t)"

lemma str_le_Nil [simp]: "str_le t [] \<longleftrightarrow> t = []"
  by (cases t) simp_all

lemma str_le_ConsE:
  assumes "str_le (c # s) u"
  obtains d t where "u = d # t" "(of_char c :: nat) < of_char d \<or> c = d \<and> str_le s t"
  using assms by (cases u) auto

lemma str_le_total: "str_le s t \<or> str_le t s"
proof (induction s t rule: str_le.induct)
  case (3 c s d t)
  have "(of_char c :: nat) < of_char d \<or> (of_char d :: nat) < of_char c \<or> c = d"
    using of_char_eq_iff [of c d, where 'a = nat] by linarith
  with 3 show ?case by auto
qed simp_all

lemma str_le_antisym: "str_le s t \<Longrightarrow> str_le t s \<Longrightarrow> s = t"
  by (induction s t rule: str_le.induct) auto

lemma str_le_trans: "str_le s t \<Longrightarrow> str_le t u \<Longrightarrow> str_le s u"
proof (induction s t arbitrary: u rule: str_le.induct)
  case (3 c s d t)
  from 3(3) obtain e v where "u = e # v" "(of_char d :: nat) < of_char e \<or> d = e \<and> str_le t v" by (rule str_le_ConsE)
  with 3(1,2) show ?case by auto
qed simp_all

definition fence_sql :: string where "fence_sql = ''SELECT txid_current()''"
definition segment_sql :: string where "segment_sql = ''SELECT pg_walfile_name(pg_current_wal_lsn())''"
definition switch_sql :: string where "switch_sql = ''SELECT pg_switch_wal()''"
definition archiver_sql :: string where
  "archiver_sql = (let empty_text = [CHR 0x27, CHR 0x27] in
     ''SELECT coalesce(last_archived_wal, '' @ empty_text @ ''), coalesce(last_failed_wal, '' @ empty_text @
     ''), coalesce(last_failed_time > last_archived_time, false) FROM pg_stat_archiver'')"

definition status_fields :: "string \<Rightarrow> string list" where
  "status_fields output = split_on (CHR ''|'') (last_non_empty_line output)"

definition query_archiver_status :: "'s runner \<Rightarrow> ('s, string \<times> string \<times> bool) prog" where
  "query_archiver_status run = bnd (run archiver_sql) (\<lambda>output.
     (case status_fields output of
        [archived, failed, failing] \<Rightarrow> ret (archived, failed, failing = ''t'')
      | _ \<Rightarrow> fail (errorf ''unexpected pg_stat_archiver output'')))"

text \<open>
  The polling loop.  The select waits for the deadline or for the poll interval, whichever comes
  first; \<^verbatim>\<open>wait_wal_step\<close> is one turn of the loop with what follows it.  The first argument of
  the loop bounds the number of sleeps; each sleep takes the poll interval, so a bound of
  timeout / interval + 1 is never what ends the loop (\<^verbatim>\<open>wait_wal_loop_fuel\<close>).
\<close>
definition deadline_exceeded :: goerr where
  "deadline_exceeded = WrapErr ''timed out'' (LeafErr Deadline ''context deadline exceeded'')"

definition wait_wal_step :: "'s runner \<Rightarrow> gotime \<Rightarrow> string \<Rightarrow> ('s, unit) prog \<Rightarrow> ('s, unit) prog" where
  "wait_wal_step run deadline target next_turn =
     bnd (wrapping ''query WAL archiver status'' (query_archiver_status run)) (\<lambda>(archived, failed, failing).
     if archived \<noteq> [] \<and> str_le target archived then ret ()
     else if failing \<and> failed \<noteq> [] \<and> str_le target failed then fail (errorf ''WAL archiving is failing'')
     else bnd time_now (\<lambda>now.
       if deadline < now + archive_poll_interval then fail deadline_exceeded
       else thn (log_event (Slept archive_poll_interval)) next_turn))"

fun wait_wal_loop :: "nat \<Rightarrow> 's runner \<Rightarrow> gotime \<Rightarrow> string \<Rightarrow> ('s, unit) prog" where
  "wait_wal_loop 0 run deadline target = wait_wal_step run deadline target (fail deadline_exceeded)"
| "wait_wal_loop (Suc k) run deadline target =
     wait_wal_step run deadline target (wait_wal_loop k run deadline target)"

definition wait_for_wal_archive :: "'s runner \<Rightarrow> string \<Rightarrow> duration \<Rightarrow> ('s, unit) prog" where
  "wait_for_wal_archive run target timeout = bnd time_now (\<lambda>start.
     wait_wal_loop (nat (timeout div archive_poll_interval) + 1) run (start + timeout) target)"

definition force_wal_archive :: "'s runner \<Rightarrow> duration \<Rightarrow> ('s, unit) prog" where
  "force_wal_archive run wait_timeout =
     bnd (wrapping ''write WAL recovery fence'' (run fence_sql)) (\<lambda>_.
     bnd (wrapping ''determine the WAL segment'' (run segment_sql)) (\<lambda>segment_output.
     let target = last_non_empty_line segment_output in
     if target = [] then fail (errorf ''could not determine the WAL segment'')
     else bnd (wrapping ''switch WAL'' (run switch_sql)) (\<lambda>_.
       wait_for_wal_archive run target (max_wait wait_timeout (2 * minute)))))"

lemma wait_wal_stepE:
  assumes "wait_wal_step run deadline target next_turn w s tr = (r, s', tr')"
  obtains e where "r = Inl e"
  | answer archived failed failing where "r = Inr ()" "run archiver_sql w s tr = (Inr answer, s', tr')"
      "status_fields answer = [archived, failed, failing]" "str_le target archived"
  | s1 tr1 where "next_turn w s1 tr1 = (r, s', tr')"
  using assms unfolding wait_wal_step_def query_archiver_status_def
  by (auto simp: prog_simps split: prod.splits sum.splits list.splits if_splits)

lemma wait_wal_loop_ok:
  "wait_wal_loop fuel run deadline target w s tr = (Inr (), s', tr') \<Longrightarrow>
     \<exists>s1 tr1 answer archived failed failing. run archiver_sql w s1 tr1 = (Inr answer, s', tr') \<and>
       status_fields answer = [archived, failed, failing] \<and> str_le target archived"
proof (induction fuel arbitrary: s tr)
  case 0
  from 0 [simplified] show ?case by (cases rule: wait_wal_stepE) (auto, blast)
next
  case (Suc k)
  from Suc.prems [simplified] show ?case by (cases rule: wait_wal_stepE) (use Suc.IH in blast)+
qed

text \<open>A runner does not sleep and only appends to the history.\<close>
definition runner_ok :: "world \<Rightarrow> 's runner \<Rightarrow> bool" where
  "runner_ok w run \<longleftrightarrow> (\<forall>q s tr. \<exists>more. slept more = 0 \<and> snd (snd (run q w s tr)) = tr @ more)"

lemma wait_wal_step_cong:
  assumes "\<And>s1 more. slept more = 0 \<Longrightarrow> w_now w (tr @ more) + archive_poll_interval \<le> deadline \<Longrightarrow>
      next1 w s1 (tr @ more @ [ReadClock (w_now w (tr @ more)), Slept archive_poll_interval])
        = next2 w s1 (tr @ more @ [ReadClock (w_now w (tr @ more)), Slept archive_poll_interval])"
    and "runner_ok w run"
  shows "wait_wal_step run deadline target next1 w s tr = wait_wal_step run deadline target next2 w s tr"
proof -
  obtain ro s1 tr1 where r: "run archiver_sql w s tr = (ro, s1, tr1)" by (metis prod_cases3)
  with assms(2) obtain more where more: "slept more = 0" "tr1 = tr @ more"
    unfolding runner_ok_def by (metis snd_conv)
  from assms(1) [OF more(1), of s1] r more(2) show ?thesis
    unfolding wait_wal_step_def query_archiver_status_def
    by (auto simp: prog_simps split: prod.splits sum.splits list.splits if_splits)
qed

text \<open>With enough fuel for the time that is left, more fuel changes nothing.\<close>
lemma wait_wal_loop_fuel:
  assumes "clock_ok w" "runner_ok w run" "deadline - w_now w tr < (int fuel + 1) * archive_poll_interval"
  shows "wait_wal_loop (fuel + k) run deadline target w s tr = wait_wal_loop fuel run deadline target w s tr"
  using assms(3)
proof (induction fuel arbitrary: s tr)
  case 0
  have "False" if "slept more = 0" "w_now w (tr @ more) + archive_poll_interval \<le> deadline" for more
  proof -
    have "w_now w tr \<le> w_now w (tr @ more)" using assms(1) that(1) unfolding clock_ok_def by (metis add_0_right)
    with that(2) 0 show False by simp
  qed
  then show ?case by (cases k) (auto intro!: wait_wal_step_cong [OF _ assms(2)])
next
  case (Suc fuel)
  have "wait_wal_loop (fuel + k) run deadline target w s1 tr1 = wait_wal_loop fuel run deadline target w s1 tr1"
    if "slept more = 0" "tr1 = tr @ more @ [ReadClock (w_now w (tr @ more)), Slept archive_poll_interval]" for s1 tr1 more
  proof (rule Suc.IH)
    have "slept (more @ [ReadClock (w_now w (tr @ more)), Slept archive_poll_interval]) = archive_poll_interval"
      using that(1) by simp
    then have "w_now w tr + archive_poll_interval \<le> w_now w tr1"
      using assms(1) that(2) unfolding clock_ok_def by metis
    with Suc.prems show "deadline - w_now w tr1 < (int fuel + 1) * archive_poll_interval"
      by (simp add: algebra_simps)
  qed
  then show ?case by (auto intro!: wait_wal_step_cong [OF _ assms(2)])
qed

text \<open>C27: the bound of the polling loop is never what ends it.\<close>
theorem wait_for_wal_archive_terminates:
  assumes clock: "clock_ok w" and run: "runner_ok w run" and t: "0 \<le> timeout"
  shows "wait_for_wal_archive run target timeout w s tr
    = wait_wal_loop (nat (timeout div archive_poll_interval) + 1 + k) run (w_now w tr + timeout) target w s
        (tr @ [ReadClock (w_now w tr)])"
proof -
  have "w_now w tr + slept [ReadClock (w_now w tr)] \<le> w_now w (tr @ [ReadClock (w_now w tr)])"
    using clock unfolding clock_ok_def by blast
  moreover have "timeout < (timeout div archive_poll_interval + 1) * archive_poll_interval"
    by (simp add: archive_poll_interval_def second_def)
  moreover have "0 \<le> timeout div archive_poll_interval" "0 < archive_poll_interval"
    using t by (simp_all add: archive_poll_interval_def second_def pos_imp_zdiv_nonneg_iff)
  ultimately have "w_now w tr + timeout - w_now w (tr @ [ReadClock (w_now w tr)])
      < (int (nat (timeout div archive_poll_interval) + 1) + 1) * archive_poll_interval"
    by (simp add: algebra_simps)
  from wait_wal_loop_fuel [OF clock run this]
  show ?thesis unfolding wait_for_wal_archive_def by (simp add: prog_simps del: wait_wal_loop.simps)
qed

text \<open>C19: when the WAL was forced, the fence transaction committed before the segment was looked up and
  the switch requested, and the archiver has since reported a segment not before the fence's.\<close>
theorem force_wal_archive_ok:
  assumes "force_wal_archive run t w s tr = (Inr (), s', tr')"
  shows "\<exists>a s1 tr1 segment s2 tr2 b s3 tr3 s4 tr4 answer archived failed failing.
    run fence_sql w s tr = (Inr a, s1, tr1) \<and> run segment_sql w s1 tr1 = (Inr segment, s2, tr2) \<and>
    last_non_empty_line segment \<noteq> [] \<and> run switch_sql w s2 tr2 = (Inr b, s3, tr3) \<and>
    run archiver_sql w s4 tr4 = (Inr answer, s', tr') \<and> status_fields answer = [archived, failed, failing] \<and>
    str_le (last_non_empty_line segment) archived"
proof -
  from assms obtain a s1 tr1 segment s2 tr2 b s3 tr3 where
    "run fence_sql w s tr = (Inr a, s1, tr1)" "run segment_sql w s1 tr1 = (Inr segment, s2, tr2)"
    "last_non_empty_line segment \<noteq> []" "run switch_sql w s2 tr2 = (Inr b, s3, tr3)"
    and loop: "wait_for_wal_archive run (last_non_empty_line segment) (max_wait t (2 * minute)) w s3 tr3 = (Inr (), s', tr')"
    unfolding force_wal_archive_def
    by (auto simp: Let_def elim!: bndE wrappingE split: if_splits)
  moreover from loop obtain n d s5 tr5 where "wait_wal_loop n run d (last_non_empty_line segment) w s5 tr5 = (Inr (), s', tr')"
    unfolding wait_for_wal_archive_def by (auto simp: prog_simps simp del: wait_wal_loop.simps)
  from wait_wal_loop_ok [OF this] obtain s4 tr4 answer archived failed failing where
    "run archiver_sql w s4 tr4 = (Inr answer, s', tr')" "status_fields answer = [archived, failed, failing]"
    "str_le (last_non_empty_line segment) archived" by blast
  ultimately show ?thesis by blast
qed

definition sample_runner :: "'s runner" where
  "sample_runner q = (\<lambda>w s tr. (Inr (sample_exec [q]), s, tr))"

lemma sample_runner_force:
  "force_wal_archive sample_runner 0 sample_world () [] = (Inr (), (), [ReadClock 1700000000000000000])"
proof -
  have seg: "last_non_empty_line (sample_exec [segment_sql]) = ''00000001000000000000000A''" by code_simp
  have st: "status_fields (sample_exec [archiver_sql]) = [''00000001000000000000000B'', [], ''f'']" by code_simp
  have le: "str_le ''00000001000000000000000A'' ''00000001000000000000000B''" by code_simp
  have now: "w_now sample_world tr = 1700000000000000000 + slept tr" for tr by (simp add: sample_world_def)
  have loop: "wait_wal_loop n sample_runner d ''00000001000000000000000A'' sample_world () t = (Inr (), (), t)" for n d t
    by (cases n) (simp_all add: wait_wal_step_def query_archiver_status_def prog_simps sample_runner_def st le)
  show ?thesis
    by (simp add: loop force_wal_archive_def wait_for_wal_archive_def prog_simps sample_runner_def max_wait_def now
        seg Let_def del: wait_wal_loop.simps)
qed

theorem wait_for_wal_archive_terminates_witness:
  "wait_for_wal_archive sample_runner ''A'' minute sample_world () []
    = wait_wal_loop (31 + 100) sample_runner (1700000000000000000 + minute) ''A'' sample_world () [ReadClock 1700000000000000000]"
proof -
  have "runner_ok sample_world sample_runner"
    by (auto simp: runner_ok_def sample_runner_def intro: exI [of _ "[]"])
  from wait_for_wal_archive_terminates [OF sample_clock_ok this, of minute "''A''" "()" "[]" 100]
  show ?thesis by (simp add: sample_world_def minute_def second_def archive_poll_interval_def del: wait_wal_loop.simps)
qed

theorem force_wal_archive_ok_witness:
  "\<exists>archived failing failed. status_fields (sample_exec [archiver_sql]) = [archived, failed, failing] \<and>
     str_le (last_non_empty_line (sample_exec [segment_sql])) archived"
  using force_wal_archive_ok [OF sample_runner_force] by (auto simp: sample_runner_def)

theorem filter_dump_result_witness:
  "\<exists>ps. length ps = 2 \<and> distinct (used_marks ps) \<and> (\<exists>q. ps ! 0 = Some q) \<and>
     filter_dump [] [''CREATE ROLE postgres;'' @ [newline], ''SELECT 1;''] = map2 apply_mark ps [''CREATE ROLE postgres;'' @ [newline], ''SELECT 1;'']"
proof -
  let ?ls = "[''CREATE ROLE postgres;'' @ [newline], ''SELECT 1;'']"
  obtain q where q: "q \<in> set ignore_lines" "statement_line (?ls ! 0)" "has_prefix q (?ls ! 0)"
  proof
    show "''CREATE ROLE postgres'' \<in> set ignore_lines" by code_simp
    show "statement_line (?ls ! 0)" by code_simp
    show "has_prefix ''CREATE ROLE postgres'' (?ls ! 0)" by code_simp
  qed
  from filter_dump_result [of ?ls] obtain ps where ps: "length ps = length ?ls" "filter_dump [] ?ls = map2 apply_mark ps ?ls"
    "distinct (used_marks ps)" and used: "\<forall>i < length ?ls. \<forall>q \<in> set ignore_lines. statement_line (?ls ! i) \<longrightarrow> has_prefix q (?ls ! i) \<longrightarrow>
        (\<exists>j \<le> i. ps ! j \<noteq> None \<and> (j = i \<or> ps ! j = Some q))" by blast
  have "0 < length ?ls" by simp
  with used q have "\<exists>j \<le> 0. ps ! j \<noteq> None" by blast
  then have "\<exists>q. ps ! 0 = Some q" by simp
  moreover have "length ps = 2" using ps(1) by simp
  ultimately show ?thesis using ps(2,3) by blast
qed

end
