(* ===== verification/ClonedCluster.thy ===== *)
theory ClonedCluster
  imports Certs Postgres
begin

text \<open>
  \<^verbatim>\<open>src/pkg/kubecluster/composite/clonedcluster/clonedcluster.go\<close>: backing up an existing
  CNPG cluster, cloning it from the backup with its own short-lived PKI, recovering to a point
  in time with the fallback for an idle source, and deleting everything again.
\<close>

section \<open>Options and receiver state\<close>

record cert_options =
  cto_crp_timeout :: duration
  cto_ready_timeout :: duration

record clone_cluster_options =
  clo_backup_timeout :: duration
  clo_self_timeout :: duration
  clo_serving :: cert_options
  clo_client_ca :: cert_options
  clo_pg_user :: cert_options
  clo_repl_user :: cert_options
  clo_ca_issuer_timeout :: duration
  clo_target_time :: string
  clo_cluster_timeout :: duration
  clo_cleanup :: duration

record cloned_cluster =
  cc_cluster :: "cluster option"
  cc_self_issuer :: "issuer option"
  cc_serving :: "certificate option"
  cc_client_ca :: "certificate option"
  cc_ca_issuer :: "issuer option"
  cc_pg_user :: "user_cert option"
  cc_repl_user :: "user_cert option"
  cc_crps :: "crp list"

definition empty_cloned_cluster :: cloned_cluster where
  "empty_cloned_cluster = \<lparr> cc_cluster = None, cc_self_issuer = None, cc_serving = None, cc_client_ca = None,
     cc_ca_issuer = None, cc_pg_user = None, cc_repl_user = None, cc_crps = [] \<rparr>"

definition set_cluster :: "cluster \<Rightarrow> cloned_cluster \<Rightarrow> cloned_cluster" where
  "set_cluster c s = s\<lparr>cc_cluster := Some c\<rparr>"
definition set_self_issuer :: "issuer \<Rightarrow> cloned_cluster \<Rightarrow> cloned_cluster" where
  "set_self_issuer i s = s\<lparr>cc_self_issuer := Some i\<rparr>"
definition set_serving_cert :: "certificate \<Rightarrow> cloned_cluster \<Rightarrow> cloned_cluster" where
  "set_serving_cert c s = s\<lparr>cc_serving := Some c\<rparr>"
definition set_client_ca :: "certificate \<Rightarrow> cloned_cluster \<Rightarrow> cloned_cluster" where
  "set_client_ca c s = s\<lparr>cc_client_ca := Some c\<rparr>"
definition set_ca_issuer :: "issuer \<Rightarrow> cloned_cluster \<Rightarrow> cloned_cluster" where
  "set_ca_issuer i s = s\<lparr>cc_ca_issuer := Some i\<rparr>"
definition set_pg_user :: "user_cert \<Rightarrow> cloned_cluster \<Rightarrow> cloned_cluster" where
  "set_pg_user u s = s\<lparr>cc_pg_user := Some u\<rparr>"
definition set_repl_user :: "user_cert \<Rightarrow> cloned_cluster \<Rightarrow> cloned_cluster" where
  "set_repl_user u s = s\<lparr>cc_repl_user := Some u\<rparr>"
definition add_crp :: "crp \<Rightarrow> cloned_cluster \<Rightarrow> cloned_cluster" where
  "add_crp p s = s\<lparr>cc_crps := cc_crps s @ [p]\<rparr>"

section \<open>Delete and GetCredentials\<close>

definition cloned_cluster_deletions :: "cloned_cluster \<Rightarrow> (string \<times> ('s, unit) prog) list" where
  "cloned_cluster_deletions s =
     (case cc_cluster s of None \<Rightarrow> [] | Some c \<Rightarrow>
        [(''delete CNPG cluster'', delete_cluster (om_ns (cl_meta c)) (om_name (cl_meta c)))]) @
     (case cc_repl_user s of None \<Rightarrow> [] | Some u \<Rightarrow> [(''delete streaming_replica user cert'', delete_user_cert u)]) @
     (case cc_pg_user s of None \<Rightarrow> [] | Some u \<Rightarrow> [(''delete postgres user cert'', delete_user_cert u)]) @
     (case cc_ca_issuer s of None \<Rightarrow> [] | Some i \<Rightarrow>
        [(''delete client CA issuer'', delete_issuer (om_ns (iss_meta i)) (om_name (iss_meta i)))]) @
     (case cc_client_ca s of None \<Rightarrow> [] | Some c \<Rightarrow>
        [(''delete client CA cert'', delete_certificate (om_ns (cert_meta c)) (om_name (cert_meta c)))]) @
     (case cc_serving s of None \<Rightarrow> [] | Some c \<Rightarrow>
        [(''delete serving cert'', delete_certificate (om_ns (cert_meta c)) (om_name (cert_meta c)))]) @
     map (\<lambda>p. (''delete certificate request policy'', delete_certificate_request_policy (om_name (crp_meta p)))) (cc_crps s) @
     (case cc_self_issuer s of None \<Rightarrow> [] | Some i \<Rightarrow>
        [(''delete self-signed issuer'', delete_issuer (om_ns (iss_meta i)) (om_name (iss_meta i)))])"

definition delete_cloned_cluster :: "cloned_cluster \<Rightarrow> ('s, unit) prog" where
  "delete_cloned_cluster s = cleanup_errors ''clean up cloned cluster'' (cloned_cluster_deletions s)"

definition cloned_cluster_credentials :: "cluster \<Rightarrow> string \<Rightarrow> string \<Rightarrow> credentials" where
  "cloned_cluster_credentials c serving_dir client_dir = KubernetesSecretCredentials
     \<lparr> sec_host = cl_write_service c @ ''.'' @ om_ns (cl_meta c) @ ''.svc'', sec_port = [], sec_user = [],
       sec_ca_path = path_join [serving_dir, ''tls.crt''],
       sec_cert_path = path_join [client_dir, ''tls.crt''],
       sec_key_path = path_join [client_dir, ''tls.key''] \<rparr>"

section \<open>CreateClusterBackup\<close>

definition create_cluster_backup :: "string \<Rightarrow> string \<Rightarrow> clone_cluster_options \<Rightarrow> ('s, backup) prog" where
  "create_cluster_backup ns existing opts =
     bnd (wrapping ''create backup of existing cluster'' (create_backup ns (existing @ ''-cloned'') existing
            \<lparr> cbo_generate = True, cbo_method = None, cbo_target = None \<rparr>)) (\<lambda>b.
     deferred ''delete backup''
       (\<lambda>e. if e = None then ret () else delete_backup ns (om_name (bk_meta b)))
       (wrapping ''wait for backup'' (wait_for_ready_backup ns (om_name (bk_meta b)) (clo_backup_timeout opts))))"

section \<open>Where the clone recovers from\<close>

fun find_archiver :: "plugin_config option \<Rightarrow> plugin_config list \<Rightarrow> plugin_config option" where
  "find_archiver first_found [] = first_found"
| "find_archiver first_found (p # ps) =
     (if pl_name p \<noteq> barman_cloud_plugin_name then find_archiver first_found ps
      else if pl_archiver p = Some True then Some p
      else find_archiver (case first_found of None \<Rightarrow> Some p | Some q \<Rightarrow> Some q) ps)"

definition find_barman_cloud_wal_archiver :: "cluster \<Rightarrow> plugin_config option" where
  "find_barman_cloud_wal_archiver c = find_archiver None (cl_plugins c)"

definition plugin_param :: "plugin_config \<Rightarrow> string \<Rightarrow> string" where
  "plugin_param p k = (case pl_params p k of None \<Rightarrow> [] | Some v \<Rightarrow> v)"

text \<open>The last element of each type wins.\<close>
definition backup_snapshot_names :: "backup \<Rightarrow> string \<times> string" where
  "backup_snapshot_names b = foldl (\<lambda>(data, wal) (ty, n).
     if ty = ''PG_DATA'' then (n, wal) else if ty = ''PG_WAL'' then (data, n) else (data, wal)) ([], []) (bk_snapshots b)"

definition resolve_barman_server_name :: "string \<Rightarrow> string \<Rightarrow> plugin_config \<Rightarrow> string \<Rightarrow> ('s, string) prog" where
  "resolve_barman_server_name ns cluster_name plugin store_name =
     (if plugin_param plugin ''serverName'' \<noteq> [] then ret (plugin_param plugin ''serverName'')
      else bnd (wrapping ''get barman-cloud object store'' (get_object_store ns store_name)) (\<lambda>store.
        ret (if os_server_name store \<noteq> [] then os_server_name store else cluster_name)))"

definition configure_wal_recovery :: "string \<Rightarrow> cluster \<Rightarrow> backup \<Rightarrow> ('s, volume_snapshot_recovery) prog" where
  "configure_wal_recovery ns source b = (case find_barman_cloud_wal_archiver source of
      None \<Rightarrow> fail (errorf ''source cluster does not archive WAL'')
    | Some plugin \<Rightarrow>
       (let store_name = plugin_param plugin ''barmanObjectName'' in
        if store_name = [] then fail (errorf ''plugin is missing the parameter'')
        else bnd (wrapping ''resolve barman server name''
               (resolve_barman_server_name ns (om_name (cl_meta source)) plugin store_name)) (\<lambda>server_name.
          (case backup_snapshot_names b of (data, wal) \<Rightarrow>
            if data = [] then fail (errorf ''backup did not report a PG_DATA volume snapshot'')
            else ret \<lparr> vsr_data = data, vsr_wal = wal,
              vsr_source = \<lparr> ec_name = server_name, ec_plugin = \<lparr> pl_name = barman_cloud_plugin_name, pl_archiver = None,
                 pl_params = [''barmanObjectName'' \<mapsto> store_name, ''serverName'' \<mapsto> server_name] \<rparr> \<rparr>,
              vsr_target_time = [] \<rparr>))))"

text \<open>Database and owner come from whichever bootstrap the existing cluster was made with.\<close>
definition bootstrap_names :: "bootstrap option \<Rightarrow> string \<times> string" where
  "bootstrap_names bo = (case bo of None \<Rightarrow> ([], [])
     | Some b \<Rightarrow> (case bs_initdb b of Some p \<Rightarrow> p
       | None \<Rightarrow> (case bs_basebackup b of Some p \<Rightarrow> p
         | None \<Rightarrow> (case bs_recovery b of Some r \<Rightarrow> (rc_database r, rc_owner r) | None \<Rightarrow> ([], [])))))"

definition clone_options :: "cluster \<Rightarrow> volume_snapshot_recovery \<Rightarrow> create_cluster_options" where
  "clone_options existing v = \<lparr> cco_generate = False, cco_recovery = Some v,
     cco_database = fst (bootstrap_names (cl_bootstrap existing)),
     cco_owner = snd (bootstrap_names (cl_bootstrap existing)),
     cco_class = (case cl_class existing of None \<Rightarrow> [] | Some c \<Rightarrow> c),
     cco_resources = [], cco_image = cl_image existing \<rparr>"

definition cluster_domain_names :: "string \<Rightarrow> string \<Rightarrow> string list" where
  "cluster_domain_names cluster_name ns =
     concat (map (\<lambda>ty. map (\<lambda>parent. cluster_name @ ''-'' @ ty @ parent) [[], ''.'' @ ns, ''.'' @ ns @ ''.svc''])
       [''r'', ''ro'', ''rw''])"

section \<open>The clone's certificates\<close>

definition create_cloned_cluster_certificate :: "string \<Rightarrow> string \<Rightarrow> issuer_ref \<Rightarrow> create_certificate_options
    \<Rightarrow> cert_options \<Rightarrow> (certificate \<Rightarrow> cloned_cluster \<Rightarrow> cloned_cluster) \<Rightarrow> (cloned_cluster, certificate) prog" where
  "create_cloned_cluster_certificate ns n ref cert_opts opts set_cert =
     bnd (wrapping ''create certificate'' (create_certificate ns n ref cert_opts)) (\<lambda>c.
     thn (upd_st (set_cert c))
     (bnd (policy_and_reissue c (cto_crp_timeout opts) add_crp set_cert) (\<lambda>c2.
      bnd (wrapping ''wait for certificate'' (wait_for_ready_certificate (om_ns (cert_meta c2)) (om_name (cert_meta c2))
             (cto_ready_timeout opts))) (\<lambda>ready.
      thn (upd_st (set_cert ready)) (ret ready)))))"

definition serving_cert_name :: "string \<Rightarrow> string" where
  "serving_cert_name n = clean_name (truncate_string_ellipsis n (64 - length ''-serving-cert'') @ ''-serving-cert'')"

definition serving_cert_options :: "string \<Rightarrow> string \<Rightarrow> create_certificate_options" where
  "serving_cert_options n ns = \<lparr> cce_generate = False, cce_is_ca = False, cce_constraints = None,
     cce_cn = serving_cert_name n, cce_dns = cluster_domain_names n ns, cce_duration = None,
     cce_labels = [watched_label_name \<mapsto> ''true''], cce_has_labels = True, cce_secret = [],
     cce_usages = [''server auth''], cce_algorithm = [] \<rparr>"

definition client_ca_options :: "string \<Rightarrow> create_certificate_options" where
  "client_ca_options n = \<lparr> cce_generate = False, cce_is_ca = True,
     cce_constraints = Some \<lparr> nc_critical = True, nc_dns = [], nc_ips = [], nc_emails = [], nc_uris = [] \<rparr>,
     cce_cn = truncate_string_ellipsis n (64 - length '' CNPC CA'') @ '' CNPC CA'', cce_dns = [], cce_duration = None,
     cce_labels = [watched_label_name \<mapsto> ''true''], cce_has_labels = True, cce_secret = [],
     cce_usages = [''cert sign''], cce_algorithm = [] \<rparr>"

section \<open>Recovery\<close>

definition err_recovery_target_not_reached :: goerr where
  "err_recovery_target_not_reached = errorf ''recovery target not reachable from archived WAL''"

text \<open>errors.Is with one of the program's sentinel errors, which are leaves.\<close>
definition errors_is :: "goerr \<Rightarrow> goerr \<Rightarrow> bool" where
  "errors_is e sentinel \<longleftrightarrow> set (causes sentinel) \<subseteq> set (causes e)"

definition job_selector :: "string \<Rightarrow> string" where
  "job_selector new_name = ''cnpg.io/cluster='' @ new_name @ '',cnpg.io/jobRole''"

text \<open>The failed wait for the recovery job: which error it becomes.\<close>
definition recovery_job_error :: "goerr \<Rightarrow> goerr" where
  "recovery_job_error e = (if errors_is e err_job_failed then err_recovery_target_not_reached
     else WrapErr ''wait for the recovery job'' e)"

definition map_error :: "(goerr \<Rightarrow> goerr) \<Rightarrow> ('s, 'a) prog \<Rightarrow> ('s, 'a) prog" where
  "map_error f m = (\<lambda>w s tr. case m w s tr of (Inl e, s', tr') \<Rightarrow> (Inl (f e), s', tr') | (Inr x, s', tr') \<Rightarrow> (Inr x, s', tr'))"

definition wait_for_clone_recovery :: "string \<Rightarrow> string \<Rightarrow> clone_cluster_options \<Rightarrow> ('s, cluster) prog" where
  "wait_for_clone_recovery ns new_name opts =
     thn (if clo_target_time opts \<noteq> []
          then bnd (map_error recovery_job_error
                 (wait_for_job_completion ns [] (clo_cluster_timeout opts) (job_selector new_name))) (\<lambda>_. ret ())
          else ret ())
       (wait_for_ready_cluster ns new_name (clo_cluster_timeout opts))"

text \<open>The clone's names for its certificates, and what createClone is called with.\<close>
definition create_clone :: "string \<Rightarrow> string \<Rightarrow> quantity \<Rightarrow> string \<Rightarrow> string \<Rightarrow> string \<Rightarrow> create_cluster_options
    \<Rightarrow> (cloned_cluster, unit) prog" where
  "create_clone ns new_name sz serving client_ca replication opts =
     bnd (wrapping ''create new cluster'' (create_cluster ns new_name sz serving client_ca replication opts)) (\<lambda>c.
     upd_st (set_cluster c))"

definition with_target_time :: "string \<Rightarrow> create_cluster_options \<Rightarrow> create_cluster_options" where
  "with_target_time t opts = opts\<lparr>cco_recovery := map_option (\<lambda>v. v\<lparr>vsr_target_time := t\<rparr>) (cco_recovery opts)\<rparr>"

text \<open>
  Step 5.  When the wait ends with ErrRecoveryTargetNotReached the clone is deleted and created again
  to recover to the consistency point.
\<close>
definition recover_fallback :: "string \<Rightarrow> string \<Rightarrow> (create_cluster_options \<Rightarrow> (cloned_cluster, unit) prog)
    \<Rightarrow> create_cluster_options \<Rightarrow> clone_cluster_options \<Rightarrow> (cloned_cluster, cluster) prog" where
  "recover_fallback ns new_name create cluster_opts opts =
     thn (wrapping ''delete cluster before recovery fallback'' (delete_cluster ns new_name))
    (thn (wrapping ''wait for cluster deletion before recovery fallback''
            (wait_for_cluster_deleted ns new_name (clo_cluster_timeout opts)))
    (thn (create (with_target_time [] cluster_opts))
         (wrapping ''wait for new cluster'' (wait_for_ready_cluster ns new_name (clo_cluster_timeout opts)))))"

definition recover_clone :: "string \<Rightarrow> string \<Rightarrow> (create_cluster_options \<Rightarrow> (cloned_cluster, unit) prog)
    \<Rightarrow> create_cluster_options \<Rightarrow> clone_cluster_options \<Rightarrow> (cloned_cluster, cluster) prog" where
  "recover_clone ns new_name create cluster_opts opts =
     thn (create (with_target_time (clo_target_time opts) cluster_opts)) (\<lambda>w s tr.
       case wait_for_clone_recovery ns new_name opts w s tr of
         (Inr c, s', tr') \<Rightarrow> (Inr c, s', tr')
       | (Inl e, s', tr') \<Rightarrow>
           if \<not> errors_is e err_recovery_target_not_reached
           then (Inl (WrapErr ''wait for new PITR cluster'' e), s', tr')
           else recover_fallback ns new_name create cluster_opts opts w s' tr')"

section \<open>CloneClusterFromBackup\<close>

definition self_signed_issuer_name :: "string \<Rightarrow> string" where
  "self_signed_issuer_name n = clean_name (n @ ''-self-signed-issuer'')"
definition client_ca_name :: "string \<Rightarrow> string" where
  "client_ca_name n = clean_name (n @ ''-client-ca'')"
definition client_ca_issuer_name :: "string \<Rightarrow> string" where
  "client_ca_issuer_name n = clean_name (client_ca_name n @ ''-issuer'')"

definition issuer_named :: "string \<Rightarrow> issuer_ref" where
  "issuer_named n = \<lparr> ir_name = n, ir_kind = [], ir_group = [] \<rparr>"

text \<open>An issuer is created, recorded, waited for and recorded again.\<close>
definition make_issuer :: "string \<Rightarrow> string \<Rightarrow> issuer_config \<Rightarrow> duration \<Rightarrow> (issuer \<Rightarrow> cloned_cluster \<Rightarrow> cloned_cluster)
    \<Rightarrow> (cloned_cluster, issuer) prog" where
  "make_issuer ns n cfg timeout set_issuer =
     bnd (wrapping ''create issuer'' (create_issuer ns n cfg False)) (\<lambda>i.
     thn (upd_st (set_issuer i))
     (bnd (wrapping ''wait for issuer'' (wait_for_ready_issuer ns n timeout)) (\<lambda>ready.
      thn (upd_st (set_issuer ready)) (ret ready))))"

definition user_cert_opts_of :: "cert_options \<Rightarrow> user_cert_options" where
  "user_cert_opts_of c = \<lparr> uco_crp_timeout = cto_crp_timeout c, uco_cert_timeout = cto_ready_timeout c \<rparr>"

definition uc_cert_name :: "user_cert \<Rightarrow> string" where
  "uc_cert_name u = (case uc_cert u of None \<Rightarrow> [] | Some c \<Rightarrow> om_name (cert_meta c))"

definition clone_cluster_body :: "string \<Rightarrow> string \<Rightarrow> string \<Rightarrow> backup \<Rightarrow> clone_cluster_options
    \<Rightarrow> (cloned_cluster, cloned_cluster) prog" where
  "clone_cluster_body ns existing new_name b opts =
     bnd (wrapping ''get existing cluster'' (get_cluster ns existing)) (\<lambda>existing_cluster.
     bnd (ask w_parse_quantity) (\<lambda>parse.
     bnd (wrapping ''parse volume size'' (lift_res (parse (cl_size existing_cluster)))) (\<lambda>sz.
     bnd (make_issuer ns (self_signed_issuer_name new_name) SelfSigned (clo_self_timeout opts) set_self_issuer) (\<lambda>self_issuer.
     bnd (wrapping ''create cluster serving cert'' (create_cloned_cluster_certificate ns (serving_cert_name new_name)
            (issuer_named (om_name (iss_meta self_issuer))) (serving_cert_options new_name ns) (clo_serving opts) set_serving_cert)) (\<lambda>serving.
     bnd (wrapping ''create client CA cert'' (create_cloned_cluster_certificate ns (client_ca_name new_name)
            (issuer_named (om_name (iss_meta self_issuer))) (client_ca_options new_name) (clo_client_ca opts) set_client_ca)) (\<lambda>client_ca.
     bnd (make_issuer ns (client_ca_issuer_name new_name) (CAIssuer (om_name (cert_meta client_ca)))
            (clo_ca_issuer_timeout opts) set_ca_issuer) (\<lambda>_.
     bnd (wrapping ''create postgres user cert'' (new_cluster_user_cert ns ''postgres''
            (issuer_named (client_ca_issuer_name new_name)) new_name (user_cert_opts_of (clo_pg_user opts)))) (\<lambda>pg_user.
     thn (upd_st (set_pg_user pg_user))
    (bnd (wrapping ''create streaming_replica user cert'' (new_cluster_user_cert ns ''streaming_replica''
            (issuer_named (client_ca_issuer_name new_name)) new_name (user_cert_opts_of (clo_repl_user opts)))) (\<lambda>repl_user.
     thn (upd_st (set_repl_user repl_user))
    (bnd (wrapping ''configure WAL recovery'' (configure_wal_recovery ns existing_cluster b)) (\<lambda>v.
     bnd (recover_clone ns new_name
            (create_clone ns new_name sz (om_name (cert_meta serving)) (om_name (cert_meta client_ca)) (uc_cert_name repl_user))
            (clone_options existing_cluster v) opts) (\<lambda>ready.
     thn (upd_st (set_cluster ready)) get_st)))))))))))))"

definition clone_cluster_from_backup :: "string \<Rightarrow> string \<Rightarrow> string \<Rightarrow> backup \<Rightarrow> clone_cluster_options
    \<Rightarrow> ('s, cloned_cluster) prog" where
  "clone_cluster_from_backup ns existing new_name b opts =
     thn (guard (length new_name \<le> 40) (errorf ''newClusterName must be 40 characters or less''))
       (with_local empty_cloned_cluster
          (err_handler ''clean up cloned cluster'' (bnd get_st delete_cloned_cluster)
             (clone_cluster_body ns existing new_name b opts)))"

section \<open>What a cloned cluster owns\<close>

definition owned_issuer :: "issuer option \<Rightarrow> objref multiset" where
  "owned_issuer i = (case i of None \<Rightarrow> {#} | Some x \<Rightarrow> {#(KIssuer, om_ns (iss_meta x), om_name (iss_meta x))#})"
definition owned_cluster :: "cluster option \<Rightarrow> objref multiset" where
  "owned_cluster c = (case c of None \<Rightarrow> {#} | Some x \<Rightarrow> {#(KCluster, om_ns (cl_meta x), om_name (cl_meta x))#})"
definition owned_user :: "user_cert option \<Rightarrow> objref multiset" where
  "owned_user u = (case u of None \<Rightarrow> {#} | Some x \<Rightarrow> owned_user_cert x)"
definition owned_crps :: "crp list \<Rightarrow> objref multiset" where
  "owned_crps ps = sum_list (map (\<lambda>p. owned_crp (Some p)) ps)"

lemma owned_cc_simps [simp]:
  "owned_issuer None = {#}" "owned_cluster None = {#}" "owned_user None = {#}" "owned_crps [] = {#}"
  "owned_issuer (Some i) = {#(KIssuer, om_ns (iss_meta i), om_name (iss_meta i))#}"
  "owned_cluster (Some c) = {#(KCluster, om_ns (cl_meta c), om_name (cl_meta c))#}"
  "owned_user (Some u) = owned_user_cert u" "owned_crps (ps @ [p]) = add_mset (KCRP, [], om_name (crp_meta p)) (owned_crps ps)"
  by (simp_all add: owned_issuer_def owned_cluster_def owned_user_def owned_crps_def)

definition owned_clone :: "cloned_cluster \<Rightarrow> objref multiset" where
  "owned_clone s = owned_cluster (cc_cluster s) + owned_user (cc_repl_user s) + owned_user (cc_pg_user s) +
     owned_issuer (cc_ca_issuer s) + owned_cert (cc_client_ca s) + owned_cert (cc_serving s) +
     owned_crps (cc_crps s) + owned_issuer (cc_self_issuer s)"

lemmas clone_setters = set_cluster_def set_self_issuer_def set_serving_cert_def set_client_ca_def
  set_ca_issuer_def set_pg_user_def set_repl_user_def add_crp_def

lemma owns_each_append: "owns_each w ms Ms \<Longrightarrow> owns_each w ns Ns \<Longrightarrow> owns_each w (ms @ ns) (Ms @ Ns)"
  by (induction w ms Ms rule: owns_each.induct) auto

lemma owns_each_single: "(\<And>d I P. owns d w I (\<lambda>s. P s + M) m P (\<lambda>_. P) (\<lambda>_. I)) \<Longrightarrow>
    (\<And>s tr. fst (snd (m w s tr)) = s) \<Longrightarrow> owns_each w [(t, m)] [M]"
  by simp

lemma owns_each_crps: "owns_each w (map (\<lambda>p. (t, delete_certificate_request_policy (om_name (crp_meta p)))) ps)
    (map (\<lambda>p. owned_crp (Some p)) ps)"
  by (induction ps) (auto simp: deletes_keep_state intro!: owns_deletes)

lemma owns_each_cloned_cluster: "\<exists>Ms. owns_each w (cloned_cluster_deletions b) Ms \<and> sum_list Ms = owned_clone b"
proof -
  let ?opt = "\<lambda>f v. (case v of None \<Rightarrow> [] | Some x \<Rightarrow> [f (Some x)])"
  let ?Ms = "?opt owned_cluster (cc_cluster b) @ ?opt owned_user (cc_repl_user b) @ ?opt owned_user (cc_pg_user b) @
     ?opt owned_issuer (cc_ca_issuer b) @ ?opt owned_cert (cc_client_ca b) @ ?opt owned_cert (cc_serving b) @
     map (\<lambda>p. owned_crp (Some p)) (cc_crps b) @ ?opt owned_issuer (cc_self_issuer b)"
  have "owns_each w (cloned_cluster_deletions b) ?Ms"
    unfolding cloned_cluster_deletions_def
    by (intro owns_each_append owns_each_crps)
      (auto simp: deletes_keep_state delete_user_cert_state intro: owns_deletes owns_delete_user_cert split: option.splits)
  moreover have "sum_list ?Ms = owned_clone b"
    unfolding owned_clone_def owned_crps_def by (simp split: option.splits)
  ultimately show ?thesis by blast
qed

lemma owns_delete_cloned_cluster:
  "owns d w I (\<lambda>s. P s + owned_clone b) (delete_cloned_cluster b) P (\<lambda>_. P) (\<lambda>_. I)"
  using owns_each_cloned_cluster [of w b] owns_cleanup_errors unfolding delete_cloned_cluster_def by metis

lemma delete_cloned_cluster_state: "fst (snd (delete_cloned_cluster b w s tr)) = s"
  using owns_each_cloned_cluster [of w b] cleanup_errors_state unfolding delete_cloned_cluster_def by metis

text \<open>The fields that step k and the later steps fill in are still empty.\<close>
definition empty_from :: "nat \<Rightarrow> cloned_cluster \<Rightarrow> bool" where
  "empty_from k s \<longleftrightarrow> (k \<le> 0 \<longrightarrow> cc_self_issuer s = None) \<and> (k \<le> 1 \<longrightarrow> cc_serving s = None) \<and>
     (k \<le> 2 \<longrightarrow> cc_client_ca s = None) \<and> (k \<le> 3 \<longrightarrow> cc_ca_issuer s = None) \<and>
     (k \<le> 4 \<longrightarrow> cc_pg_user s = None) \<and> (k \<le> 5 \<longrightarrow> cc_repl_user s = None) \<and> (k \<le> 6 \<longrightarrow> cc_cluster s = None)"

definition holds_issuer :: "string \<Rightarrow> string \<Rightarrow> issuer option \<Rightarrow> bool" where
  "holds_issuer ns n v \<longleftrightarrow> (\<exists>i. v = Some i \<and> om_ns (iss_meta i) = ns \<and> om_name (iss_meta i) = n)"

definition holds_cert :: "string \<Rightarrow> string \<Rightarrow> certificate option \<Rightarrow> bool" where
  "holds_cert ns n v \<longleftrightarrow> (\<exists>c. v = Some c \<and> om_ns (cert_meta c) = ns \<and> om_name (cert_meta c) = n)"

lemma owns_make_issuer:
  assumes w: "world_ok w" and n: "n \<noteq> []"
    and fresh: "\<And>i s. I s \<Longrightarrow> om_ns (iss_meta i) = ns \<Longrightarrow> om_name (iss_meta i) = n \<Longrightarrow>
        owned_clone (set_issuer i s) = add_mset (KIssuer, ns, n) (owned_clone s) \<and> J (set_issuer i s)"
    and again: "\<And>i s. J s \<Longrightarrow> om_ns (iss_meta i) = ns \<Longrightarrow> om_name (iss_meta i) = n \<Longrightarrow>
        owned_clone (set_issuer i s) = owned_clone s \<and> J (set_issuer i s)"
  shows "owns d w I owned_clone (make_issuer ns n cfg t set_issuer) owned_clone (\<lambda>_. owned_clone) (\<lambda>_. J)"
  unfolding make_issuer_def
  apply (rule owns_bnd, rule owns_wrapping, rule owns_create_issuer [OF w n])
  subgoal for i
    apply (rule owns_thn [where Gm = "\<lambda>_. owned_clone" and Qm = "\<lambda>_. J"])
     apply (rule owns_upd_st)
    subgoal for s using fresh [of s i] by auto
    apply (rule owns_bnd, rule owns_wrapping, rule owns_wait_ready_issuer [OF w])
    subgoal for ready
      apply (rule owns_thn [where Gm = "\<lambda>_. owned_clone" and Qm = "\<lambda>_. J"])
       apply (rule owns_upd_st)
      subgoal for s using again [of s ready] by auto
      apply (rule owns_ret, simp)
      done
    done
  done

lemma owns_make_cert:
  assumes w: "world_ok w" and r: "policies_become_ready w" and n: "n \<noteq> []" and o: "\<not> cce_generate cert_opts"
    and fresh: "\<And>c s. I s \<Longrightarrow> om_ns (cert_meta c) = ns \<Longrightarrow> om_name (cert_meta c) = n \<Longrightarrow>
        owned_clone (set_cert c s) = add_mset (KCertificate, ns, n) (owned_clone s) \<and> J (set_cert c s)"
    and again: "\<And>c s. J s \<Longrightarrow> om_ns (cert_meta c) = ns \<Longrightarrow> om_name (cert_meta c) = n \<Longrightarrow>
        owned_clone (set_cert c s) = owned_clone s \<and> J (set_cert c s)"
    and crp: "\<And>p s. J s \<Longrightarrow> J (add_crp p s)"
  shows "owns d w I owned_clone (create_cloned_cluster_certificate ns n ref cert_opts opts set_cert) owned_clone
     (\<lambda>_. owned_clone) (\<lambda>_. J)"
  unfolding create_cloned_cluster_certificate_def
  apply (rule owns_bnd, rule owns_wrapping, rule owns_create_certificate [OF w o n])
  subgoal for c
    apply (rule owns_thn [where Gm = "\<lambda>_. owned_clone" and Qm = "\<lambda>_ s. J s \<and> om_ns (cert_meta c) = ns \<and> om_name (cert_meta c) = n"])
     apply (rule owns_upd_st)
    subgoal for s using fresh [of s c] by auto
    apply (rule owns_bnd [OF owns_policy_and_reissue [OF w r, where I' = "\<lambda>s. J s \<and> om_ns (cert_meta c) = ns \<and> om_name (cert_meta c) = n"]])
    subgoal for p s using crp [of s p] by (simp add: owned_clone_def add_crp_def)
    subgoal for c2 s using again [of s c2] by simp
     apply simp
    apply (rule owns_bnd, rule owns_wrapping, rule owns_wait_ready_certificate [OF w])
    subgoal for c2 ready
      apply (rule owns_thn [where Gm = "\<lambda>_. owned_clone" and Qm = "\<lambda>_. J"])
       apply (rule owns_upd_st)
      subgoal for s using again [of s ready] by auto
      apply (rule owns_ret, simp)
      done
    done
  done

section \<open>Ownership of the recovery\<close>

definition holds_cluster :: "string \<Rightarrow> string \<Rightarrow> cluster option \<Rightarrow> bool" where
  "holds_cluster ns n v \<longleftrightarrow> (\<exists>c. v = Some c \<and> om_ns (cl_meta c) = ns \<and> om_name (cl_meta c) = n)"

text \<open>Everything but the CNPG cluster itself.\<close>
definition owned_rest :: "cloned_cluster \<Rightarrow> objref multiset" where
  "owned_rest s = owned_clone (s\<lparr>cc_cluster := None\<rparr>)"

lemma owned_rest_le: "owned_rest s \<subseteq># owned_clone s"
  by (simp add: owned_rest_def owned_clone_def)

lemma owned_rest_add: "holds_cluster ns n (cc_cluster s) \<Longrightarrow> owned_clone s = add_mset (KCluster, ns, n) (owned_rest s)"
  by (auto simp: owned_rest_def owned_clone_def holds_cluster_def)

lemma owned_set_cluster: "owned_clone (set_cluster c s) = add_mset (KCluster, om_ns (cl_meta c), om_name (cl_meta c)) (owned_rest s)"
  by (simp add: owned_rest_def owned_clone_def set_cluster_def)

lemma owns_create_clone:
  assumes w: "world_ok w" and n: "new_name \<noteq> []" and g: "\<not> cco_generate opts"
  shows "owns AtMost w (\<lambda>_. True) owned_rest (create_clone ns new_name sz sv ca rp opts) owned_clone (\<lambda>_. owned_clone)
     (\<lambda>_ s. holds_cluster ns new_name (cc_cluster s))"
proof -
  have c: "owns AtMost w (\<lambda>_. True) owned_rest (create_cluster ns new_name sz sv ca rp opts) owned_clone
     (\<lambda>c s. add_mset (KCluster, ns, om_name (cl_meta c)) (owned_rest s)) (\<lambda>c _. om_ns (cl_meta c) = ns \<and> om_name (cl_meta c) = new_name)"
    by (rule owns_conseq_subset [OF owns_create_cluster [OF w g n]]) (auto simp: owned_rest_le)
  show ?thesis
    unfolding create_clone_def
    by (rule owns_bnd, rule owns_wrapping, rule c, rule owns_upd_st)
      (simp add: owned_set_cluster holds_cluster_def, simp add: set_cluster_def)
qed

lemma owns_fallback:
  assumes w: "world_ok w" and n: "new_name \<noteq> []" and g: "\<not> cco_generate copts"
  shows "owns AtMost w (\<lambda>s. holds_cluster ns new_name (cc_cluster s)) owned_clone
     (recover_fallback ns new_name (create_clone ns new_name sz sv ca rp) copts opts) owned_clone (\<lambda>_. owned_clone)
     (\<lambda>c s. holds_cluster ns new_name (cc_cluster s) \<and> om_ns (cl_meta c) = ns \<and> om_name (cl_meta c) = new_name \<and> is_cluster_ready c)"
proof -
  let ?K = "(KCluster, ns, new_name)"
  have del: "owns AtMost w (\<lambda>s. holds_cluster ns new_name (cc_cluster s)) owned_clone (delete_cluster ns new_name) owned_clone
      (\<lambda>_. owned_rest) (\<lambda>_ _. True)"
    by (rule owns_conseq_subset [OF owns_deletes(4) [where P = owned_rest and I = "\<lambda>_. True"]])
      (auto simp: owned_rest_add owned_rest_le)
  have wait: "owns AtMost w (\<lambda>_. True) owned_rest (wait_for_cluster_deleted ns new_name t) owned_clone (\<lambda>_. owned_rest) (\<lambda>_ _. True)" for t
    by (rule owns_conseq_subset [OF owns_wait_cluster_deleted [where P = owned_rest and I = "\<lambda>_. True"]]) (auto simp: owned_rest_le)
  have g': "\<not> cco_generate (with_target_time [] copts)" using g by (simp add: with_target_time_def)
  show ?thesis
    unfolding recover_fallback_def
    apply (rule owns_thn [OF owns_wrapping [OF del]])
    apply (rule owns_thn [OF owns_wrapping [OF wait]])
    apply (rule owns_thn [OF owns_create_clone [OF w n g']])
    apply (rule owns_wrapping, rule owns_weaken, rule owns_wait_ready_cluster [OF w], auto)
    done
qed

text \<open>Waits do not touch the receiver.\<close>
definition keeps_state :: "('s, 'a) prog \<Rightarrow> bool" where
  "keeps_state m \<longleftrightarrow> (\<forall>w s tr. fst (snd (m w s tr)) = s)"

lemma keeps_state_bnd: "keeps_state m \<Longrightarrow> (\<And>x. keeps_state (f x)) \<Longrightarrow> keeps_state (bnd m f)"
  by (auto simp: keeps_state_def prog_simps split: prod.splits sum.splits) (metis fst_conv snd_conv)+

lemma keeps_state_thn: "keeps_state m \<Longrightarrow> keeps_state n \<Longrightarrow> keeps_state (thn m n)"
  by (simp add: thn_def keeps_state_bnd)

lemma keeps_state_wrapping: "keeps_state m \<Longrightarrow> keeps_state (wrapping t m)"
  by (auto simp: keeps_state_def prog_simps split: prod.splits sum.splits) (metis fst_conv snd_conv)+

lemma keeps_state_map_error: "keeps_state m \<Longrightarrow> keeps_state (map_error f m)"
  by (auto simp: keeps_state_def map_error_def split: prod.splits sum.splits) (metis fst_conv snd_conv)+

lemma keeps_state_basic: "keeps_state (ret x)" "keeps_state (deref v)"
    "keeps_state (wait_for_resource_condition K api t ns sel pe acc)"
  by (auto simp: keeps_state_def deref_def wait_for_resource_condition_def prog_simps split: option.splits)

lemma wait_for_clone_recovery_state: "keeps_state (wait_for_clone_recovery ns n opts)"
  unfolding wait_for_clone_recovery_def wait_for_job_completion_def wait_for_ready_cluster_def
  by (cases "clo_target_time opts \<noteq> []")
    (simp_all add: keeps_state_thn keeps_state_bnd keeps_state_wrapping keeps_state_map_error keeps_state_basic)

lemma owns_map_error: "owns d w I P m F G Q \<Longrightarrow> owns d w I P (map_error f m) F G Q"
proof (rule ownsI)
  fix s tr base r s' tr'
  assume O: "owns d w I P m F G Q" and I: "I s" and o1: "within d (outstanding tr) (base + P s)"
    and run: "map_error f m w s tr = (r, s', tr')"
  obtain rm where m: "m w s tr = (rm, s', tr')" "r = (case rm of Inl e \<Rightarrow> Inl (f e) | Inr x \<Rightarrow> Inr x)"
    using run by (auto simp: map_error_def split: prod.splits sum.splits)
  show "case r of Inl _ \<Rightarrow> within d (outstanding tr') (base + F s')
       | Inr x \<Rightarrow> within d (outstanding tr') (base + G x s') \<and> Q x s'"
    using owns_err [OF O _ I o1] owns_ok [OF O _ I o1] m by (cases rm) auto
qed

lemma owns_wait_for_clone_recovery:
  assumes w: "world_ok w"
  shows "owns d w I P (wait_for_clone_recovery ns n opts) P (\<lambda>_. P)
     (\<lambda>c s. I s \<and> is_cluster_ready c \<and> om_ns (cl_meta c) = ns \<and> om_name (cl_meta c) = n)"
  unfolding wait_for_clone_recovery_def
  apply (rule owns_thn [where Gm = "\<lambda>_. P" and Qm = "\<lambda>_. I"])
   apply (cases "clo_target_time opts \<noteq> []"; simp)
    apply (rule owns_bnd, rule owns_map_error, rule owns_wait_job, rule owns_ret, simp)
   apply (rule owns_ret, simp)
  apply (rule owns_wait_ready_cluster [OF w])
  done

lemma owns_recover_clone:
  assumes w: "world_ok w" and n: "new_name \<noteq> []" and g: "\<not> cco_generate copts"
  shows "owns AtMost w (\<lambda>s. cc_cluster s = None) owned_clone
     (recover_clone ns new_name (create_clone ns new_name sz sv ca rp) copts opts) owned_clone (\<lambda>_. owned_clone)
     (\<lambda>c s. holds_cluster ns new_name (cc_cluster s) \<and> om_ns (cl_meta c) = ns \<and> om_name (cl_meta c) = new_name \<and> is_cluster_ready c)"
  unfolding recover_clone_def
proof (rule owns_thn)
  let ?hold = "\<lambda>s. holds_cluster ns new_name (cc_cluster s)"
  have g': "\<not> cco_generate (with_target_time t copts)" for t using g by (simp add: with_target_time_def)
  show "owns AtMost w (\<lambda>s. cc_cluster s = None) owned_clone
      (create_clone ns new_name sz sv ca rp (with_target_time (clo_target_time opts) copts)) owned_clone
      (\<lambda>_. owned_clone) (\<lambda>_ s. ?hold s)"
    by (rule owns_conseq [OF owns_create_clone [OF w n g']]) (auto simp: owned_rest_def owned_clone_def)
  let ?wait = "wait_for_clone_recovery ns new_name opts"
  let ?fb = "recover_fallback ns new_name (create_clone ns new_name sz sv ca rp) copts opts"
  show "owns AtMost w ?hold owned_clone (\<lambda>w s tr. case ?wait w s tr of
         (Inr c, s', tr') \<Rightarrow> (Inr c, s', tr')
       | (Inl e, s', tr') \<Rightarrow>
           if \<not> errors_is e err_recovery_target_not_reached
           then (Inl (WrapErr ''wait for new PITR cluster'' e), s', tr') else ?fb w s' tr') owned_clone (\<lambda>_. owned_clone)
     (\<lambda>c s. ?hold s \<and> om_ns (cl_meta c) = ns \<and> om_name (cl_meta c) = new_name \<and> is_cluster_ready c)"
  proof (rule ownsI)
    fix s tr base r s' tr'
    assume I: "?hold s" and o1: "within AtMost (outstanding tr) (base + owned_clone s)"
      and run: "(case ?wait w s tr of (Inr c, s', tr') \<Rightarrow> (Inr c, s', tr')
       | (Inl e, s', tr') \<Rightarrow>
           if \<not> errors_is e err_recovery_target_not_reached
           then (Inl (WrapErr ''wait for new PITR cluster'' e), s', tr') else ?fb w s' tr') = (r, s', tr')"
    obtain rw s1 tr1 where wt: "?wait w s tr = (rw, s1, tr1)" by (metis prod_cases3)
    have s1: "s1 = s" using wait_for_clone_recovery_state [of ns new_name opts] wt unfolding keeps_state_def
      by (metis fst_conv snd_conv)
    note W = owns_wait_for_clone_recovery [OF w, of AtMost ?hold owned_clone ns new_name opts]
    show "case r of Inl _ \<Rightarrow> within AtMost (outstanding tr') (base + owned_clone s')
       | Inr c \<Rightarrow> within AtMost (outstanding tr') (base + owned_clone s') \<and> ?hold s' \<and> om_ns (cl_meta c) = ns \<and>
           om_name (cl_meta c) = new_name \<and> is_cluster_ready c"
    proof (cases rw)
      case (Inr c)
      with owns_ok [OF W wt [unfolded Inr] I o1] run wt show ?thesis by auto
    next
      case (Inl e)
      from owns_err [OF W wt [unfolded Inl] I o1] have o2: "within AtMost (outstanding tr1) (base + owned_clone s1)" .
      show ?thesis
      proof (cases "errors_is e err_recovery_target_not_reached")
        case False
        with run wt Inl o2 show ?thesis by auto
      next
        case True
        with run wt Inl have fb: "?fb w s1 tr1 = (r, s', tr')" by simp
        note F = owns_fallback [OF w n g, of ns sz sv ca rp opts]
        have I1: "?hold s1" using I s1 by simp
        show ?thesis
        proof (cases r)
          case Inl2: (Inl e2)
          from owns_err [OF F fb [unfolded Inl2] I1 o2] Inl2 show ?thesis by simp
        next
          case Inr2: (Inr c)
          from owns_ok [OF F fb [unfolded Inr2] I1 o2] Inr2 show ?thesis by simp
        qed
      qed
    qed
  qed
qed

section \<open>Ownership of the clone\<close>

lemma clone_names_ne: "self_signed_issuer_name n \<noteq> []" "client_ca_name n \<noteq> []" "client_ca_issuer_name n \<noteq> []"
    "serving_cert_name n \<noteq> []"
proof -
  have ne: "clean_name (p @ q @ [c]) \<noteq> []" if "c \<notin> set replace_chars" "lower_char c = c" "c \<noteq> CHR ''-''" for p q c
    using clean_name_snoc [OF that, of "p @ q"] by simp
  show "self_signed_issuer_name n \<noteq> []" unfolding self_signed_issuer_name_def
    using ne [of "CHR ''r''" n "''-self-signed-issue''"] by (simp add: replace_chars_def lower_char_def)
  show "client_ca_name n \<noteq> []" unfolding client_ca_name_def
    using ne [of "CHR ''a''" n "''-client-c''"] by (simp add: replace_chars_def lower_char_def)
  show "client_ca_issuer_name n \<noteq> []" unfolding client_ca_issuer_name_def
    using ne [of "CHR ''r''" "client_ca_name n" "''-issue''"] by (simp add: replace_chars_def lower_char_def)
  show "serving_cert_name n \<noteq> []" unfolding serving_cert_name_def
    using ne [of "CHR ''t''" _ "''-serving-cer''"] by (simp add: replace_chars_def lower_char_def)
qed

lemma owns_resolve: "owns d w I P (resolve_barman_server_name ns n plugin st) P (\<lambda>_. P) (\<lambda>_. I)"
  unfolding resolve_barman_server_name_def
  by (cases "plugin_param plugin ''serverName'' = []"; simp)
    (rule owns_bnd, rule owns_wrapping, rule owns_plain_gets(3), rule owns_ret, simp, rule owns_ret, simp)

lemma owns_configure_wal_recovery: "owns d w I P (configure_wal_recovery ns c b) P (\<lambda>_. P) (\<lambda>_. I)"
  unfolding configure_wal_recovery_def Let_def
  apply (cases "find_barman_cloud_wal_archiver c")
   apply (simp, rule owns_fail, simp)
  subgoal for plugin
    apply (cases "plugin_param plugin ''barmanObjectName'' = []"; simp)
     apply (rule owns_fail, simp)
    apply (rule owns_bnd, rule owns_wrapping, rule owns_resolve)
    apply (auto split: prod.splits intro: owns_fail owns_ret)
    done
  done

text \<open>The state between the steps: what was just recorded, and what is still empty.\<close>
definition after_self :: "string \<Rightarrow> string \<Rightarrow> cloned_cluster \<Rightarrow> bool" where
  "after_self ns n s \<longleftrightarrow> holds_issuer ns n (cc_self_issuer s) \<and> empty_from 1 s"
definition after_serving :: "string \<Rightarrow> string \<Rightarrow> cloned_cluster \<Rightarrow> bool" where
  "after_serving ns n s \<longleftrightarrow> holds_cert ns n (cc_serving s) \<and> empty_from 2 s"
definition after_client_ca :: "string \<Rightarrow> string \<Rightarrow> cloned_cluster \<Rightarrow> bool" where
  "after_client_ca ns n s \<longleftrightarrow> holds_cert ns n (cc_client_ca s) \<and> empty_from 3 s"
definition after_ca_issuer :: "string \<Rightarrow> string \<Rightarrow> cloned_cluster \<Rightarrow> bool" where
  "after_ca_issuer ns n s \<longleftrightarrow> holds_issuer ns n (cc_ca_issuer s) \<and> empty_from 4 s"

lemmas after_defs = after_self_def after_serving_def after_client_ca_def after_ca_issuer_def
  holds_issuer_def holds_cert_def empty_from_def owned_clone_def clone_setters

lemma owned_step:
  "after_ca_issuer ns n s \<Longrightarrow> owned_clone (set_pg_user u s) = owned_clone s + owned_user_cert u \<and> empty_from 5 (set_pg_user u s)"
  "empty_from 5 s \<Longrightarrow> owned_clone (set_repl_user u s) = owned_clone s + owned_user_cert u \<and> empty_from 6 (set_repl_user u s)"
  by (auto simp: after_defs)

lemma fresh_issuer:
  assumes "om_ns (iss_meta i) = ns" "om_name (iss_meta i) = n"
  shows "s = empty_cloned_cluster \<Longrightarrow> owned_clone (set_self_issuer i s) = add_mset (KIssuer, ns, n) (owned_clone s) \<and> after_self ns n (set_self_issuer i s)"
    and "after_client_ca ns' n' s \<Longrightarrow> owned_clone (set_ca_issuer i s) = add_mset (KIssuer, ns, n) (owned_clone s) \<and> after_ca_issuer ns n (set_ca_issuer i s)"
    and "after_self ns n s \<Longrightarrow> owned_clone (set_self_issuer i s) = owned_clone s \<and> after_self ns n (set_self_issuer i s)"
    and "after_ca_issuer ns n s \<Longrightarrow> owned_clone (set_ca_issuer i s) = owned_clone s \<and> after_ca_issuer ns n (set_ca_issuer i s)"
  using assms by (auto simp: after_defs empty_cloned_cluster_def)

lemma fresh_cert:
  assumes "om_ns (cert_meta c) = ns" "om_name (cert_meta c) = n"
  shows "after_self ns' n' s \<Longrightarrow> owned_clone (set_serving_cert c s) = add_mset (KCertificate, ns, n) (owned_clone s) \<and> after_serving ns n (set_serving_cert c s)"
    and "after_serving ns' n' s \<Longrightarrow> owned_clone (set_client_ca c s) = add_mset (KCertificate, ns, n) (owned_clone s) \<and> after_client_ca ns n (set_client_ca c s)"
    and "after_serving ns n s \<Longrightarrow> owned_clone (set_serving_cert c s) = owned_clone s \<and> after_serving ns n (set_serving_cert c s)"
    and "after_client_ca ns n s \<Longrightarrow> owned_clone (set_client_ca c s) = owned_clone s \<and> after_client_ca ns n (set_client_ca c s)"
  using assms by (auto simp: after_defs)

lemma after_add_crp: "after_serving ns n s \<Longrightarrow> after_serving ns n (add_crp p s)"
    "after_client_ca ns n s \<Longrightarrow> after_client_ca ns n (add_crp p s)"
  by (auto simp: after_defs)

lemma owned_clone_empty: "owned_clone empty_cloned_cluster = {#}"
  by (simp add: owned_clone_def empty_cloned_cluster_def)

lemma owns_clone_cluster_body:
  assumes w: "world_ok w" and r: "policies_become_ready w" and n: "new_name \<noteq> []"
  shows "owns AtMost w (\<lambda>s. s = empty_cloned_cluster) owned_clone (clone_cluster_body ns existing new_name b opts) owned_clone
     (\<lambda>c _. owned_clone c) (\<lambda>c _. \<exists>x. cc_cluster c = Some x \<and> is_cluster_ready x \<and> om_ns (cl_meta x) = ns \<and> om_name (cl_meta x) = new_name)"
  unfolding clone_cluster_body_def
  apply (rule owns_bnd, rule owns_wrapping, rule owns_get_cluster [OF w])
  apply (rule owns_bnd, rule owns_steps(1))
  apply (rule owns_bnd, rule owns_wrapping, rule owns_steps(4))
  apply (rule owns_bnd, rule owns_make_issuer [OF w clone_names_ne(1), where J = "after_self ns (self_signed_issuer_name new_name)"])
    apply (rule fresh_issuer(1), assumption, assumption, simp)
   apply (rule fresh_issuer(3), assumption, assumption, assumption)
  apply (rule owns_bnd, rule owns_wrapping, rule owns_make_cert [OF w r clone_names_ne(4),
        where J = "after_serving ns (serving_cert_name new_name)"])
      apply (simp add: serving_cert_options_def)
     apply (rule fresh_cert(1), assumption, assumption, assumption)
    apply (rule fresh_cert(3), assumption, assumption, assumption)
   apply (erule after_add_crp)
  apply (rule owns_bnd, rule owns_wrapping, rule owns_make_cert [OF w r clone_names_ne(2),
        where J = "after_client_ca ns (client_ca_name new_name)"])
      apply (simp add: client_ca_options_def)
     apply (rule fresh_cert(2), assumption, assumption, assumption)
    apply (rule fresh_cert(4), assumption, assumption, assumption)
   apply (erule after_add_crp)
  apply (rule owns_bnd, rule owns_make_issuer [OF w clone_names_ne(3), where J = "after_ca_issuer ns (client_ca_issuer_name new_name)"])
    apply (rule fresh_issuer(2), assumption, assumption, assumption)
   apply (rule fresh_issuer(4), assumption, assumption, assumption)
  apply (rule owns_bnd, rule owns_wrapping, rule owns_new_cluster_user_cert [OF w r])
  subgoal for existing_cluster parse sz self_issuer serving client_ca ca_issuer pg_user
    apply (rule owns_thn [where Gm = "\<lambda>_. owned_clone" and Qm = "\<lambda>_. empty_from 5"])
     apply (rule owns_upd_st)
    subgoal for s using owned_step(1) [of ns _ s pg_user] by auto
    apply (rule owns_bnd, rule owns_wrapping, rule owns_new_cluster_user_cert [OF w r])
    subgoal for repl_user
      apply (rule owns_thn [where Gm = "\<lambda>_. owned_clone" and Qm = "\<lambda>_. empty_from 6"])
       apply (rule owns_upd_st)
      subgoal for s using owned_step(2) [of s repl_user] by auto
      apply (rule owns_bnd, rule owns_wrapping, rule owns_configure_wal_recovery)
      subgoal for v
        apply (rule owns_bnd [OF owns_conseq [OF owns_recover_clone [OF w n]]])
            apply (simp add: clone_options_def)
           apply (simp add: empty_from_def)
          apply (rule refl)
         apply (rule conjI [OF refl], assumption)
        subgoal for ready
          apply (rule owns_thn [where Gm = "\<lambda>_. owned_clone" and Qm = "\<lambda>_ s. cc_cluster s = Some ready \<and> om_ns (cl_meta ready) = ns \<and>
              om_name (cl_meta ready) = new_name \<and> is_cluster_ready ready"])
           apply (rule owns_upd_st)
          subgoal for s using owned_rest_add [of ns new_name s] by (simp add: owned_set_cluster) (simp add: set_cluster_def)
          apply (rule owns_get_st, simp)
          done
        done
      done
    done
  done

lemma owns_clone_cluster [owns_rules]:
  assumes w: "world_ok w" and p: "policies_become_ready w" and n: "new_name \<noteq> []"
  shows "owns AtMost w I P (clone_cluster_from_backup ns existing new_name b opts) P (\<lambda>c s. P s + owned_clone c)
     (\<lambda>c s. I s \<and> (\<exists>x. cc_cluster c = Some x \<and> is_cluster_ready x \<and> om_ns (cl_meta x) = ns \<and> om_name (cl_meta x) = new_name))"
proof -
  let ?ready = "\<lambda>c. \<exists>x. cc_cluster c = Some x \<and> is_cluster_ready x \<and> om_ns (cl_meta x) = ns \<and> om_name (cl_meta x) = new_name"
  note body = owns_conseq [OF owns_clone_cluster_body [OF w p n], where I = "\<lambda>s. s = empty_cloned_cluster" and P = "\<lambda>_. {#}"
      and F = owned_clone and G = "\<lambda>c _. owned_clone c" and Q = "\<lambda>c _. ?ready c"]
  show ?thesis
    unfolding clone_cluster_from_backup_def
    apply (rule owns_thn, rule owns_steps(2))
    apply (rule owns_conseq [OF owns_with_local])
       apply (rule owns_err_handler [OF body disposes_own [OF owns_delete_cloned_cluster]])
         apply (auto simp: owned_clone_empty)
    done
qed


lemma owns_create_cluster_backup [owns_rules]:
  assumes w: "world_ok w"
  shows "owns d w I P (create_cluster_backup ns existing opts) P (\<lambda>b s. add_mset (KBackup, ns, om_name (bk_meta b)) (P s))
     (\<lambda>b s. I s \<and> bk_phase b = PhaseCompleted)"
  unfolding create_cluster_backup_def
  apply (rule owns_bnd, rule owns_wrapping, rule owns_create_backup [OF w])
  subgoal for b
    apply (rule owns_deferred [where Gm = "\<lambda>x s. add_mset (KBackup, ns, om_name (bk_meta x)) (P s)"
          and Qm = "\<lambda>x s. I s \<and> bk_phase x = PhaseCompleted"
          and ?F1.0 = "\<lambda>s. add_mset (KBackup, ns, om_name (bk_meta b)) (P s)"])
      apply (rule owns_wrapping, rule owns_conseq, rule owns_wait_ready_backup [OF w, where I = I and
            P = "\<lambda>s. add_mset (KBackup, ns, om_name (bk_meta b)) (P s)"])
        apply auto [3]
     apply (simp add: disposes_def, rule owns_weaken, rule owns_deletes, simp)
    apply (simp, rule owns_ret, simp)
    done
  done

text \<open>C28: a backup of a cluster that could not be completed has been deleted again; a returned backup is
  complete and is the only thing left.\<close>
theorem create_cluster_backup_owns:
  assumes w: "world_ok w" and run: "create_cluster_backup ns existing opts w s tr = (r, s', tr')"
  shows "case r of Inl _ \<Rightarrow> outstanding tr' = outstanding tr
    | Inr b \<Rightarrow> outstanding tr' = outstanding tr + {#(KBackup, ns, om_name (bk_meta b))#} \<and> bk_phase b = PhaseCompleted"
proof -
  note O = owns_create_cluster_backup [OF w, where d = Exactly and I = "\<lambda>_. True" and P = "\<lambda>_. {#}"]
  show ?thesis
  proof (cases r)
    case (Inl e)
    from owns_err [OF O run [unfolded Inl]] Inl show ?thesis by simp
  next
    case (Inr b)
    from owns_ok [OF O run [unfolded Inr]] Inr show ?thesis by simp
  qed
qed

text \<open>C38: the WAL archiver is the first barman-cloud plugin marked as archiver, otherwise the first one.\<close>
theorem find_barman_cloud_wal_archiver_result:
  "find_barman_cloud_wal_archiver c =
     (let barman = filter (\<lambda>p. pl_name p = barman_cloud_plugin_name) (cl_plugins c) in
      case List.find (\<lambda>p. pl_archiver p = Some True) barman of
        Some p \<Rightarrow> Some p
      | None \<Rightarrow> (case barman of [] \<Rightarrow> None | p # _ \<Rightarrow> Some p))"
proof -
  have "find_archiver acc ps = (let barman = filter (\<lambda>p. pl_name p = barman_cloud_plugin_name) ps in
      case List.find (\<lambda>p. pl_archiver p = Some True) barman of
        Some p \<Rightarrow> Some p
      | None \<Rightarrow> (case acc of Some q \<Rightarrow> Some q | None \<Rightarrow> (case barman of [] \<Rightarrow> None | p # _ \<Rightarrow> Some p)))" for acc ps
    by (induction acc ps rule: find_archiver.induct) (auto simp: Let_def split: option.splits)
  from this [of None "cl_plugins c"] show ?thesis
    unfolding find_barman_cloud_wal_archiver_def by (simp only: option.case)
qed

section \<open>A clone in the sample world\<close>

definition sample_clone_options :: clone_cluster_options where
  "sample_clone_options = (let c = \<lparr> cto_crp_timeout = 0, cto_ready_timeout = 0 \<rparr> in
     \<lparr> clo_backup_timeout = 0, clo_self_timeout = 0, clo_serving = c, clo_client_ca = c, clo_pg_user = c,
       clo_repl_user = c, clo_ca_issuer_timeout = 0, clo_target_time = ''2024-01-01T00:00:00Z'',
       clo_cluster_timeout = 0, clo_cleanup = 0 \<rparr>)"

definition sample_ready_backup :: backup where
  "sample_ready_backup = sample_backup\<lparr>bk_phase := PhaseCompleted, bk_meta := empty_meta\<lparr>om_ns := ''ns'', om_name := ''b''\<rparr>\<rparr>"

lemma sample_policies: "policies_become_ready sample_world"
  by (simp add: policies_become_ready_def sample_world_def sample_api_def by_name_def run_wait_def until_with_sync_def
      crp_processor_def ready_condition_def)

lemma sample_clone_succeeds:
  "\<not> isl (fst (clone_cluster_from_backup ''ns'' ''pg'' ''pg-clone'' sample_ready_backup sample_clone_options sample_world () []))"
  by code_simp


theorem create_cluster_backup_owns_witness:
  "\<exists>b tr'. create_cluster_backup ''ns'' ''pg'' sample_clone_options sample_world () [] = (Inr b, (), tr') \<and>
     outstanding tr' = {#(KBackup, ''ns'', om_name (bk_meta b))#} \<and> bk_phase b = PhaseCompleted"
proof -
  obtain r u tr' where run: "create_cluster_backup ''ns'' ''pg'' sample_clone_options sample_world () [] = (r, u, tr')"
    by (metis prod_cases3)
  have "\<not> isl (fst (create_cluster_backup ''ns'' ''pg'' sample_clone_options sample_world () []))" by code_simp
  with run obtain b where r: "r = Inr b" by (cases r) auto
  from create_cluster_backup_owns [OF sample_world_ok run] r run show ?thesis by simp
qed

end
