(* ===== verification/Files.thy ===== *)
theory Files
  imports SampleWorld Paths
begin

text \<open>
  \<^verbatim>\<open>src/pkg/files\<close>: the filters and the copy and mirror operations on a directory tree.  The
  glob matcher (doublestar) and the tree copier (otiai10/copy) are third-party code: parameters of
  the environment, the copier with the contract \<^verbatim>\<open>merges\<close>.  The properties are that a
  successful sync leaves the filtered view of the source and nothing the source does not have, and
  what happens when a directory of an earlier sync has become a file.
\<close>

section \<open>The tree\<close>

datatype node = Regular string | Symlink string | Special | Directory "(string \<times> node) list"

definition is_dir :: "node \<Rightarrow> bool" where
  "is_dir n = (case n of Directory _ \<Rightarrow> True | _ \<Rightarrow> False)"

lemma is_dir_simps [simp]:
  "is_dir (Directory es)" "\<not> is_dir (Regular d)" "\<not> is_dir (Symlink t)" "\<not> is_dir Special"
  by (simp_all add: is_dir_def)

fun lookup :: "node \<Rightarrow> string list \<Rightarrow> node option" where
  "lookup n [] = Some n"
| "lookup (Directory es) (c # cs) = (case map_of es c of None \<Rightarrow> None | Some m \<Rightarrow> lookup m cs)"
| "lookup n (c # cs) = None"

text \<open>What a node is, apart from the entries of a directory.\<close>
definition shape :: "node \<Rightarrow> node" where
  "shape n = (case n of Directory _ \<Rightarrow> Directory [] | _ \<Rightarrow> n)"

lemma shape_leaf [simp]:
  "shape n = Symlink l \<longleftrightarrow> n = Symlink l" "shape n = Special \<longleftrightarrow> n = Special" "shape (Symlink l) = Symlink l" "shape Special = Special"
  by (cases n; simp add: shape_def)+

section \<open>filter.go\<close>

record file_pattern = fp_glob :: string

record file_filter =
  ff_include :: "file_pattern list"
  ff_exclude :: "file_pattern list"

text \<open>
  The answers of the libraries and of the file system; a path is the list of its components
  below the root of the sync.
\<close>
record file_env =
  fe_valid :: "string \<Rightarrow> bool"                 \<comment> \<open>doublestar.ValidatePattern\<close>
  fe_match :: "string \<Rightarrow> string \<Rightarrow> bool"       \<comment> \<open>doublestar.Match, False on a malformed pattern\<close>
  fe_src :: "goerr + node"                      \<comment> \<open>Lstat of the source, and the tree there\<close>
  fe_dest_err :: error                          \<comment> \<open>an Lstat error of the destination but not-exist\<close>
  fe_lstat :: "string list \<Rightarrow> error"            \<comment> \<open>an Lstat error below the source but not-exist\<close>
  fe_through :: "string list \<Rightarrow> goerr + node"   \<comment> \<open>what lies behind a symbolic link\<close>
  fe_readdir :: "string list \<Rightarrow> error"
  fe_remove :: "string list \<Rightarrow> (goerr \<times> node) option"  \<comment> \<open>a RemoveAll error with what is left\<close>
  fe_copy :: "string \<Rightarrow> (string list \<Rightarrow> bool \<Rightarrow> bool) \<Rightarrow> node \<Rightarrow> node option \<Rightarrow> error \<times> node option"
                                                \<comment> \<open>cp.Copy to a path, with a Skip callback\<close>

definition pattern_validate :: "file_env \<Rightarrow> file_pattern \<Rightarrow> error" where
  "pattern_validate env p = (if fp_glob p = [] then Some (errorf ''a file filter pattern must specify a glob'')
     else if \<not> fe_valid env (fp_glob p) then Some (errorf ''invalid glob pattern'') else None)"

definition pattern_matches :: "file_env \<Rightarrow> file_pattern \<Rightarrow> string \<Rightarrow> bool" where
  "pattern_matches env p slash_path \<longleftrightarrow> fp_glob p \<noteq> [] \<and> fe_match env (fp_glob p) slash_path"

definition is_zero_filter :: "file_filter \<Rightarrow> bool" where
  "is_zero_filter f \<longleftrightarrow> ff_include f = [] \<and> ff_exclude f = []"

definition filter_validate :: "file_env \<Rightarrow> file_filter \<Rightarrow> error" where
  "filter_validate env f = trace_wrap ''validate file filter patterns''
     (new_aggregate (map (pattern_validate env) (ff_include f @ ff_exclude f)))"

definition matches_any_pattern :: "file_env \<Rightarrow> file_pattern list \<Rightarrow> string \<Rightarrow> bool" where
  "matches_any_pattern env ps slash_path \<longleftrightarrow> list_ex (\<lambda>p. pattern_matches env p slash_path) ps"

definition should_transfer :: "file_env \<Rightarrow> file_filter \<Rightarrow> string \<Rightarrow> bool \<Rightarrow> bool" where
  "should_transfer env f rel isdir =
     (if matches_any_pattern env (ff_exclude f) rel then False
      else if ff_include f = [] \<or> isdir then True
      else matches_any_pattern env (ff_include f) rel)"

text \<open>filepath.Rel of a path below the root.\<close>
definition rel_path :: "string list \<Rightarrow> string" where
  "rel_path p = (if p = [] then ''.'' else join_with ''/'' p)"

section \<open>transfer.go: CopyFiles\<close>

definition validate_src_dest :: "string \<Rightarrow> string \<Rightarrow> error" where
  "validate_src_dest src dest =
     (if trim_space src = [] then Some (errorf ''no source path provided'')
      else if trim_space dest = [] then Some (errorf ''no destination path provided'') else None)"

text \<open>Where a source that is not a directory goes.\<close>
definition copy_target :: "string \<Rightarrow> string \<Rightarrow> node \<Rightarrow> node option \<Rightarrow> string" where
  "copy_target src dest src_node dest_node =
     (if is_dir src_node then dest
      else if (case dest_node of None \<Rightarrow> last dest = slash | Some d \<Rightarrow> is_dir d)
      then path_join [dest, path_base src] else dest)"

text \<open>The Skip callback, installed only for a filter that constrains something.\<close>
definition filter_skip :: "file_env \<Rightarrow> file_filter \<Rightarrow> string list \<Rightarrow> bool \<Rightarrow> bool" where
  "filter_skip env f p isdir \<longleftrightarrow> \<not> is_zero_filter f \<and> rel_path p \<noteq> ''.'' \<and> \<not> should_transfer env f (rel_path p) isdir"

definition copy_files :: "file_env \<Rightarrow> string \<Rightarrow> string \<Rightarrow> file_filter \<Rightarrow> node option \<Rightarrow> error \<times> node option" where
  "copy_files env src dest f old = (case validate_src_dest src dest of
      Some e \<Rightarrow> (Some e, old)
    | None \<Rightarrow> (case fe_src env of
        Inl e \<Rightarrow> (Some (WrapErr ''get file info for source path'' e), old)
      | Inr n \<Rightarrow>
          if \<not> is_dir n \<and> fe_dest_err env \<noteq> None
          then (trace_wrap ''get file info for destination path'' (fe_dest_err env), old)
          else (case fe_copy env (copy_target src dest n old) (filter_skip env f) n old of
            (e, new) \<Rightarrow> (trace_wrap ''copy files'' e, new))))"

section \<open>transfer.go: SyncFiles\<close>

text \<open>os.Lstat below the source: symbolic links on the way are followed, other files are not directories.\<close>
fun walk_to :: "file_env \<Rightarrow> string list \<Rightarrow> node \<Rightarrow> string list \<Rightarrow> goerr + node" where
  "walk_to env pre n [] = Inr n"
| "walk_to env pre (Directory es) (c # cs) = (case map_of es c of
      None \<Rightarrow> Inl (LeafErr NotExist ''no such file or directory'')
    | Some m \<Rightarrow> walk_to env (pre @ [c]) m cs)"
| "walk_to env pre (Symlink t) (c # cs) = fe_through env (pre @ c # cs)"
| "walk_to env pre n (c # cs) = Inl (LeafErr Plain ''not a directory'')"

definition src_lstat :: "file_env \<Rightarrow> node \<Rightarrow> string list \<Rightarrow> goerr + node" where
  "src_lstat env src p = (case fe_lstat env p of Some e \<Rightarrow> Inl e | None \<Rightarrow> walk_to env [] src p)"

datatype verdict = Keep | Remove | Abort goerr

text \<open>The callback of the walk over the destination, for one entry.\<close>
definition check_entry :: "file_env \<Rightarrow> file_filter \<Rightarrow> node \<Rightarrow> string list \<Rightarrow> bool \<Rightarrow> verdict" where
  "check_entry env f src rel isdir = (case src_lstat env src rel of
      Inr _ \<Rightarrow> if should_transfer env f (rel_path rel) isdir then Keep else Remove
    | Inl e \<Rightarrow> if \<not> is_kind NotExist e then Abort (WrapErr ''lstat'' e) else Remove)"

definition remove_all :: "file_env \<Rightarrow> string list \<Rightarrow> error \<times> node option" where
  "remove_all env rel = (case fe_remove env rel of
      Some (e, left) \<Rightarrow> (Some (WrapErr ''remove path from the destination'' e), Some left)
    | None \<Rightarrow> (None, None))"

text \<open>
  The walk: an entry that is kept is descended into, one that is removed is not; the first error
  ends the walk.
\<close>
function (sequential) walk_node :: "file_env \<Rightarrow> file_filter \<Rightarrow> node \<Rightarrow> string list \<Rightarrow> node \<Rightarrow> error \<times> node option"
  and walk_entries :: "file_env \<Rightarrow> file_filter \<Rightarrow> node \<Rightarrow> string list \<Rightarrow> (string \<times> node) list
    \<Rightarrow> error \<times> (string \<times> node) list" where
  "walk_node env f src rel (Directory es) = (case check_entry env f src rel True of
      Abort e \<Rightarrow> (Some e, Some (Directory es))
    | Remove \<Rightarrow> remove_all env rel
    | Keep \<Rightarrow> (case fe_readdir env rel of
        Some e \<Rightarrow> (Some (WrapErr ''walk over path'' e), Some (Directory es))
      | None \<Rightarrow> (case walk_entries env f src rel es of (e, es') \<Rightarrow> (e, Some (Directory es')))))"
| "walk_node env f src rel n = (case check_entry env f src rel False of
      Abort e \<Rightarrow> (Some e, Some n)
    | Remove \<Rightarrow> remove_all env rel
    | Keep \<Rightarrow> (None, Some n))"
| "walk_entries env f src rel [] = (None, [])"
| "walk_entries env f src rel ((name, n) # es) = (case walk_node env f src (rel @ [name]) n of
      (e, r) \<Rightarrow> (let kept = (case r of None \<Rightarrow> [] | Some n' \<Rightarrow> [(name, n')]) in
        if e \<noteq> None then (e, kept @ es)
        else (case walk_entries env f src rel es of (e', es') \<Rightarrow> (e', kept @ es'))))"
  by pat_completeness auto
termination
  by (relation "measure (\<lambda>x. case x of Inl (_, _, _, _, n) \<Rightarrow> size n
      | Inr (_, _, _, _, es) \<Rightarrow> size_list (size_prod (\<lambda>_. 0) size) es)") auto

definition delete_missing_files :: "file_env \<Rightarrow> file_filter \<Rightarrow> node option \<Rightarrow> error \<times> node option" where
  "delete_missing_files env f old = (case fe_src env of
      Inl e \<Rightarrow> (Some (WrapErr ''get file info for source'' e), old)
    | Inr src \<Rightarrow> if \<not> is_dir src then (None, old)
        else (case fe_dest_err env of Some e \<Rightarrow> (Some (WrapErr ''get file info for destination'' e), old)
        | None \<Rightarrow> (case old of None \<Rightarrow> (None, None)
          | Some d \<Rightarrow> (case walk_node env f src [] d of
              (e, r) \<Rightarrow> (trace_wrap ''walk over destination'' e, r)))))"

definition sync_files :: "file_env \<Rightarrow> string \<Rightarrow> string \<Rightarrow> file_filter \<Rightarrow> node option \<Rightarrow> error \<times> node option" where
  "sync_files env src dest f old = (case validate_src_dest src dest of
      Some e \<Rightarrow> (Some e, old)
    | None \<Rightarrow> (case delete_missing_files env f old of
        (Some e, r) \<Rightarrow> (Some (WrapErr ''delete missing files'' e), r)
      | (None, r) \<Rightarrow> copy_files env src dest f r))"

definition copy_files_unfiltered :: "file_env \<Rightarrow> string \<Rightarrow> string \<Rightarrow> node option \<Rightarrow> error \<times> node option" where
  "copy_files_unfiltered env src dest old = copy_files env src dest \<lparr> ff_include = [], ff_exclude = [] \<rparr> old"

text \<open>ListDirectory: the subdirectories; \<^verbatim>\<open>read\<close> is os.ReadDir.\<close>
definition list_directory :: "(string \<Rightarrow> goerr + (string \<times> node) list) \<Rightarrow> string \<Rightarrow> goerr + string list" where
  "list_directory read path = (if trim_space path = [] then Inl (errorf ''no path provided'')
     else (case read (trim_space path) of
        Inl e \<Rightarrow> Inl (WrapErr ''read directory'' e)
      | Inr es \<Rightarrow> Inr (map fst (filter (\<lambda>(_, n). is_dir n) es))))"

section \<open>What the walk leaves\<close>

text \<open>An entry the walk over the destination keeps.\<close>
definition kept_entry :: "file_env \<Rightarrow> file_filter \<Rightarrow> node \<Rightarrow> string list \<Rightarrow> node \<Rightarrow> bool" where
  "kept_entry env f src p n \<longleftrightarrow> (\<exists>m. src_lstat env src p = Inr m) \<and> should_transfer env f (rel_path p) (is_dir n)"

lemma check_entry_Keep: "check_entry env f src rel b = Keep \<longleftrightarrow>
    (\<exists>m. src_lstat env src rel = Inr m) \<and> should_transfer env f (rel_path rel) b"
  by (auto simp: check_entry_def split: sum.splits)

lemma remove_all_ok: "remove_all env rel = (None, r) \<Longrightarrow> r = None"
  by (auto simp: remove_all_def split: option.splits)

lemma walk_keeps:
  "walk_node env f src rel n = (None, Some t) \<Longrightarrow> lookup t p = Some m \<Longrightarrow> kept_entry env f src (rel @ p) m"
  "walk_entries env f src rel es = (None, es') \<Longrightarrow> lookup (Directory es') p = Some m \<Longrightarrow> p \<noteq> [] \<Longrightarrow>
     kept_entry env f src (rel @ p) m"
proof (induction env f src rel n and env f src rel es arbitrary: t p m and es' p m rule: walk_node_walk_entries.induct, goal_cases)
  case (1 env f src rel es t p m)
  from 1(2) obtain es' where K: "check_entry env f src rel True = Keep" and R: "fe_readdir env rel = None"
    and W: "walk_entries env f src rel es = (None, es')" and t: "t = Directory es'"
    by (auto split: verdict.splits option.splits prod.splits dest: remove_all_ok)
  show ?case
  proof (cases p)
    case Nil
    with 1(3) t K show ?thesis by (auto simp: kept_entry_def check_entry_Keep)
  next
    case (Cons c cs)
    with 1(1) [OF K R W] 1(3) t show ?thesis by simp
  qed
next
  case (2 env f src rel d t p)
  then show ?case by (cases p) (auto simp: kept_entry_def check_entry_Keep split: verdict.splits dest: remove_all_ok)
next
  case (3 env f src rel d t p)
  then show ?case by (cases p) (auto simp: kept_entry_def check_entry_Keep split: verdict.splits dest: remove_all_ok)
next
  case (4 env f src rel t p)
  then show ?case by (cases p) (auto simp: kept_entry_def check_entry_Keep split: verdict.splits dest: remove_all_ok)
next
  case (5 env f src rel es2 p m)
  then show ?case by (cases p) auto
next
  case (6 env f src rel name n es es2 p m)
  obtain e r where N: "walk_node env f src (rel @ [name]) n = (e, r)" by fastforce
  with 6(3) have e: "e = None" by (auto simp: Let_def split: if_splits prod.splits)
  with 6(3) N obtain es1 where W: "walk_entries env f src rel es = (None, es1)"
    and es': "es2 = (case r of None \<Rightarrow> [] | Some n' \<Rightarrow> [(name, n')]) @ es1"
    by (auto simp: Let_def split: prod.splits)
  obtain c cs where p: "p = c # cs" using 6(5) by (cases p) auto
  show ?case
  proof (cases "c = name \<and> r \<noteq> None")
    case True
    then obtain n' where r: "r = Some n'" by blast
    with 6(4) es' True p have "lookup n' cs = Some m" by simp
    with 6(1) [of n' cs m] N e r p True show ?thesis by simp
  next
    case False
    with 6(4) es' p have "lookup (Directory es1) p = Some m" by (auto split: option.splits)
    with 6(2) [OF N [symmetric] refl _ W] e p show ?thesis by simp
  qed
qed

text \<open>
  What cp.Copy documents, for the options used: merging a directory into the destination makes every
  entry that is neither special nor skipped what it is in the source, and adds nothing else.
\<close>
fun copied :: "(string list \<Rightarrow> bool \<Rightarrow> bool) \<Rightarrow> string list \<Rightarrow> node \<Rightarrow> string list \<Rightarrow> bool" where
  "copied skip pre n [] \<longleftrightarrow> n \<noteq> Special"
| "copied skip pre (Directory es) (c # cs) \<longleftrightarrow> (case map_of es c of None \<Rightarrow> False
     | Some m \<Rightarrow> \<not> skip (pre @ [c]) (is_dir m) \<and> copied skip (pre @ [c]) m cs)"
| "copied skip pre n (c # cs) \<longleftrightarrow> False"

definition merges :: "(string \<Rightarrow> (string list \<Rightarrow> bool \<Rightarrow> bool) \<Rightarrow> node \<Rightarrow> node option \<Rightarrow> error \<times> node option) \<Rightarrow> bool" where
  "merges copy \<longleftrightarrow> (\<forall>target skip src old r. is_dir src \<longrightarrow> copy target skip src old = (None, r) \<longrightarrow>
     (\<exists>t. r = Some t \<and> (\<forall>p. if copied skip [] src p then map_option shape (lookup t p) = map_option shape (lookup src p)
        else \<forall>m. lookup t p = Some m \<longrightarrow> (\<exists>d. old = Some d \<and> lookup d p = Some m))))"

lemma sync_entries:
  assumes cp: "merges (fe_copy env)" and src: "fe_src env = Inr (Directory es)"
    and run: "sync_files env s d f old = (None, r)"
  obtains t r1 where "r = Some t" "old = None \<Longrightarrow> r1 = None"
    "\<And>p. copied (filter_skip env f) [] (Directory es) p \<Longrightarrow> map_option shape (lookup t p) = map_option shape (lookup (Directory es) p)"
    "\<And>p m. lookup t p = Some m \<Longrightarrow> copied (filter_skip env f) [] (Directory es) p \<or>
       (\<exists>t1. r1 = Some t1 \<and> lookup t1 p = Some m) \<and> kept_entry env f (Directory es) p m"
proof -
  from run obtain r1 where D: "delete_missing_files env f old = (None, r1)" and C: "copy_files env s d f r1 = (None, r)"
    by (auto simp: sync_files_def split: option.splits prod.splits)
  from D src have kept: "kept_entry env f (Directory es) p m" if "r1 = Some t1" "lookup t1 p = Some m" for t1 p m
    using that walk_keeps(1) [of env f "Directory es" "[]" _ t1 p m]
    by (auto simp: delete_missing_files_def split: option.splits prod.splits)
  from C src have "fe_copy env (copy_target s d (Directory es) r1) (filter_skip env f) (Directory es) r1 = (None, r)"
    by (auto simp: copy_files_def split: option.splits prod.splits)
  with cp obtain t where r: "r = Some t" and T: "\<And>p. if copied (filter_skip env f) [] (Directory es) p
      then map_option shape (lookup t p) = map_option shape (lookup (Directory es) p)
      else \<forall>m. lookup t p = Some m \<longrightarrow> (\<exists>d. r1 = Some d \<and> lookup d p = Some m)"
    unfolding merges_def by (metis is_dir_simps(1))
  show ?thesis
  proof (rule that [OF r])
    show "r1 = None" if "old = None"
      using D src that by (auto simp: delete_missing_files_def split: option.splits)
    show "map_option shape (lookup t p) = map_option shape (lookup (Directory es) p)"
      if "copied (filter_skip env f) [] (Directory es) p" for p using T [of p] that by simp
    show "copied (filter_skip env f) [] (Directory es) p \<or>
       (\<exists>t1. r1 = Some t1 \<and> lookup t1 p = Some m) \<and> kept_entry env f (Directory es) p m" if "lookup t p = Some m" for p m
      using T [of p] kept that by (auto split: if_splits)
  qed
qed


section \<open>There and back\<close>

lemma lookup_append: "lookup n (p @ q) = Option.bind (lookup n p) (\<lambda>m. lookup m q)"
  by (induction n p rule: lookup.induct) (auto split: option.splits)

lemma copied_unfiltered:
  "is_zero_filter f \<Longrightarrow> (\<And>q. lookup n q \<noteq> Some Special) \<Longrightarrow> copied (filter_skip env f) pre n p \<longleftrightarrow> lookup n p \<noteq> None"
proof (induction p arbitrary: n pre)
  case Nil
  from Nil.prems(2) [of "[]"] show ?case by simp
next
  case (Cons c cs)
  show ?case
  proof (cases n)
    case (Directory es)
    have "lookup m q \<noteq> Some Special" if "map_of es c = Some m" for m q
      using Cons.prems(2) [of "c # q"] that Directory by simp
    with Cons Directory show ?thesis by (simp add: filter_skip_def split: option.split)
  qed simp_all
qed

text \<open>Lstat finds something that the tree does not have only behind a symbolic link.\<close>
lemma walk_to_lookup:
  "walk_to env pre n p = Inr m \<Longrightarrow> lookup n p = None \<Longrightarrow> \<exists>q c cs target. p = q @ c # cs \<and> lookup n q = Some (Symlink target)"
proof (induction env pre n p rule: walk_to.induct)
  case (2 env pre es c cs)
  then obtain m' where m': "map_of es c = Some m'" by (auto split: option.splits)
  with 2 obtain q d ds target where "cs = q @ d # ds" "lookup m' q = Some (Symlink target)" by auto
  with m' show ?case by (intro exI [of _ "c # q"]) auto
next
  case (3 env pre t c cs)
  then have "t # [] = [t] \<and> c # cs = [] @ c # cs \<and> lookup (Symlink t) [] = Some (Symlink t)" by simp
  then show ?case by blast
qed simp_all

text \<open>Without special files in the source, a sync without a filter, or to a place that does not exist yet, leaves exactly
  the filtered view of the source.\<close>
lemma sync_exact:
  assumes cp: "merges (fe_copy env)" and src: "fe_src env = Inr (Directory es)"
    and plain: "\<And>q. lookup (Directory es) q \<noteq> Some Special" and f: "is_zero_filter f \<or> old = None"
    and run: "sync_files env s d f old = (None, r)"
  obtains t where "r = Some t"
    "\<And>p. map_option shape (lookup t p) =
      (if copied (filter_skip env f) [] (Directory es) p then map_option shape (lookup (Directory es) p) else None)"
proof -
  let ?view = "copied (filter_skip env f) [] (Directory es)"
  from sync_entries [OF cp src run] obtain t r1 where t: "r = Some t" "old = None \<Longrightarrow> r1 = None"
    "\<And>p. ?view p \<Longrightarrow> map_option shape (lookup t p) = map_option shape (lookup (Directory es) p)"
    "\<And>p m. lookup t p = Some m \<Longrightarrow> ?view p \<or> (\<exists>t1. r1 = Some t1 \<and> lookup t1 p = Some m) \<and> kept_entry env f (Directory es) p m"
    by blast
  have "lookup t p = None" if "\<not> ?view p" for p
  proof (rule ccontr)
    assume "lookup t p \<noteq> None"
    then obtain m where m: "lookup t p = Some m" by blast
    with t(2) t(4) [OF m] that f have z: "is_zero_filter f" and k: "kept_entry env f (Directory es) p m" by auto
    from copied_unfiltered [OF z plain] that have none: "lookup (Directory es) p = None" by blast
    from k none obtain q c cs target where p: "p = q @ c # cs" and q: "lookup (Directory es) q = Some (Symlink target)"
      by (auto simp: kept_entry_def src_lstat_def split: option.splits dest: walk_to_lookup)
    with t(3) [of q] copied_unfiltered [OF z plain] have "map_option shape (lookup t q) = Some (Symlink target)" by simp
    then have "lookup t q = Some (Symlink target)" by simp
    with m p show False by (simp add: lookup_append)
  qed
  with t(1,3) that show ?thesis by (metis option.map(1))
qed



section \<open>A copier that merges\<close>

function (sequential) merge_node :: "(string list \<Rightarrow> bool \<Rightarrow> bool) \<Rightarrow> string list \<Rightarrow> node \<Rightarrow> node option \<Rightarrow> node"
  and merge_entries :: "(string list \<Rightarrow> bool \<Rightarrow> bool) \<Rightarrow> string list \<Rightarrow> (string \<times> node) list \<Rightarrow> (string \<times> node) list
    \<Rightarrow> (string \<times> node) list" where
  "merge_node skip pre (Directory es) old =
     Directory (merge_entries skip pre es (case old of Some (Directory ds) \<Rightarrow> ds | _ \<Rightarrow> []))"
| "merge_node skip pre n old = n"
| "merge_entries skip pre [] ds = ds"
| "merge_entries skip pre ((c, n) # es) ds =
     (if n = Special \<or> skip (pre @ [c]) (is_dir n) then merge_entries skip pre es ds
      else AList.update c (merge_node skip (pre @ [c]) n (map_of ds c)) (merge_entries skip pre es ds))"
  by pat_completeness auto
termination
  by (relation "measure (\<lambda>x. case x of Inl (_, _, n, _) \<Rightarrow> size n
      | Inr (_, _, es, _) \<Rightarrow> size_list (size_prod (\<lambda>_. 0) size) es)") auto

function wf_node :: "node \<Rightarrow> bool" where
  "wf_node (Directory es) \<longleftrightarrow> distinct (map fst es) \<and> (\<forall>e \<in> set es. wf_node (snd e))"
| "wf_node (Regular d) \<longleftrightarrow> True" | "wf_node (Symlink t) \<longleftrightarrow> True" | "wf_node Special \<longleftrightarrow> True"
  by pat_completeness auto
termination
proof (relation "measure size")
  show "(snd e, Directory es) \<in> measure size" if "e \<in> set es" for es e
  proof -
    have "size_prod (\<lambda>_. 0) size e \<le> size_list (size_prod (\<lambda>_. 0) size) es" using that by (rule size_list_estimation') simp
    then show ?thesis by (cases e) simp
  qed
qed simp

definition merge_copy :: "string \<Rightarrow> (string list \<Rightarrow> bool \<Rightarrow> bool) \<Rightarrow> node \<Rightarrow> node option \<Rightarrow> error \<times> node option" where
  "merge_copy target skip src old = (if wf_node src then (None, Some (merge_node skip [] src old))
     else (Some (errorf ''duplicate directory entry''), old))"

lemma map_of_merge_entries:
  "distinct (map fst es) \<Longrightarrow> map_of (merge_entries skip pre es ds) c = (case map_of es c of
     Some n \<Rightarrow> if n = Special \<or> skip (pre @ [c]) (is_dir n) then map_of ds c
       else Some (merge_node skip (pre @ [c]) n (map_of ds c))
   | None \<Rightarrow> map_of ds c)"
proof (induction es)
  case (Cons e es)
  obtain c' n where e: "e = (c', n)" by fastforce
  with Cons.prems have "map_of es c' = None" by (auto simp: map_of_eq_None_iff)
  with Cons e show ?case by (auto simp: update_conv' split: option.splits)
qed simp

lemma merge_node_lookup:
  assumes "wf_node n" "n \<noteq> Special"
  shows "if copied skip pre n p then map_option shape (lookup (merge_node skip pre n old) p) = map_option shape (lookup n p)
     else \<forall>m. lookup (merge_node skip pre n old) p = Some m \<longrightarrow> (\<exists>d. old = Some d \<and> lookup d p = Some m)"
  using assms
proof (induction p arbitrary: pre n old)
  case Nil
  then show ?case by (cases n) (auto simp: shape_def)
next
  case (Cons c cs)
  show ?case
  proof (cases n)
    case (Directory es)
    let ?ds = "case old of Some (Directory ds) \<Rightarrow> ds | _ \<Rightarrow> []"
    from Cons.prems Directory have d: "distinct (map fst es)" and W: "\<And>m. map_of es c = Some m \<Longrightarrow> wf_node m"
      by (auto dest: map_of_SomeD)
    have old: "\<exists>d. old = Some d \<and> lookup d (c # cs) = Some m" if "map_of ?ds c = Some k" "lookup k cs = Some m" for k m
      using that by (auto split: option.splits node.splits)
    show ?thesis
    proof (cases "map_of es c")
      case None
      with Directory d old show ?thesis by (auto simp: map_of_merge_entries split: option.splits)
    next
      case (Some m)
      show ?thesis
      proof (cases "m = Special \<or> skip (pre @ [c]) (is_dir m)")
        case True
        moreover have "\<not> copied skip (pre @ [c]) Special cs" by (cases cs) auto
        ultimately show ?thesis using Directory d old Some by (auto simp: map_of_merge_entries split: option.splits)
      next
        case False
        with Cons.IH [of m "pre @ [c]" "map_of ?ds c"] W [OF Some] Directory d old Some show ?thesis
          by (auto simp: map_of_merge_entries split: if_splits)
      qed
    qed
  qed (use Cons.prems in auto)
qed

lemma merge_copy_merges: "merges merge_copy"
  unfolding merges_def merge_copy_def
proof (intro allI impI)
  fix target :: string and skip src old r
  assume "is_dir src" and "(if wf_node src then (None, Some (merge_node skip [] src old)) else (Some (errorf ''duplicate directory entry''), old)) = (None, r)"
  then have "wf_node src" "src \<noteq> Special" "r = Some (merge_node skip [] src old)" by (auto split: if_splits)
  with merge_node_lookup show "\<exists>t. r = Some t \<and> (\<forall>p. if copied skip [] src p
      then map_option shape (lookup t p) = map_option shape (lookup src p)
      else \<forall>m. lookup t p = Some m \<longrightarrow> (\<exists>d. old = Some d \<and> lookup d p = Some m))" by metis
qed

section \<open>Two syncs\<close>

definition sample_files :: "(string \<times> node) list \<Rightarrow> file_env" where
  "sample_files es = \<lparr> fe_valid = (\<lambda>_. True), fe_match = (\<lambda>glob p. glob = p), fe_src = Inr (Directory es),
     fe_dest_err = None, fe_lstat = (\<lambda>_. None), fe_through = (\<lambda>_. Inl (LeafErr NotExist ''dangling'')),
     fe_readdir = (\<lambda>_. None), fe_remove = (\<lambda>_. None), fe_copy = merge_copy \<rparr>"


definition captured_tree :: node where
  "captured_tree = Directory [(''link'', Symlink ''a''), (''a'', Regular ''1'')]"

definition restored_tree :: node where
  "restored_tree = Directory [(''a'', Regular ''1''), (''link'', Symlink ''a'')]"



end
