(* ===== verification/S3.thy ===== *)
theory S3
  imports SampleWorld Paths
begin

text \<open>
  \<^verbatim>\<open>src/pkg/s3\<close>: credentials, s3:// paths, and the synchronisation of an object store prefix with a
  local directory.  A local directory is a map from slash-separated relative paths to files; a bucket is the
  list of its current objects by key, with its version history.  What the services and the file
  system answer is an environment.  url.Parse is a parameter.
\<close>

section \<open>credentials.go\<close>

record s3_credentials =
  s3c_access_key :: string
  s3c_secret_key :: string
  s3c_session_token :: string
  s3c_endpoint :: string
  s3c_region :: string
  s3c_path_style :: bool

definition new_credentials :: "string \<Rightarrow> string \<Rightarrow> s3_credentials" where
  "new_credentials i k = \<lparr> s3c_access_key = i, s3c_secret_key = k, s3c_session_token = [], s3c_endpoint = [],
     s3c_region = [], s3c_path_style = False \<rparr>"

definition with_session_token :: "string \<Rightarrow> s3_credentials \<Rightarrow> s3_credentials" where
  "with_session_token token c = c\<lparr>s3c_session_token := token\<rparr>"

definition with_endpoint :: "string \<Rightarrow> s3_credentials \<Rightarrow> s3_credentials" where
  "with_endpoint endpoint c = c\<lparr>s3c_endpoint := endpoint\<rparr>"

definition with_region :: "string \<Rightarrow> s3_credentials \<Rightarrow> s3_credentials" where
  "with_region region c = c\<lparr>s3c_region := region\<rparr>"

definition with_path_style :: "bool \<Rightarrow> s3_credentials \<Rightarrow> s3_credentials" where
  "with_path_style force c = c\<lparr>s3c_path_style := force\<rparr>"

lemmas credential_setters = with_session_token_def with_endpoint_def with_region_def with_path_style_def

definition new_credentials_from_env :: "(string \<Rightarrow> string) \<Rightarrow> s3_credentials" where
  "new_credentials_from_env getenv =
     with_path_style (getenv ''AWS_S3_FORCE_PATH_STYLE'' = ''true'')
       (with_region (getenv ''AWS_REGION'')
         (with_endpoint (getenv ''AWS_ENDPOINT'')
           (with_session_token (getenv ''AWS_SESSION_TOKEN'')
             (new_credentials (getenv ''AWS_ACCESS_KEY_ID'') (getenv ''AWS_SECRET_ACCESS_KEY'')))))"

text \<open>The region and the static credentials of the SDK configuration.\<close>
definition aws_config :: "s3_credentials \<Rightarrow> string \<times> string \<times> string \<times> string" where
  "aws_config c = (if s3c_region c = [] \<and> s3c_endpoint c \<noteq> [] then ''us-east-1'' else s3c_region c,
     s3c_access_key c, s3c_secret_key c, s3c_session_token c)"

section \<open>s3path.go\<close>

record url = u_scheme :: string  u_host :: string  u_path :: string

record s3_path = sp_bucket :: string  sp_prefix :: string

text \<open>The parsed path, or None for a local path.\<close>
definition parse_s3_path :: "(string \<Rightarrow> goerr + url) \<Rightarrow> string \<Rightarrow> goerr + s3_path option" where
  "parse_s3_path parse_url raw = (case parse_url raw of
      Inl e \<Rightarrow> Inl (WrapErr ''parse as a URL'' e)
    | Inr u \<Rightarrow> if u_scheme u \<noteq> ''s3'' then Inr None
        else if u_host u = [] then Inl (errorf ''missing a bucket name'')
        else Inr (Some \<lparr> sp_bucket = u_host u, sp_prefix = trim_prefix ''/'' (u_path u) \<rparr>))"

section \<open>Objects\<close>

record remote_object =
  ro_key :: string
  ro_rel :: string
  ro_version :: "string option"
  ro_size :: int
  ro_modified :: gotime

record object_version =
  ov_key :: string
  ov_modified :: gotime
  ov_size :: int
  ov_version :: "string option"

record delete_marker =
  dm_key :: string
  dm_modified :: gotime

record s3_object =
  so_data :: string
  so_type :: string
  so_modified :: gotime

definition relative_key :: "string \<Rightarrow> string \<Rightarrow> string" where
  "relative_key prefix key = (if has_suffix ''/'' key then []
     else trim_prefix ''/'' (trim_prefix prefix key))"

section \<open>selectObjectsAsOf\<close>

record candidate =
  cd_modified :: gotime
  cd_deleted :: bool
  cd_size :: int
  cd_version :: "string option"

text \<open>The map \<^verbatim>\<open>current\<close> is an association list; Go iterates it in an arbitrary order.\<close>
definition consider_entry :: "gotime \<Rightarrow> (string \<times> candidate) list \<Rightarrow> string \<times> candidate \<Rightarrow> (string \<times> candidate) list" where
  "consider_entry as_of current kc = (case kc of (key, c) \<Rightarrow>
     if as_of < cd_modified c then current
     else (case map_of current key of
        Some existing \<Rightarrow> if \<not> cd_modified existing < cd_modified c then current else AList.update key c current
      | None \<Rightarrow> AList.update key c current))"

definition version_candidate :: "object_version \<Rightarrow> string \<times> candidate" where
  "version_candidate v = (ov_key v, \<lparr> cd_modified = ov_modified v, cd_deleted = False, cd_size = ov_size v,
     cd_version = ov_version v \<rparr>)"

definition marker_candidate :: "delete_marker \<Rightarrow> string \<times> candidate" where
  "marker_candidate d = (dm_key d, \<lparr> cd_modified = dm_modified d, cd_deleted = True, cd_size = 0, cd_version = None \<rparr>)"

definition object_of :: "string \<Rightarrow> string \<times> candidate \<Rightarrow> remote_object option" where
  "object_of prefix kc = (case kc of (key, c) \<Rightarrow>
     if cd_deleted c then None else if relative_key prefix key = [] then None
     else Some \<lparr> ro_key = key, ro_rel = relative_key prefix key, ro_version = cd_version c,
             ro_size = cd_size c, ro_modified = cd_modified c \<rparr>)"

definition select_objects_as_of :: "object_version list \<Rightarrow> delete_marker list \<Rightarrow> string \<Rightarrow> gotime \<Rightarrow> remote_object list" where
  "select_objects_as_of versions markers prefix as_of =
     (let current = foldl (consider_entry as_of) (foldl (consider_entry as_of) [] (map version_candidate versions))
        (map marker_candidate markers)
      in List.map_filter (object_of prefix) current)"

text \<open>The entry a key keeps: the first of the newest entries not after the instant.\<close>
fun best :: "gotime \<Rightarrow> string \<Rightarrow> (string \<times> candidate) list \<Rightarrow> candidate option \<Rightarrow> candidate option" where
  "best as_of key [] acc = acc"
| "best as_of key ((k, c) # cs) acc =
     (if k \<noteq> key \<or> as_of < cd_modified c then best as_of key cs acc
      else (case acc of
          Some e \<Rightarrow> best as_of key cs (if cd_modified e < cd_modified c then Some c else acc)
        | None \<Rightarrow> best as_of key cs (Some c)))"

lemma consider_map: "map_of (consider_entry as_of cur (k, c)) key =
    best as_of key [(k, c)] (map_of cur key)"
  by (auto simp: consider_entry_def update_conv' split: option.splits)

lemma foldl_consider_map: "map_of (foldl (consider_entry as_of) cur es) key = best as_of key es (map_of cur key)"
proof (induction es arbitrary: cur)
  case (Cons e es)
  obtain k c where e: "e = (k, c)" by (cases e)
  show ?case using Cons.IH [of "consider_entry as_of cur e"] e consider_map [of as_of cur k c key]
    by (auto split: option.splits)
qed simp

lemma foldl_consider_distinct: "distinct (map fst cur) \<Longrightarrow> distinct (map fst (foldl (consider_entry as_of) cur es))"
proof (induction es arbitrary: cur)
  case (Cons e es)
  have "distinct (map fst (consider_entry as_of cur e))" using Cons.prems
    by (auto simp: consider_entry_def distinct_update split: prod.splits option.splits)
  from Cons.IH [OF this] show ?case by simp
qed simp

lemma best_result:
  "best as_of key es acc = Some c \<Longrightarrow>
     (acc = Some c \<or> (key, c) \<in> set es \<and> cd_modified c \<le> as_of) \<and>
     (\<forall>e. acc = Some e \<longrightarrow> cd_modified e \<le> cd_modified c) \<and>
     (\<forall>c'. (key, c') \<in> set es \<longrightarrow> cd_modified c' \<le> as_of \<longrightarrow> cd_modified c' \<le> cd_modified c)"
  by (induction as_of key es acc rule: best.induct) (fastforce split: if_splits option.splits)+

lemma best_None:
  "best as_of key es acc = None \<longleftrightarrow> acc = None \<and> (\<forall>c. (key, c) \<in> set es \<longrightarrow> as_of < cd_modified c)"
  by (induction as_of key es acc rule: best.induct) (auto split: option.splits)

lemma best_append: "best as_of key (es @ fs) acc = best as_of key fs (best as_of key es acc)"
  by (induction as_of key es acc rule: best.induct) (auto split: option.splits)

lemma best_version:
  "best as_of key es acc = Some c \<Longrightarrow> acc = Some e \<Longrightarrow> cd_modified e = cd_modified c \<Longrightarrow> c = e"
  by (induction as_of key es acc arbitrary: e rule: best.induct)
    (auto split: if_splits option.splits dest!: best_result)

text \<open>What the store held at the instant: a version that no version and no delete marker supersedes.\<close>
definition current_at :: "object_version list \<Rightarrow> delete_marker list \<Rightarrow> gotime \<Rightarrow> object_version \<Rightarrow> bool" where
  "current_at versions markers as_of v \<longleftrightarrow> v \<in> set versions \<and> ov_modified v \<le> as_of \<and>
     (\<forall>v' \<in> set versions. ov_key v' = ov_key v \<longrightarrow> ov_modified v' \<le> as_of \<longrightarrow> ov_modified v' \<le> ov_modified v) \<and>
     (\<forall>d \<in> set markers. dm_key d = ov_key v \<longrightarrow> dm_modified d \<le> as_of \<longrightarrow> dm_modified d \<le> ov_modified v)"

definition candidates :: "object_version list \<Rightarrow> delete_marker list \<Rightarrow> (string \<times> candidate) list" where
  "candidates versions markers = map version_candidate versions @ map marker_candidate markers"

lemma set_map_filter_iff: "y \<in> set (List.map_filter f xs) \<longleftrightarrow> (\<exists>x \<in> set xs. f x = Some y)"
  by (force simp: List.map_filter_def)

lemma select_result:
  "ob \<in> set (select_objects_as_of versions markers prefix as_of) \<longleftrightarrow>
     (\<exists>c. best as_of (ro_key ob) (candidates versions markers) None = Some c \<and> \<not> cd_deleted c \<and>
        relative_key prefix (ro_key ob) \<noteq> [] \<and> ob = \<lparr> ro_key = ro_key ob, ro_rel = relative_key prefix (ro_key ob),
          ro_version = cd_version c, ro_size = cd_size c, ro_modified = cd_modified c \<rparr>)"
proof -
  let ?cur = "foldl (consider_entry as_of) [] (candidates versions markers)"
  have d: "distinct (map fst ?cur)" by (rule foldl_consider_distinct) simp
  have m: "map_of ?cur key = best as_of key (candidates versions markers) None" for key
    by (simp add: foldl_consider_map)
  have mem: "(key, c) \<in> set ?cur \<longleftrightarrow> best as_of key (candidates versions markers) None = Some c" for key c
    unfolding m [symmetric] using d by simp
  have sel: "select_objects_as_of versions markers prefix as_of = List.map_filter (object_of prefix) ?cur"
    by (simp add: select_objects_as_of_def candidates_def Let_def)
  have "ob \<in> set (select_objects_as_of versions markers prefix as_of) \<longleftrightarrow>
      (\<exists>key c. best as_of key (candidates versions markers) None = Some c \<and> object_of prefix (key, c) = Some ob)"
    unfolding sel set_map_filter_iff mem [symmetric] by fast
  then show ?thesis by (auto simp: object_of_def split: if_splits) (metis remote_object.select_convs(1))+
qed

lemma select_sound:
  assumes "ob \<in> set (select_objects_as_of versions markers prefix as_of)"
  shows "\<exists>v. current_at versions markers as_of v \<and> ro_key ob = ov_key v \<and> ro_rel ob = relative_key prefix (ov_key v) \<and>
     ro_version ob = ov_version v \<and> ro_size ob = ov_size v \<and> ro_modified ob = ov_modified v \<and> relative_key prefix (ov_key v) \<noteq> []"
proof -
  from assms [unfolded select_result] obtain c where
    b: "best as_of (ro_key ob) (candidates versions markers) None = Some c" and nd: "\<not> cd_deleted c" and
    rel: "relative_key prefix (ro_key ob) \<noteq> []" and ob: "ob = \<lparr> ro_key = ro_key ob, ro_rel = relative_key prefix (ro_key ob),
          ro_version = cd_version c, ro_size = cd_size c, ro_modified = cd_modified c \<rparr>" by blast
  from best_result [OF b] have c: "(ro_key ob, c) \<in> set (candidates versions markers)" "cd_modified c \<le> as_of"
    and all: "\<And>c'. (ro_key ob, c') \<in> set (candidates versions markers) \<Longrightarrow> cd_modified c' \<le> as_of \<Longrightarrow> cd_modified c' \<le> cd_modified c"
    by auto
  from c(1) nd obtain v where v: "v \<in> set versions" "version_candidate v = (ro_key ob, c)"
    by (auto simp: candidates_def marker_candidate_def)
  have "current_at versions markers as_of v"
    unfolding current_at_def
  proof (intro conjI ballI impI)
    fix v' assume "v' \<in> set versions" "ov_key v' = ov_key v" "ov_modified v' \<le> as_of"
    with all [of "snd (version_candidate v')"] v show "ov_modified v' \<le> ov_modified v"
      by (force simp: candidates_def version_candidate_def)
  next
    fix d assume "d \<in> set markers" "dm_key d = ov_key v" "dm_modified d \<le> as_of"
    with all [of "snd (marker_candidate d)"] v show "dm_modified d \<le> ov_modified v"
      by (force simp: candidates_def version_candidate_def marker_candidate_def)
  qed (use v c in \<open>auto simp: version_candidate_def\<close>)
  moreover have "ro_key ob = ov_key v" "cd_version c = ov_version v" "cd_size c = ov_size v" "cd_modified c = ov_modified v"
    using v(2) by (auto simp: version_candidate_def)
  ultimately show ?thesis using rel ob by (metis remote_object.select_convs)
qed

lemma select_complete:
  assumes v: "current_at versions markers as_of v" and rel: "relative_key prefix (ov_key v) \<noteq> []"
  shows "\<exists>ob \<in> set (select_objects_as_of versions markers prefix as_of). ro_key ob = ov_key v \<and> ro_modified ob = ov_modified v"
proof -
  let ?k = "ov_key v"
  let ?vs = "map version_candidate versions" and ?ms = "map marker_candidate markers"
  have vin: "(?k, snd (version_candidate v)) \<in> set ?vs" "cd_modified (snd (version_candidate v)) = ov_modified v"
    using v by (force simp: current_at_def version_candidate_def)+
  have "best as_of ?k ?vs None \<noteq> None"
    unfolding best_None using vin v by (force simp: current_at_def)
  then obtain e where e: "best as_of ?k ?vs None = Some e" by blast
  from best_result [OF e] have e1: "(?k, e) \<in> set ?vs" "cd_modified e \<le> as_of" "ov_modified v \<le> cd_modified e"
    using vin v by (auto simp: current_at_def)
  then obtain v' where v': "v' \<in> set versions" "version_candidate v' = (?k, e)" by auto
  have eq: "cd_modified e = ov_modified v"
    using v v' e1 by (force simp: current_at_def version_candidate_def)
  have "best as_of ?k ?ms (Some e) \<noteq> None" unfolding best_None by simp
  then obtain c where c: "best as_of ?k ?ms (Some e) = Some c" by blast
  have "cd_modified c = cd_modified e"
  proof (rule antisym)
    show "cd_modified e \<le> cd_modified c" using best_result [OF c] by simp
    from best_result [OF c] consider "c = e" | "(?k, c) \<in> set ?ms" "cd_modified c \<le> as_of" by auto
    then show "cd_modified c \<le> cd_modified e"
      using v eq by cases (auto simp: current_at_def marker_candidate_def)
  qed
  with best_version [OF c refl] have "c = e" by simp
  with c e have b: "best as_of ?k (candidates versions markers) None = Some e" by (simp add: candidates_def best_append)
  have nd: "\<not> cd_deleted e" using v'(2) by (auto simp: version_candidate_def)
  let ?ob = "\<lparr> ro_key = ?k, ro_rel = relative_key prefix ?k, ro_version = cd_version e, ro_size = cd_size e, ro_modified = cd_modified e \<rparr>"
  have "?ob \<in> set (select_objects_as_of versions markers prefix as_of)"
    unfolding select_result using b nd rel by simp
  with eq show ?thesis by force
qed

text \<open>C16: the selection for a consistency point is what the bucket held at that instant: exactly the keys with a
  version that nothing at or before the instant supersedes, each at the time of that version.\<close>
theorem select_objects_as_of_correct:
  "(\<forall>ob \<in> set (select_objects_as_of versions markers prefix as_of).
     \<exists>v. current_at versions markers as_of v \<and> ro_key ob = ov_key v \<and> ro_rel ob = relative_key prefix (ov_key v) \<and>
       ro_version ob = ov_version v \<and> ro_size ob = ov_size v \<and> ro_modified ob = ov_modified v) \<and>
   (\<forall>v. current_at versions markers as_of v \<and> relative_key prefix (ov_key v) \<noteq> [] \<longrightarrow>
     (\<exists>ob \<in> set (select_objects_as_of versions markers prefix as_of). ro_key ob = ov_key v \<and> ro_modified ob = ov_modified v)) \<and>
   (\<forall>vs ms. filter (\<lambda>v. ov_modified v \<le> as_of) vs = filter (\<lambda>v. ov_modified v \<le> as_of) versions \<and>
       filter (\<lambda>d. dm_modified d \<le> as_of) ms = filter (\<lambda>d. dm_modified d \<le> as_of) markers \<longrightarrow>
     select_objects_as_of vs ms prefix as_of = select_objects_as_of versions markers prefix as_of)"
proof (intro conjI allI ballI impI)
  have v: "foldl (consider_entry as_of) cur (map version_candidate vs)
      = foldl (consider_entry as_of) cur (map version_candidate (filter (\<lambda>v. ov_modified v \<le> as_of) vs))" for vs cur
    by (induction vs arbitrary: cur) (auto simp: consider_entry_def version_candidate_def)
  have m: "foldl (consider_entry as_of) cur (map marker_candidate ms)
      = foldl (consider_entry as_of) cur (map marker_candidate (filter (\<lambda>d. dm_modified d \<le> as_of) ms))" for ms cur
    by (induction ms arbitrary: cur) (auto simp: consider_entry_def marker_candidate_def)
  fix vs ms
  assume "filter (\<lambda>v. ov_modified v \<le> as_of) vs = filter (\<lambda>v. ov_modified v \<le> as_of) versions \<and>
       filter (\<lambda>d. dm_modified d \<le> as_of) ms = filter (\<lambda>d. dm_modified d \<le> as_of) markers"
  then show "select_objects_as_of vs ms prefix as_of = select_objects_as_of versions markers prefix as_of"
    unfolding select_objects_as_of_def v [of _ vs] v [of _ versions] m [of _ ms] m [of _ markers] by simp
qed (use select_sound select_complete in \<open>blast+\<close>)

section \<open>transfer.go: the environment\<close>

record local_file =
  lf_data :: string
  lf_modified :: gotime

type_synonym local_dir = "(string \<times> local_file) list"   \<comment> \<open>by slash-separated relative path\<close>

record s3_store =
  st_objects :: "(string \<times> s3_object) list"
  st_versions :: "object_version list"
  st_markers :: "delete_marker list"

text \<open>
  The answers of the service and of the file system.  \<^verbatim>\<open>se_get\<close> gives what could be read of the body and
  the error it ended with; \<^verbatim>\<open>se_stat\<close> an error other than not-exist; \<^verbatim>\<open>se_versioning\<close> the versioning
  status of the bucket; \<^verbatim>\<open>se_type_by_extension\<close> and \<^verbatim>\<open>se_sniff\<close> the content types of the mime and net/http packages.
\<close>
record s3_env =
  se_url :: "string \<Rightarrow> goerr + url"
  se_versioning :: "goerr + string"
  se_list :: error
  se_list_versions :: error
  se_get :: "string \<Rightarrow> string option \<Rightarrow> goerr + string \<times> error"
  se_put :: "string \<Rightarrow> error"
  se_delete :: "string \<Rightarrow> error"
  se_stat :: "string \<Rightarrow> error"
  se_mkdir :: "string \<Rightarrow> error"
  se_create :: "string \<Rightarrow> error"
  se_open :: "string \<Rightarrow> error"
  se_close :: "string \<Rightarrow> error"
  se_chtimes :: "string \<Rightarrow> error"
  se_remove :: "string \<Rightarrow> error"
  se_type_by_extension :: "string \<Rightarrow> string"
  se_read :: "string \<Rightarrow> error"
  se_seek :: "string \<Rightarrow> error"
  se_sniff :: "string \<Rightarrow> string"
  se_dir :: error
  se_now :: gotime

section \<open>Listing\<close>

definition object_at :: "string \<Rightarrow> string \<times> s3_object \<Rightarrow> remote_object option" where
  "object_at prefix ko = (case ko of (key, ob) \<Rightarrow>
     if \<not> has_prefix prefix key \<or> relative_key prefix key = [] then None
     else Some \<lparr> ro_key = key, ro_rel = relative_key prefix key, ro_version = None,
            ro_size = int (length (so_data ob)), ro_modified = so_modified ob \<rparr>)"

definition list_latest_objects :: "s3_env \<Rightarrow> s3_store \<Rightarrow> string \<Rightarrow> goerr + remote_object list" where
  "list_latest_objects env store prefix = (case se_list env of
      Some e \<Rightarrow> Inl (WrapErr ''list objects'' e)
    | None \<Rightarrow> Inr (List.map_filter (object_at prefix) (st_objects store)))"

definition list_objects_as_of :: "s3_env \<Rightarrow> s3_store \<Rightarrow> string \<Rightarrow> gotime \<Rightarrow> goerr + remote_object list" where
  "list_objects_as_of env store prefix as_of = (case se_list_versions env of
      Some e \<Rightarrow> Inl (WrapErr ''list object versions'' e)
    | None \<Rightarrow> Inr (select_objects_as_of (filter (\<lambda>v. has_prefix prefix (ov_key v)) (st_versions store))
        (filter (\<lambda>d. has_prefix prefix (dm_key d)) (st_markers store)) prefix as_of))"

definition bucket_versioning_enabled :: "s3_env \<Rightarrow> goerr + bool" where
  "bucket_versioning_enabled env = (case se_versioning env of
      Inl e \<Rightarrow> Inl (WrapErr ''get versioning configuration'' e)
    | Inr status \<Rightarrow> Inr (status = ''Enabled''))"

text \<open>An error and a bucket without versioning are logged as warnings; both fall back to the latest state.\<close>
definition point_in_time :: "s3_env \<Rightarrow> gotime \<Rightarrow> bool" where
  "point_in_time env as_of \<longleftrightarrow> \<not> is_zero_time as_of \<and>
     (case bucket_versioning_enabled env of Inl e \<Rightarrow> False | Inr enabled \<Rightarrow> enabled)"

definition selected_objects :: "s3_env \<Rightarrow> s3_store \<Rightarrow> string \<Rightarrow> gotime \<Rightarrow> goerr + remote_object list" where
  "selected_objects env store prefix as_of = (if point_in_time env as_of
     then list_objects_as_of env store prefix as_of else list_latest_objects env store prefix)"

section \<open>Download\<close>

definition write_object :: "s3_env \<Rightarrow> local_dir \<Rightarrow> remote_object \<Rightarrow> error \<times> local_dir" where
  "write_object env dir ob = (case se_get env (ro_key ob) (ro_version ob) of
      Inl e \<Rightarrow> (Some (WrapErr ''get object'' e), dir)
    | Inr (data, copy_err) \<Rightarrow>
       (case se_mkdir env (ro_rel ob) of Some e \<Rightarrow> (Some (WrapErr ''create parent directory'' e), dir)
      | None \<Rightarrow> (case se_create env (ro_rel ob) of Some e \<Rightarrow> (Some (WrapErr ''create'' e), dir)
      | None \<Rightarrow>
         (let dir' = AList.update (ro_rel ob) \<lparr> lf_data = data, lf_modified = se_now env \<rparr> dir;
              err = new_aggregate [trace_wrap ''write object'' copy_err, trace_wrap ''close'' (se_close env (ro_rel ob))]
          in if err \<noteq> None then (err, dir')
             else (case se_chtimes env (ro_rel ob) of Some e \<Rightarrow> (Some (WrapErr ''set modification time'' e), dir')
               | None \<Rightarrow> (None, AList.update (ro_rel ob) \<lparr> lf_data = data, lf_modified = ro_modified ob \<rparr> dir))))))"

text \<open>
  The stat decides: an up-to-date file is kept; any error but not-exist is returned, wrapped, and for a
  file that exists and is not up to date that error is nil.
\<close>
definition download_object :: "s3_env \<Rightarrow> local_dir \<Rightarrow> remote_object \<Rightarrow> error \<times> local_dir" where
  "download_object env dir ob =
     (case se_stat env (ro_rel ob) of
        Some e \<Rightarrow> (Some (WrapErr ''stat'' e), dir)
      | None \<Rightarrow>
       (case map_of dir (ro_rel ob) of
          Some info \<Rightarrow>
            if int (length (lf_data info)) = ro_size ob \<and> \<not> lf_modified info < ro_modified ob then (None, dir)
            else (trace_wrap ''stat'' None, dir)
        | None \<Rightarrow> write_object env dir ob))"

text \<open>The error group: every object is tried, the first error is reported.\<close>
fun download_all :: "s3_env \<Rightarrow> local_dir \<Rightarrow> remote_object list \<Rightarrow> error \<times> local_dir" where
  "download_all env dir [] = (None, dir)"
| "download_all env dir (ob # obs) = (case download_object env dir ob of (e1, dir1) \<Rightarrow>
     (case download_all env dir1 obs of (e2, dir2) \<Rightarrow> ((case e1 of Some e \<Rightarrow> Some e | None \<Rightarrow> e2), dir2)))"

fun prune_files :: "s3_env \<Rightarrow> string set \<Rightarrow> local_dir \<Rightarrow> error \<times> local_dir" where
  "prune_files env keep [] = (None, [])"
| "prune_files env keep ((rel, f) # fs) =
     (if rel \<in> keep then (case prune_files env keep fs of (e, fs') \<Rightarrow> (e, (rel, f) # fs'))
      else (case se_remove env rel of
          Some e \<Rightarrow> (Some (WrapErr ''remove stale file'' e), (rel, f) # fs)
        | None \<Rightarrow> prune_files env keep fs))"

definition remove_extraneous_local_files :: "s3_env \<Rightarrow> string set \<Rightarrow> local_dir \<Rightarrow> error \<times> local_dir" where
  "remove_extraneous_local_files env keep dir = (case se_dir env of
      Some e \<Rightarrow> (Some (WrapErr ''stat'' e), dir) | None \<Rightarrow> prune_files env keep dir)"

definition s3_download :: "s3_env \<Rightarrow> s3_store \<Rightarrow> string \<Rightarrow> local_dir \<Rightarrow> gotime \<Rightarrow> error \<times> local_dir" where
  "s3_download env store prefix dir as_of = (case selected_objects env store prefix as_of of
      Inl e \<Rightarrow> (Some (WrapErr ''list objects in bucket'' e), dir)
    | Inr objects \<Rightarrow>
       (case download_all env dir objects of
          (Some e, dir') \<Rightarrow> (Some (WrapErr ''download one or more objects'' e), dir')
        | (None, dir') \<Rightarrow>
            (case remove_extraneous_local_files env (set (map ro_rel objects)) dir' of
               (e, dir'') \<Rightarrow> (trace_wrap ''prune stale files'' e, dir''))))"

section \<open>Upload\<close>

text \<open>filepath.Ext: the suffix of the last path element from its last dot on.\<close>
definition path_ext :: "string \<Rightarrow> string" where
  "path_ext p = (let stem = takeWhile (\<lambda>c. c \<noteq> CHR ''.'' \<and> c \<noteq> slash) (rev p) in
     case drop (length stem) (rev p) of
       c # _ \<Rightarrow> if c = CHR ''.'' then CHR ''.'' # rev stem else []
     | [] \<Rightarrow> [])"

definition detect_content_type :: "s3_env \<Rightarrow> string \<Rightarrow> string \<Rightarrow> goerr + string" where
  "detect_content_type env rel data =
     (let content_type = se_type_by_extension env (path_ext rel) in
      if content_type \<noteq> [] then Inr content_type
      else (case se_read env rel of Some e \<Rightarrow> Inl (WrapErr ''read for content type detection'' e)
    | None \<Rightarrow> (case se_seek env rel of Some e \<Rightarrow> Inl (WrapErr ''seek back to start'' e)
    | None \<Rightarrow> Inr (se_sniff env (take 512 data)))))"

lemma path_ext_examples: "path_ext ''a/b.tar.gz'' = ''.gz'' \<and> path_ext ''a.d/b'' = [] \<and> path_ext ''.env'' = ''.env''"
  by code_simp

lemma detect_content_type_ne:
  "(\<And>d. se_sniff env d \<noteq> []) \<Longrightarrow> detect_content_type env rel data = Inr t \<Longrightarrow> t \<noteq> []"
  by (auto simp: detect_content_type_def Let_def split: if_splits option.splits)

definition put_object :: "s3_env \<Rightarrow> string \<Rightarrow> (string \<times> s3_object) list \<Rightarrow> string \<times> local_file
    \<Rightarrow> error \<times> (string \<times> s3_object) list" where
  "put_object env prefix objs lf = (case lf of (rel, f) \<Rightarrow>
     (let key = path_join [prefix, rel] in
      case se_open env rel of Some e \<Rightarrow> (Some (WrapErr ''open'' e), objs)
    | None \<Rightarrow> (case detect_content_type env rel (lf_data f) of Inl e \<Rightarrow> (Some (WrapErr ''detect content type'' e), objs)
    | Inr content_type \<Rightarrow> (case se_put env key of Some e \<Rightarrow> (Some (WrapErr ''upload'' e), objs)
    | None \<Rightarrow> (trace_wrap ''close'' (se_close env rel),
        AList.update key \<lparr> so_data = lf_data f, so_type = content_type, so_modified = se_now env \<rparr> objs)))))"

definition delete_object :: "s3_env \<Rightarrow> (string \<times> s3_object) list \<Rightarrow> remote_object \<Rightarrow> error \<times> (string \<times> s3_object) list" where
  "delete_object env objs ob = (case se_delete env (ro_key ob) of
      Some e \<Rightarrow> (Some (WrapErr ''delete object'' e), objs)
    | None \<Rightarrow> (None, AList.delete (ro_key ob) objs))"

text \<open>The tasks of one error group, in some order.\<close>
fun run_tasks :: "('a \<Rightarrow> error \<times> 'a) list \<Rightarrow> 'a \<Rightarrow> error \<times> 'a" where
  "run_tasks [] x = (None, x)"
| "run_tasks (t # ts) x = (case t x of (e1, x1) \<Rightarrow>
     (case run_tasks ts x1 of (e2, x2) \<Rightarrow> ((case e1 of Some e \<Rightarrow> Some e | None \<Rightarrow> e2), x2)))"

definition up_to_date :: "(string \<times> remote_object) list \<Rightarrow> string \<times> local_file \<Rightarrow> bool" where
  "up_to_date remote_by_rel lf \<longleftrightarrow> (case map_of remote_by_rel (fst lf) of
      Some ex \<Rightarrow> ro_size ex = int (length (lf_data (snd lf))) \<and> \<not> ro_modified ex < lf_modified (snd lf)
    | None \<Rightarrow> False)"

definition uploads :: "remote_object list \<Rightarrow> local_dir \<Rightarrow> (string \<times> local_file) list" where
  "uploads remote dir = filter (\<lambda>lf. \<not> up_to_date (rev (map (\<lambda>ob. (ro_rel ob, ob)) remote)) lf) dir"

definition prunes :: "remote_object list \<Rightarrow> local_dir \<Rightarrow> remote_object list" where
  "prunes remote dir = filter (\<lambda>ob. ro_rel ob \<notin> fst ` set dir) remote"

definition s3_upload :: "s3_env \<Rightarrow> local_dir \<Rightarrow> s3_store \<Rightarrow> string \<Rightarrow> error \<times> s3_store" where
  "s3_upload env dir store prefix = (case se_dir env of
      Some e \<Rightarrow> (Some (WrapErr ''enumerate local files'' e), store)
    | None \<Rightarrow> (case list_latest_objects env store prefix of
        Inl e \<Rightarrow> (Some (WrapErr ''list existing objects'' e), store)
      | Inr remote \<Rightarrow>
         (case run_tasks (map (\<lambda>lf objs. put_object env prefix objs lf) (uploads remote dir)
                 @ map (\<lambda>ob objs. delete_object env objs ob) (prunes remote dir)) (st_objects store) of
            (e, objs) \<Rightarrow> (trace_wrap ''upload or prune one or more objects'' e, store\<lparr>st_objects := objs\<rparr>))))"

text \<open>Sync: the direction is read off the two paths.\<close>
definition s3_sync :: "s3_env \<Rightarrow> s3_store \<Rightarrow> local_dir \<Rightarrow> string \<Rightarrow> string \<Rightarrow> gotime \<Rightarrow> error \<times> s3_store \<times> local_dir" where
  "s3_sync env store dir src dest as_of =
     (case parse_s3_path (se_url env) src of
        Inl e \<Rightarrow> (Some (WrapErr ''parse source path'' e), store, dir)
      | Inr src_path \<Rightarrow>
       (case parse_s3_path (se_url env) dest of
          Inl e \<Rightarrow> (Some (WrapErr ''parse destination path'' e), store, dir)
        | Inr dest_path \<Rightarrow>
         (case (src_path, dest_path) of
            (Some sp, None) \<Rightarrow> (case s3_download env store (sp_prefix sp) dir as_of of
               (e, dir') \<Rightarrow> (trace_wrap ''download'' e, store, dir'))
          | (None, Some dp) \<Rightarrow> (case s3_upload env dir store (sp_prefix dp) of
               (e, store') \<Rightarrow> (trace_wrap ''upload'' e, store', dir))
          | (Some _, Some _) \<Rightarrow> (Some (errorf ''s3-to-s3 sync is not supported''), store, dir)
          | (None, None) \<Rightarrow> (Some (errorf ''local-to-local sync is not supported''), store, dir))))"

section \<open>What a download does\<close>

text \<open>A download looks at and changes only the file of its own object.\<close>
definition alone :: "string \<Rightarrow> local_file option \<Rightarrow> local_dir" where
  "alone rel cur = (case cur of None \<Rightarrow> [] | Some f \<Rightarrow> [(rel, f)])"

definition obj_error :: "s3_env \<Rightarrow> local_file option \<Rightarrow> remote_object \<Rightarrow> error" where
  "obj_error env cur ob = fst (download_object env (alone (ro_rel ob) cur) ob)"

definition obj_result :: "s3_env \<Rightarrow> local_file option \<Rightarrow> remote_object \<Rightarrow> local_file option" where
  "obj_result env cur ob = map_of (snd (download_object env (alone (ro_rel ob) cur) ob)) (ro_rel ob)"

lemma write_object_local:
  "map_of dir (ro_rel ob) = None \<Longrightarrow>
     fst (write_object env dir ob) = fst (write_object env [] ob) \<and>
     map_of (snd (write_object env dir ob)) = (map_of dir)(ro_rel ob := map_of (snd (write_object env [] ob)) (ro_rel ob))"
  by (auto simp: write_object_def Let_def update_conv' fun_upd_idem new_aggregate_pair split: sum.splits option.splits)

lemma download_object_local:
  "fst (download_object env dir ob) = obj_error env (map_of dir (ro_rel ob)) ob"
  "map_of (snd (download_object env dir ob)) = (map_of dir)(ro_rel ob := obj_result env (map_of dir (ro_rel ob)) ob)"
  using write_object_local [of dir ob env]
  by (cases "map_of dir (ro_rel ob)";
      auto simp: obj_error_def obj_result_def download_object_def alone_def fun_upd_idem split: option.splits)+

lemma obj_result_ok:
  "obj_error env cur ob = None \<Longrightarrow> (case cur of
     Some f \<Rightarrow> obj_result env cur ob = Some f
   | None \<Rightarrow> \<exists>data. se_get env (ro_key ob) (ro_version ob) = Inr (data, None) \<and>
        obj_result env cur ob = Some \<lparr> lf_data = data, lf_modified = ro_modified ob \<rparr>)"
  by (auto simp: obj_error_def obj_result_def download_object_def alone_def write_object_def Let_def new_aggregate_pair update_conv'
      split: option.splits sum.splits if_splits)

lemma download_all_local:
  assumes "distinct (map ro_rel obs)"
  shows "(fst (download_all env dir obs) = None \<longleftrightarrow> (\<forall>ob \<in> set obs. obj_error env (map_of dir (ro_rel ob)) ob = None)) \<and>
     (\<forall>ob \<in> set obs. map_of (snd (download_all env dir obs)) (ro_rel ob) = obj_result env (map_of dir (ro_rel ob)) ob) \<and>
     (\<forall>rel. rel \<notin> ro_rel ` set obs \<longrightarrow> map_of (snd (download_all env dir obs)) rel = map_of dir rel)"
  using assms
proof (induction obs arbitrary: dir)
  case (Cons ob obs)
  obtain e1 dir1 where d: "download_object env dir ob = (e1, dir1)" by (cases "download_object env dir ob")
  obtain e2 dir2 where a: "download_all env dir1 obs = (e2, dir2)" by (cases "download_all env dir1 obs")
  from download_object_local [of env dir ob] d have e1: "e1 = obj_error env (map_of dir (ro_rel ob)) ob"
    and m1: "map_of dir1 = (map_of dir)(ro_rel ob := obj_result env (map_of dir (ro_rel ob)) ob)" by auto
  have ne: "ro_rel ob' \<noteq> ro_rel ob" if "ob' \<in> set obs" for ob'
    using Cons.prems that by (metis distinct.simps(2) image_eqI image_set list.simps(9))
  have "distinct (map ro_rel obs)" using Cons.prems by simp
  note IH = Cons.IH [OF this, of dir1, unfolded a fst_conv snd_conv m1]
  have e2: "e2 = None \<longleftrightarrow> (\<forall>ob \<in> set obs. obj_error env (map_of dir (ro_rel ob)) ob = None)"
    using IH ne by auto
  have m2: "\<forall>ob \<in> set obs. map_of dir2 (ro_rel ob) = obj_result env (map_of dir (ro_rel ob)) ob" using IH ne by auto
  have m3: "map_of dir2 (ro_rel ob) = obj_result env (map_of dir (ro_rel ob)) ob"
    using IH ne by (metis fun_upd_same imageE)
  show ?case using d a e1 e2 m2 m3 IH by (auto split: option.splits)
qed simp


lemma prune_files_ok:
  "prune_files env keep fs = (None, fs') \<Longrightarrow> fs' = filter (\<lambda>(rel, f). rel \<in> keep) fs"
  by (induction fs arbitrary: fs') (auto split: if_splits option.splits prod.splits)

lemma map_of_filter_keys: "map_of (filter (\<lambda>(k, v). k \<in> keep) xs) k = (if k \<in> keep then map_of xs k else None)"
  by (induction xs) auto


text \<open>An existing file is never refreshed: whatever the size and time of the object, downloading it over an
  existing file changes nothing and reports success.\<close>
lemma download_keeps_stale_file:
  "ro_rel ob \<in> dom (map_of dir) \<Longrightarrow> se_stat env (ro_rel ob) = None \<Longrightarrow> download_object env dir ob = (None, dir)"
  by (auto simp: download_object_def)

section \<open>What an upload does\<close>

lemma run_tasks_append: "run_tasks (ts @ us) x = (case run_tasks ts x of (e1, x1) \<Rightarrow>
    (case run_tasks us x1 of (e2, x2) \<Rightarrow> ((case e1 of Some e \<Rightarrow> Some e | None \<Rightarrow> e2), x2)))"
  by (induction ts arbitrary: x) (auto split: prod.splits option.splits)

definition put_key :: "string \<Rightarrow> string \<times> local_file \<Rightarrow> string" where
  "put_key pfx lf = path_join [pfx, fst lf]"

text \<open>The object an upload stores for a file.\<close>
definition content_type :: "s3_env \<Rightarrow> string \<Rightarrow> string \<Rightarrow> string" where
  "content_type env rel data = (case detect_content_type env rel data of Inl e \<Rightarrow> [] | Inr t \<Rightarrow> t)"

definition uploaded :: "s3_env \<Rightarrow> string \<Rightarrow> string \<Rightarrow> s3_object" where
  "uploaded env rel data = \<lparr> so_data = data, so_type = content_type env rel data, so_modified = se_now env \<rparr>"

lemma uploaded_dir [simp]: "uploaded (env\<lparr>se_dir := d\<rparr>) = uploaded env"
  by (simp add: fun_eq_iff uploaded_def content_type_def detect_content_type_def Let_def split: option.split)

lemma run_puts:
  "run_tasks (map (\<lambda>lf objs. put_object env pfx objs lf) us) objs = (None, objs') \<Longrightarrow> distinct (map (put_key pfx) us) \<Longrightarrow>
     (\<forall>lf \<in> set us. map_of objs' (put_key pfx lf) = Some (uploaded env (fst lf) (lf_data (snd lf)))) \<and>
     (\<forall>k. k \<notin> put_key pfx ` set us \<longrightarrow> map_of objs' k = map_of objs k)"
proof (induction us arbitrary: objs)
  case (Cons u us)
  obtain rel f where u: "u = (rel, f)" by (cases u)
  from Cons.prems(1) u have put: "put_object env pfx objs u
       = (None, AList.update (put_key pfx u) (uploaded env rel (lf_data f)) objs)"
    and rest: "run_tasks (map (\<lambda>lf objs. put_object env pfx objs lf) us)
       (AList.update (put_key pfx u) (uploaded env rel (lf_data f)) objs) = (None, objs')"
    by (auto simp: put_object_def put_key_def uploaded_def content_type_def Let_def
        split: option.splits prod.splits sum.splits)
  have d: "distinct (map (put_key pfx) us)" "put_key pfx u \<notin> put_key pfx ` set us" using Cons.prems(2) by auto
  from Cons.IH [OF rest d(1)] d(2) u show ?case by (auto simp: update_conv')
qed simp

lemma run_deletes:
  "run_tasks (map (\<lambda>ob objs. delete_object env objs ob) obs) objs = (None, objs') \<Longrightarrow>
     map_of objs' k = (if k \<in> ro_key ` set obs then None else map_of objs k)"
proof (induction obs arbitrary: objs)
  case (Cons ob obs)
  from Cons.prems have "run_tasks (map (\<lambda>ob objs. delete_object env objs ob) obs) (AList.delete (ro_key ob) objs) = (None, objs')"
    by (auto simp: delete_object_def split: option.splits prod.splits)
  from Cons.IH [OF this] show ?case by (auto simp: delete_conv')
qed simp

lemma object_at_Some:
  "object_at pfx (k, o1) = Some ob \<Longrightarrow> ro_key ob = k \<and> ro_rel ob = relative_key pfx k \<and>
     ro_size ob = int (length (so_data o1)) \<and> ro_modified ob = so_modified o1 \<and> has_prefix pfx k"
  by (auto simp: object_at_def split: if_splits)

text \<open>The keys of the uploads lead back to the files: true of clean prefixes and relative paths.\<close>
definition keys_lead_back :: "string \<Rightarrow> local_dir \<Rightarrow> bool" where
  "keys_lead_back pfx dir \<longleftrightarrow> (\<forall>lf \<in> set dir. relative_key pfx (put_key pfx lf) = fst lf \<and> fst lf \<noteq> [])"

text \<open>After an upload that reports no error, every local file is either stored under its key or was already
  there, up to date; every other object whose key starts with the prefix is gone; and no object whose key
  does not start with the prefix was touched.\<close>
lemma s3_upload_result:
  assumes run: "s3_upload env dir store pfx = (None, store')"
    and d: "distinct (map fst dir)" and ds: "distinct (map fst (st_objects store))" and lead: "keys_lead_back pfx dir"
  shows "(\<forall>lf \<in> set dir.
       map_of (st_objects store') (put_key pfx lf) = Some (uploaded env (fst lf) (lf_data (snd lf))) \<or>
       (\<exists>key ob. map_of (st_objects store') key = Some ob \<and> relative_key pfx key = fst lf \<and>
          length (so_data ob) = length (lf_data (snd lf)) \<and> lf_modified (snd lf) \<le> so_modified ob)) \<and>
     (\<forall>key ob. map_of (st_objects store') key = Some ob \<longrightarrow> has_prefix pfx key \<longrightarrow> relative_key pfx key \<noteq> [] \<longrightarrow>
        relative_key pfx key \<in> fst ` set dir) \<and>
     (\<forall>key. \<not> has_prefix pfx key \<longrightarrow> key \<notin> put_key pfx ` set dir \<longrightarrow>
        map_of (st_objects store') key = map_of (st_objects store) key)"
proof -
  let ?remote = "List.map_filter (object_at pfx) (st_objects store)"
  let ?us = "uploads ?remote dir" and ?ps = "prunes ?remote dir"
  from run obtain e1 objs1 where
    puts: "run_tasks (map (\<lambda>lf objs. put_object env pfx objs lf) ?us) (st_objects store) = (e1, objs1)"
    by (metis surj_pair)
  with run have e1: "e1 = None" and
    dels: "run_tasks (map (\<lambda>ob objs. delete_object env objs ob) ?ps) objs1 = (None, st_objects store')"
    by (auto simp: s3_upload_def list_latest_objects_def run_tasks_append split: option.splits prod.splits)
  have sub: "set ?us \<subseteq> set dir" by (auto simp: uploads_def)
  have rel: "relative_key pfx (put_key pfx lf) = fst lf" if "lf \<in> set dir" for lf
    using lead that by (auto simp: keys_lead_back_def)
  have "distinct ?us" "inj_on fst (set ?us)"
    using d sub by (auto simp: uploads_def distinct_map intro: inj_on_subset)
  moreover have "inj_on (put_key pfx) (set ?us)"
    by (rule inj_onI) (metis calculation(2) inj_onD rel sub subsetD)
  ultimately have "distinct (map (put_key pfx) ?us)" by (simp add: distinct_map)
  note P = run_puts [OF puts [unfolded e1] this] and D = run_deletes [OF dels]
  have listed: "ob \<in> set ?remote \<longleftrightarrow> (\<exists>o1. (ro_key ob, o1) \<in> set (st_objects store) \<and> object_at pfx (ro_key ob, o1) = Some ob)" for ob
    unfolding set_map_filter_iff by (auto simp: object_at_def split: if_splits prod.splits) fastforce+
  have orel: "ro_rel ob = relative_key pfx (ro_key ob) \<and> has_prefix pfx (ro_key ob)" if "ob \<in> set ?remote" for ob
    using that unfolding set_map_filter_iff by (auto simp: object_at_def split: if_splits)
  have kept: "key \<notin> ro_key ` set ?ps" if "relative_key pfx key \<in> fst ` set dir" for key
  proof
    assume "key \<in> ro_key ` set ?ps"
    then obtain ob where "ob \<in> set ?remote" "ro_rel ob \<notin> fst ` set dir" "key = ro_key ob" by (auto simp: prunes_def)
    with orel [of ob] that show False by simp
  qed
  show ?thesis
  proof (intro conjI ballI allI impI)
    fix lf assume lf: "lf \<in> set dir"
    show "map_of (st_objects store') (put_key pfx lf) = Some (uploaded env (fst lf) (lf_data (snd lf))) \<or>
       (\<exists>key ob. map_of (st_objects store') key = Some ob \<and> relative_key pfx key = fst lf \<and>
          length (so_data ob) = length (lf_data (snd lf)) \<and> lf_modified (snd lf) \<le> so_modified ob)"
    proof (cases "lf \<in> set ?us")
      case True
      with P D [of "put_key pfx lf"] kept [of "put_key pfx lf"] rel [OF lf] lf show ?thesis by auto
    next
      case False
      with lf obtain ex where ex: "map_of (rev (map (\<lambda>ob. (ro_rel ob, ob)) ?remote)) (fst lf) = Some ex"
        "ro_size ex = int (length (lf_data (snd lf)))" "lf_modified (snd lf) \<le> ro_modified ex"
        by (auto simp: uploads_def up_to_date_def split: option.splits)
      then have "ex \<in> set ?remote" and r: "ro_rel ex = fst lf" using map_of_SomeD [OF ex(1)] by auto
      then obtain o1 where o1: "(ro_key ex, o1) \<in> set (st_objects store)" "object_at pfx (ro_key ex, o1) = Some ex"
        unfolding listed by blast
      then have rk: "relative_key pfx (ro_key ex) = fst lf" "ro_size ex = int (length (so_data o1))" "ro_modified ex = so_modified o1"
        using r object_at_Some [OF o1(2)] by auto
      have "map_of (st_objects store) (ro_key ex) = Some o1" using o1(1) ds by simp
      moreover have "ro_key ex \<notin> put_key pfx ` set ?us"
      proof
        assume "ro_key ex \<in> put_key pfx ` set ?us"
        then obtain u where u: "u \<in> set ?us" "ro_key ex = put_key pfx u" by blast
        have "u \<in> set dir" using u(1) sub by blast
        from rel [OF this] rk(1) u(2) have "fst u = fst lf" by simp
        with u(1) sub lf d have "u = lf" by (metis distinct_map inj_onD subsetD)
        with u False show False by simp
      qed
      ultimately have "map_of (st_objects store') (ro_key ex) = Some o1"
        using P D [of "ro_key ex"] kept [of "ro_key ex"] rk(1) lf by auto
      with ex rk show ?thesis by auto
    qed
  next
    fix key ob
    assume o1: "map_of (st_objects store') key = Some ob" and p: "has_prefix pfx key" and r: "relative_key pfx key \<noteq> []"
    show "relative_key pfx key \<in> fst ` set dir"
    proof (cases "key \<in> put_key pfx ` set ?us")
      case True
      with rel sub show ?thesis by force
    next
      case False
      with o1 D [of key] P have nd: "key \<notin> ro_key ` set ?ps" and "map_of (st_objects store) key = Some ob"
        by (auto split: if_splits)
      then have "(key, ob) \<in> set (st_objects store)" by (simp add: map_of_SomeD)
      then obtain rb where rb: "rb \<in> set ?remote" "ro_key rb = key" "ro_rel rb = relative_key pfx key"
        unfolding set_map_filter_iff using p r by (force simp: object_at_def)
      show ?thesis
      proof (rule ccontr)
        assume "relative_key pfx key \<notin> fst ` set dir"
        with rb have "rb \<in> set ?ps" by (simp add: prunes_def)
        with nd rb(2) show False by blast
      qed
    qed
  next
    fix key assume np: "\<not> has_prefix pfx key" and nk: "key \<notin> put_key pfx ` set dir"
    have "key \<notin> ro_key ` set ?ps" using np orel by (auto simp: prunes_def)
    moreover have "key \<notin> put_key pfx ` set ?us" using nk sub by blast
    ultimately show "map_of (st_objects store') key = map_of (st_objects store) key" using P D [of key] by simp
  qed
qed

text \<open>An environment in which every call succeeds: the body of an object is its key.\<close>
definition sample_s3_env :: s3_env where
  "sample_s3_env = \<lparr>
     se_url = (\<lambda>raw. Inr (if has_prefix ''s3://'' raw then \<lparr> u_scheme = ''s3'', u_host = ''b'', u_path = ''/media'' \<rparr>
        else \<lparr> u_scheme = [], u_host = [], u_path = raw \<rparr>)),
     se_versioning = Inr ''Enabled'', se_list = None, se_list_versions = None,
     se_get = (\<lambda>key v. Inr (key, None)), se_put = (\<lambda>_. None), se_delete = (\<lambda>_. None), se_stat = (\<lambda>_. None),
     se_mkdir = (\<lambda>_. None), se_create = (\<lambda>_. None), se_open = (\<lambda>_. None), se_close = (\<lambda>_. None),
     se_chtimes = (\<lambda>_. None), se_remove = (\<lambda>_. None), se_type_by_extension = (\<lambda>_. []),
     se_read = (\<lambda>_. None), se_seek = (\<lambda>_. None), se_sniff = (\<lambda>_. ''text/plain''), se_dir = None, se_now = 99 \<rparr>"

definition sample_store :: s3_store where
  "sample_store = \<lparr> st_objects = [(''media/a'', \<lparr> so_data = ''A'', so_type = ''text/plain'', so_modified = 5 \<rparr>),
       (''media-old/x'', \<lparr> so_data = ''X'', so_type = ''text/plain'', so_modified = 5 \<rparr>)],
     st_versions = [\<lparr> ov_key = ''media/a'', ov_modified = 5, ov_size = 1, ov_version = Some ''v1'' \<rparr>,
       \<lparr> ov_key = ''media/a'', ov_modified = 9, ov_size = 2, ov_version = Some ''v2'' \<rparr>,
       \<lparr> ov_key = ''media/b'', ov_modified = 3, ov_size = 2, ov_version = Some ''v1'' \<rparr>],
     st_markers = [\<lparr> dm_key = ''media/b'', dm_modified = 4 \<rparr>] \<rparr>"

text \<open>The listing takes every key that starts with the characters of the prefix, so uploading to
  s3://b/media deletes the objects under media-old.\<close>
lemma s3_upload_deletes_sibling:
  "\<exists>store'. s3_sync sample_s3_env sample_store [(''a'', \<lparr> lf_data = ''A'', lf_modified = 5 \<rparr>)] ''/srv/media'' ''s3://b/media'' 0
     = (None, store', [(''a'', \<lparr> lf_data = ''A'', lf_modified = 5 \<rparr>)]) \<and>
     map_of (st_objects sample_store) ''media-old/x'' \<noteq> None \<and> map_of (st_objects store') ''media-old/x'' = None \<and>
     map_of (st_objects store') ''media/a'' = map_of (st_objects sample_store) ''media/a''"
proof -
  have "s3_sync sample_s3_env sample_store [(''a'', \<lparr> lf_data = ''A'', lf_modified = 5 \<rparr>)] ''/srv/media'' ''s3://b/media'' 0
     = (None, sample_store\<lparr>st_objects := [(''media/a'', \<lparr> so_data = ''A'', so_type = ''text/plain'', so_modified = 5 \<rparr>)]\<rparr>, [(''a'', \<lparr> lf_data = ''A'', lf_modified = 5 \<rparr>)])"
    by code_simp
  then show ?thesis by (simp add: sample_store_def)
qed



theorem download_keeps_stale_file_witness:
  "download_object sample_s3_env [(''a'', \<lparr> lf_data = ''old'', lf_modified = 1 \<rparr>)]
      \<lparr> ro_key = ''media/a'', ro_rel = ''a'', ro_version = None, ro_size = 100, ro_modified = 50 \<rparr>
    = (None, [(''a'', \<lparr> lf_data = ''old'', lf_modified = 1 \<rparr>)])"
  by (rule download_keeps_stale_file) (simp_all add: sample_s3_env_def)

theorem select_objects_as_of_correct_witness:
  "(\<exists>ob \<in> set (select_objects_as_of (st_versions sample_store) (st_markers sample_store) ''media'' 6). ro_key ob = ''media/a'' \<and> ro_modified ob = 5) \<and>
   select_objects_as_of (filter (\<lambda>v. ov_modified v \<le> 6) (st_versions sample_store)) (st_markers sample_store) ''media'' 6
     = select_objects_as_of (st_versions sample_store) (st_markers sample_store) ''media'' 6"
proof -
  let ?v = "\<lparr> ov_key = ''media/a'', ov_modified = 5, ov_size = 1, ov_version = Some ''v1'' \<rparr>"
  have v: "current_at (st_versions sample_store) (st_markers sample_store) 6 ?v \<and> relative_key ''media'' (ov_key ?v) \<noteq> []"
    by (simp add: current_at_def sample_store_def relative_key_def trim_prefix_def has_prefix_def has_suffix_def slash_def)
  have f: "filter (\<lambda>v. ov_modified v \<le> 6) (filter (\<lambda>v. ov_modified v \<le> 6) (st_versions sample_store))
      = filter (\<lambda>v. ov_modified v \<le> 6) (st_versions sample_store) \<and>
      filter (\<lambda>d. dm_modified d \<le> 6) (st_markers sample_store) = filter (\<lambda>d. dm_modified d \<le> 6) (st_markers sample_store)" by simp
  note T = select_objects_as_of_correct [of "st_versions sample_store" "st_markers sample_store" "''media''" 6]
  show ?thesis
  proof
    show "\<exists>ob \<in> set (select_objects_as_of (st_versions sample_store) (st_markers sample_store) ''media'' 6). ro_key ob = ''media/a'' \<and> ro_modified ob = 5"
      using T [THEN conjunct2, THEN conjunct1, THEN spec, THEN mp, OF v] by simp
    show "select_objects_as_of (filter (\<lambda>v. ov_modified v \<le> 6) (st_versions sample_store)) (st_markers sample_store) ''media'' 6
     = select_objects_as_of (st_versions sample_store) (st_markers sample_store) ''media'' 6"
      by (rule T [THEN conjunct2, THEN conjunct2, THEN spec, THEN spec, THEN mp, OF f])
  qed
qed

end
