(* ===== verification/Channel.thy ===== *)
theory Channel
  imports Files Postgres S3
begin

text \<open>
  The gRPC channel to the pod the tool runs in: the clients
  (\<^verbatim>\<open>src/pkg/grpc/clients\<close>: files.go, postgres.go, s3.go) encode a runtime call into its
  request, the servers (\<^verbatim>\<open>src/pkg/grpc/servers\<close>) decode it and run it on the local runtime.
  The property is that the call the server runs is the call the client was given, with the credentials
  replaced by the variables they stand for.  The transport and trail's error encoding are the
  world's \<^verbatim>\<open>w_call\<close>.
\<close>

section \<open>Runtime calls\<close>

datatype runtime_call =
    CopyFiles string string
  | SyncFiles string string file_filter
  | ListDirectory string
  | DumpAll credentials string duration
  | Restore credentials string
  | S3Sync s3_credentials string string gotime

section \<open>The clients\<close>

definition file_patterns_to_proto :: "file_pattern list \<Rightarrow> string list" where
  "file_patterns_to_proto ps = map fp_glob ps"

fun var_string :: "varname \<Rightarrow> string" where
  "var_string PGHOST = ''PGHOST''"
| "var_string PGPORT = ''PGPORT''"
| "var_string PGDATABASE = ''PGDATABASE''"
| "var_string PGUSER = ''PGUSER''"
| "var_string PGREQUIREAUTH = ''PGREQUIREAUTH''"
| "var_string PGSSLMODE = ''PGSSLMODE''"
| "var_string PGSSLCERT = ''PGSSLCERT''"
| "var_string PGSSLKEY = ''PGSSLKEY''"
| "var_string PGSSLROOTCERT = ''PGSSLROOTCERT''"

text \<open>The credential variables in the order slices.Sort gives their names.\<close>
definition sorted_varnames :: "varname list" where
  "sorted_varnames = [PGDATABASE, PGHOST, PGPORT, PGREQUIREAUTH, PGSSLCERT, PGSSLKEY, PGSSLMODE, PGSSLROOTCERT, PGUSER]"

lemma var_string_inj: "var_string a = var_string b \<Longrightarrow> a = b"
  by (cases a; cases b) simp_all

text \<open>The order of the variables is that of their names.\<close>
instantiation varname :: linorder
begin

definition less_eq_varname :: "varname \<Rightarrow> varname \<Rightarrow> bool" where
  "less_eq_varname a b \<longleftrightarrow> str_le (var_string a) (var_string b)"

definition less_varname :: "varname \<Rightarrow> varname \<Rightarrow> bool" where
  "less_varname a b \<longleftrightarrow> a \<le> b \<and> \<not> b \<le> a"

instance
proof
  fix a b c :: varname
  show "a \<le> a" using str_le_total by (auto simp: less_eq_varname_def)
  show "a \<le> b \<Longrightarrow> b \<le> c \<Longrightarrow> a \<le> c" by (auto simp: less_eq_varname_def intro: str_le_trans)
  show "a \<le> b \<Longrightarrow> b \<le> a \<Longrightarrow> a = b" by (auto simp: less_eq_varname_def intro: var_string_inj str_le_antisym)
  show "a \<le> b \<or> b \<le> a" using str_le_total by (auto simp: less_eq_varname_def)
qed (simp add: less_varname_def)

end

lemma sorted_varnames_sorted: "sorted sorted_varnames"
  by code_simp

lemma sorted_varnames_all [simp]: "set sorted_varnames = UNIV" "distinct sorted_varnames"
  using varname.exhaust by (auto simp: sorted_varnames_def)

text \<open>The variables that a set of credentials has, sorted.\<close>
lemma sorted_present: "filter (\<lambda>v. vars v \<noteq> None) sorted_varnames = sorted_list_of_set (dom vars)"
proof (rule sorted_distinct_set_unique)
  show "sorted (filter (\<lambda>v. vars v \<noteq> None) sorted_varnames)" using sorted_varnames_sorted by (simp add: sorted_wrt_filter)
  have "finite (UNIV :: varname set)" by (metis sorted_varnames_all(1) List.finite_set)
  then have "finite (dom vars)" by (rule finite_subset [OF subset_UNIV])
  then show "set (filter (\<lambda>v. vars v \<noteq> None) sorted_varnames) = set (sorted_list_of_set (dom vars))" by auto
qed simp_all

text \<open>VarName_value of the generated enum.\<close>
definition encode_variable :: "string \<Rightarrow> goerr + varname" where
  "encode_variable n = (case List.find (\<lambda>v. var_string v = n) sorted_varnames of
      Some v \<Rightarrow> Inr v | None \<Rightarrow> Inl (errorf ''unknown variable''))"

fun encode_variables :: "string list \<Rightarrow> (string \<Rightarrow> string) \<Rightarrow> goerr + env_variables" where
  "encode_variables [] value = Inr []"
| "encode_variables (n # ns) value = (case encode_variable n of
      Inl e \<Rightarrow> Inl (WrapErr ''encode credential variable'' e)
    | Inr v \<Rightarrow> (case encode_variables ns value of Inl e \<Rightarrow> Inl e | Inr vs \<Rightarrow> Inr ((v, value n) # vs)))"

definition encode_credentials :: "credentials \<Rightarrow> goerr + env_variables" where
  "encode_credentials c = (let vars = get_variables c; present = filter (\<lambda>v. vars v \<noteq> None) sorted_varnames in
     encode_variables (map var_string present) (\<lambda>n. case List.find (\<lambda>v. var_string v = n) present of
        Some v \<Rightarrow> env_value vars v | None \<Rightarrow> []))"

definition encode_dump_options :: "duration \<Rightarrow> duration option" where
  "encode_dump_options cleanup_timeout = (if cleanup_timeout \<noteq> 0 then Some cleanup_timeout else None)"

definition encode_s3_credentials :: "s3_credentials \<Rightarrow> s3_credentials_msg" where
  "encode_s3_credentials c = \<lparr> m_access_key_id = s3c_access_key c, m_secret_access_key = s3c_secret_key c,
     m_session_token = s3c_session_token c, m_region = s3c_region c, m_endpoint = s3c_endpoint c,
     m_force_path_style = s3c_path_style c \<rparr>"

definition encode_as_of :: "gotime \<Rightarrow> gotime option" where
  "encode_as_of as_of = (if is_zero_time as_of then None else Some as_of)"

text \<open>The request each method of the three clients builds.\<close>
definition copy_files_request :: "string \<Rightarrow> string \<Rightarrow> request" where
  "copy_files_request src dest = CopyFilesRequest src dest"

definition sync_files_request :: "string \<Rightarrow> string \<Rightarrow> file_filter \<Rightarrow> request" where
  "sync_files_request src dest f = SyncFilesRequest src dest
     (file_patterns_to_proto (ff_include f)) (file_patterns_to_proto (ff_exclude f))"

definition list_directory_request :: "string \<Rightarrow> request" where
  "list_directory_request path = ListDirectoryRequest path"

definition dump_all_request :: "credentials \<Rightarrow> string \<Rightarrow> duration \<Rightarrow> goerr + request" where
  "dump_all_request c path t = (case encode_credentials c of
      Inl e \<Rightarrow> Inl (WrapErr ''encode credentials'' e)
    | Inr vs \<Rightarrow> Inr (DumpAllRequest vs path (encode_dump_options t)))"

definition restore_request :: "credentials \<Rightarrow> string \<Rightarrow> goerr + request" where
  "restore_request c path = (case encode_credentials c of
      Inl e \<Rightarrow> Inl (WrapErr ''encode credentials'' e)
    | Inr vs \<Rightarrow> Inr (RestoreRequest vs path))"

definition s3_sync_request :: "s3_credentials \<Rightarrow> string \<Rightarrow> string \<Rightarrow> gotime \<Rightarrow> request" where
  "s3_sync_request c src dest as_of = S3SyncRequest (encode_s3_credentials c) src dest (encode_as_of as_of)"

lemmas request_defs [simp] = copy_files_request_def sync_files_request_def list_directory_request_def dump_all_request_def
  restore_request_def s3_sync_request_def

fun encode_call :: "runtime_call \<Rightarrow> goerr + request" where
  "encode_call (CopyFiles src dest) = Inr (copy_files_request src dest)"
| "encode_call (SyncFiles src dest f) = Inr (sync_files_request src dest f)"
| "encode_call (ListDirectory path) = Inr (list_directory_request path)"
| "encode_call (DumpAll c path t) = dump_all_request c path t"
| "encode_call (Restore c path) = restore_request c path"
| "encode_call (S3Sync c src dest as_of) = Inr (s3_sync_request c src dest as_of)"

definition client_call :: "runtime_call \<Rightarrow> ('s, response) prog" where
  "client_call c = bnd (lift_res (encode_call c)) rpc_call"

definition client_list_directory :: "string \<Rightarrow> ('s, string list) prog" where
  "client_list_directory path = bnd (client_call (ListDirectory path)) (\<lambda>r.
     ret (case r of EntriesResponse es \<Rightarrow> es | EmptyResponse \<Rightarrow> []))"

definition client_run :: "runtime_call \<Rightarrow> ('s, unit) prog" where
  "client_run c = bnd (client_call c) (\<lambda>_. ret ())"

section \<open>The servers\<close>

definition file_patterns_from_proto :: "string list \<Rightarrow> file_pattern list" where
  "file_patterns_from_proto gs = map (\<lambda>g. \<lparr> fp_glob = g \<rparr>) gs"

definition decode_credentials :: "env_variables \<Rightarrow> credentials" where
  "decode_credentials vs = EnvironmentCredentials (foldl (\<lambda>m (v, s). m(v \<mapsto> s)) Map.empty vs)"

definition decode_dump_options :: "duration option \<Rightarrow> duration" where
  "decode_dump_options t = (case t of None \<Rightarrow> 0 | Some d \<Rightarrow> d)"

definition decode_s3_credentials :: "s3_credentials_msg \<Rightarrow> s3_credentials" where
  "decode_s3_credentials m = with_path_style (m_force_path_style m) (with_endpoint (m_endpoint m)
     (with_region (m_region m) (with_session_token (m_session_token m)
       (new_credentials (m_access_key_id m) (m_secret_access_key m)))))"

definition decode_as_of :: "gotime option \<Rightarrow> gotime" where
  "decode_as_of t = (case t of None \<Rightarrow> 0 | Some a \<Rightarrow> a)"

text \<open>The handlers, on the local runtime; \<^verbatim>\<open>send\<close> is trail.Send.\<close>
definition serve_plain :: "(goerr \<Rightarrow> goerr) \<Rightarrow> (runtime_call \<Rightarrow> goerr + response) \<Rightarrow> runtime_call \<Rightarrow> goerr + response" where
  "serve_plain send runtime c = (case runtime c of Inl e \<Rightarrow> Inl (send e) | Inr _ \<Rightarrow> Inr EmptyResponse)"

definition serve_copy_files :: "(goerr \<Rightarrow> goerr) \<Rightarrow> (runtime_call \<Rightarrow> goerr + response) \<Rightarrow> string \<Rightarrow> string \<Rightarrow> goerr + response" where
  "serve_copy_files send runtime src dest = serve_plain send runtime (CopyFiles src dest)"

definition serve_sync_files :: "(goerr \<Rightarrow> goerr) \<Rightarrow> (runtime_call \<Rightarrow> goerr + response) \<Rightarrow> string \<Rightarrow> string
    \<Rightarrow> string list \<Rightarrow> string list \<Rightarrow> goerr + response" where
  "serve_sync_files send runtime src dest inc exc = serve_plain send runtime (SyncFiles src dest
     \<lparr> ff_include = file_patterns_from_proto inc, ff_exclude = file_patterns_from_proto exc \<rparr>)"

definition serve_list_directory :: "(goerr \<Rightarrow> goerr) \<Rightarrow> (runtime_call \<Rightarrow> goerr + response) \<Rightarrow> string \<Rightarrow> goerr + response" where
  "serve_list_directory send runtime path = (case runtime (ListDirectory path) of
      Inl e \<Rightarrow> Inl (send e)
    | Inr entries \<Rightarrow> Inr entries)"

definition serve_dump_all :: "(goerr \<Rightarrow> goerr) \<Rightarrow> (runtime_call \<Rightarrow> goerr + response) \<Rightarrow> env_variables \<Rightarrow> string
    \<Rightarrow> duration option \<Rightarrow> goerr + response" where
  "serve_dump_all send runtime vs path t =
     serve_plain send runtime (DumpAll (decode_credentials vs) path (decode_dump_options t))"

definition serve_restore :: "(goerr \<Rightarrow> goerr) \<Rightarrow> (runtime_call \<Rightarrow> goerr + response) \<Rightarrow> env_variables \<Rightarrow> string \<Rightarrow> goerr + response" where
  "serve_restore send runtime vs path = serve_plain send runtime (Restore (decode_credentials vs) path)"

definition serve_s3_sync :: "(goerr \<Rightarrow> goerr) \<Rightarrow> (runtime_call \<Rightarrow> goerr + response) \<Rightarrow> s3_credentials_msg \<Rightarrow> string
    \<Rightarrow> string \<Rightarrow> gotime option \<Rightarrow> goerr + response" where
  "serve_s3_sync send runtime m src dest t =
     serve_plain send runtime (S3Sync (decode_s3_credentials m) src dest (decode_as_of t))"

lemmas serve_defs = serve_plain_def serve_copy_files_def serve_sync_files_def serve_list_directory_def serve_dump_all_def
  serve_restore_def serve_s3_sync_def

fun serve :: "(goerr \<Rightarrow> goerr) \<Rightarrow> (runtime_call \<Rightarrow> goerr + response) \<Rightarrow> request \<Rightarrow> goerr + response" where
  "serve send runtime (CopyFilesRequest src dest) = serve_copy_files send runtime src dest"
| "serve send runtime (SyncFilesRequest src dest inc exc) = serve_sync_files send runtime src dest inc exc"
| "serve send runtime (ListDirectoryRequest path) = serve_list_directory send runtime path"
| "serve send runtime (DumpAllRequest vs path t) = serve_dump_all send runtime vs path t"
| "serve send runtime (RestoreRequest vs path) = serve_restore send runtime vs path"
| "serve send runtime (S3SyncRequest m src dest t) = serve_s3_sync send runtime m src dest t"

text \<open>The call the handler of a request makes.\<close>
fun decode_call :: "request \<Rightarrow> runtime_call" where
  "decode_call (CopyFilesRequest src dest) = CopyFiles src dest"
| "decode_call (SyncFilesRequest src dest inc exc) = SyncFiles src dest
     \<lparr> ff_include = file_patterns_from_proto inc, ff_exclude = file_patterns_from_proto exc \<rparr>"
| "decode_call (ListDirectoryRequest path) = ListDirectory path"
| "decode_call (DumpAllRequest vs path t) = DumpAll (decode_credentials vs) path (decode_dump_options t)"
| "decode_call (RestoreRequest vs path) = Restore (decode_credentials vs) path"
| "decode_call (S3SyncRequest m src dest t) = S3Sync (decode_s3_credentials m) src dest (decode_as_of t)"

text \<open>The answer to a call: the entries of a directory, nothing for any other.\<close>
definition answer_to :: "runtime_call \<Rightarrow> response \<Rightarrow> response" where
  "answer_to c r = (case c of ListDirectory path \<Rightarrow> r | _ \<Rightarrow> EmptyResponse)"

lemma serve_decode:
  "serve send runtime q = (case runtime (decode_call q) of Inl e \<Rightarrow> Inl (send e) | Inr r \<Rightarrow> Inr (answer_to (decode_call q) r))"
  by (cases q) (simp_all add: serve_defs answer_to_def split: sum.split)

section \<open>Round trip\<close>

text \<open>What the server runs for a call: its credentials as plain variables.\<close>
fun plain_call :: "runtime_call \<Rightarrow> runtime_call" where
  "plain_call (DumpAll c path t) = DumpAll (EnvironmentCredentials (get_variables c)) path t"
| "plain_call (Restore c path) = Restore (EnvironmentCredentials (get_variables c)) path"
| "plain_call c = c"

lemma answer_to_plain [simp]: "answer_to (plain_call c) = answer_to c"
  by (cases c) (simp_all add: answer_to_def fun_eq_iff)

lemma var_string_inject [simp]: "var_string a = var_string b \<longleftrightarrow> a = b"
  by (cases a; cases b) simp_all

lemma find_var: "v \<in> set vs \<Longrightarrow> List.find (\<lambda>u. u = v) vs = Some v"
  by (induction vs) auto

lemma encode_variables_ok:
  "encode_variables (map var_string vs) value = Inr (map (\<lambda>v. (v, value (var_string v))) vs)"
  by (induction vs) (auto simp: encode_variable_def find_var)

lemma foldl_update: "foldl (\<lambda>m (v, s). m(v \<mapsto> s)) m0 vs = m0 ++ map_of (rev vs)"
  by (induction vs arbitrary: m0) auto

lemma encode_credentials_ok:
  "\<exists>vs. encode_credentials c = Inr vs \<and> decode_credentials vs = EnvironmentCredentials (get_variables c)"
proof -
  let ?vars = "get_variables c" and ?p = "filter (\<lambda>v. get_variables c v \<noteq> None) sorted_varnames"
  have "encode_credentials c = Inr (map (\<lambda>v. (v, env_value ?vars v)) ?p)"
    unfolding encode_credentials_def Let_def encode_variables_ok by (auto simp: find_var)
  moreover have "map_of (rev (map (\<lambda>v. (v, env_value ?vars v)) ?p)) v = ?vars v" for v
    by (cases "?vars v") (auto simp: map_of_eq_None_iff distinct_map inj_on_def env_value_def intro!: map_of_is_SomeI image_eqI)
  ultimately show ?thesis by (auto simp: decode_credentials_def foldl_update)
qed

lemma decode_encode: "\<exists>q. encode_call c = Inr q \<and> decode_call q = plain_call c"
proof -
  have f: "file_patterns_from_proto (file_patterns_to_proto ps) = ps" for ps
    by (induction ps) (simp_all add: file_patterns_from_proto_def file_patterns_to_proto_def)
  have s: "decode_s3_credentials (encode_s3_credentials k) = k" for k
    by (simp add: decode_s3_credentials_def encode_s3_credentials_def new_credentials_def credential_setters)
  show ?thesis
  proof (cases c)
    case (DumpAll k path t)
    with encode_credentials_ok [of k] show ?thesis by (auto simp: decode_dump_options_def encode_dump_options_def)
  next
    case (Restore k path)
    with encode_credentials_ok [of k] show ?thesis by auto
  qed (simp_all add: f s decode_as_of_def encode_as_of_def is_zero_time_def)
qed

text \<open>C11: every call encodes, and what it does is what the runtime behind the channel does with the same call, its
  credentials given as the variables they stand for; only a directory listing answers more than success.\<close>
theorem client_call_runs_remotely:
  assumes "\<And>q. w_call w tr q = serve send (runtime tr) q"
  shows "\<exists>q. client_call c w s tr = (case runtime tr (plain_call c) of Inl e \<Rightarrow> Inl (send e) | Inr r \<Rightarrow> Inr (answer_to c r), s, tr @ [Called q])
     \<and> decode_call q = plain_call c"
  using decode_encode [of c] assms by (auto simp: client_call_def prog_simps serve_decode split: sum.split)

text \<open>A runtime that knows one directory and one database.\<close>
definition sample_runtime :: "trace \<Rightarrow> runtime_call \<Rightarrow> goerr + response" where
  "sample_runtime tr c = (case c of
      ListDirectory path \<Rightarrow> Inr (EntriesResponse [''data''])
    | DumpAll k path t \<Rightarrow> if get_host k = ''pg'' then Inr EmptyResponse else Inl (errorf ''unknown host'')
    | _ \<Rightarrow> Inl (errorf ''unsupported''))"

theorem client_call_runs_remotely_witness:
  "fst (client_call (DumpAll (KubernetesSecretCredentials \<lparr> sec_host = ''pg'', sec_port = [], sec_user = [],
       sec_ca_path = ''/ca'', sec_cert_path = ''/crt'', sec_key_path = ''/key'' \<rparr>) ''/dr/dump.sql'' 0)
     (sample_world\<lparr>w_call := \<lambda>tr. serve (\<lambda>e. e) (sample_runtime tr)\<rparr>) () []) = Inr EmptyResponse"
proof -
  let ?w = "sample_world\<lparr>w_call := \<lambda>tr. serve (\<lambda>e. e) (sample_runtime tr)\<rparr>"
  have "\<And>q. w_call ?w [] q = serve (\<lambda>e. e) (sample_runtime []) q" by simp
  from client_call_runs_remotely [of ?w "[]" "\<lambda>e. e" sample_runtime, OF this, of "DumpAll (KubernetesSecretCredentials \<lparr> sec_host = ''pg'', sec_port = [], sec_user = [],
       sec_ca_path = ''/ca'', sec_cert_path = ''/crt'', sec_key_path = ''/key'' \<rparr>) ''/dr/dump.sql'' 0" "()"]
  show ?thesis by (auto simp: sample_runtime_def env_value_def answer_to_def)
qed

end
