(* ===== verification/RemoteAction.thy ===== *)
theory RemoteAction
  imports ClonePVC Instance ClonedCluster Channel
begin

text \<open>
  The contract between a remote stage and its actions
  (\<^verbatim>\<open>src/pkg/disasterrecovery/actions/remote/remotestage.go\<close>, the interfaces): the method table
  of an action, the loop over the actions of a stage, and the locale \<^verbatim>\<open>remote_action\<close> with
  the ownership laws every action promises.  DatabaseActions and FileActions interpret the locale on the
  seven actions; RemoteStage proves the stage from it.
\<close>

section \<open>The interfaces\<close>

text \<open>
  RemoteAction, with the optional capabilities that a stage finds by a type assertion:
  PreConsistencyPointAction, ConsistencyPointConsumer and CleanupAction.  Setup takes and returns the
  options of the tool pod, which the code passes by pointer.
\<close>
record 'x remote_ops =
  ra_validate :: "('x, unit) prog"
  ra_before :: "('x, gotime) prog option"
  ra_set_point :: "(gotime \<Rightarrow> 'x \<Rightarrow> 'x) option"
  ra_setup :: "bt_options \<Rightarrow> ('x, bt_options) prog"
  ra_execute :: "('x, unit) prog"
  ra_cleanup :: "('x, unit) prog option"

text \<open>Configure of every action, the second time.\<close>
definition configured_twice :: goerr where
  "configured_twice = errorf ''attempted to configure multiple times''"

definition add_volumes :: "scv list \<Rightarrow> bt_options \<Rightarrow> bt_options" where
  "add_volumes vs o1 = o1\<lparr>bto_volumes := bto_volumes o1 @ vs\<rparr>"

section \<open>Loops over the actions of a stage\<close>

text \<open>
  \<^verbatim>\<open>for _, action := range rs.actions\<close> with early return, threading a value: the state is
  the list of the named actions, and the body runs on one action's receiver.
\<close>
fun for_actions :: "(string \<Rightarrow> 'c \<Rightarrow> ('x, 'c) prog) \<Rightarrow> 'c \<Rightarrow> ((string \<times> 'x) list, 'c) prog" where
  "for_actions f c w [] tr = (Inr c, [], tr)"
| "for_actions f c w ((n, x) # xs) tr = (case f n c w x tr of
      (Inl e, x', tr') \<Rightarrow> (Inl e, (n, x') # xs, tr')
    | (Inr c', x', tr') \<Rightarrow> (case for_actions f c' w xs tr' of (r, xs', tr'') \<Rightarrow> (r, (n, x') # xs', tr'')))"

lemma for_actions_names: "map fst (fst (snd (for_actions f c w xs tr))) = map fst xs"
  by (induction f c w xs tr rule: for_actions.induct) (auto split: prod.splits sum.splits)

lemma for_actions_length: "for_actions f c w xs tr = (r, xs', tr') \<Longrightarrow> length xs' = length xs"
  using for_actions_names [of f c w xs tr] by (metis fst_conv length_map snd_conv)

section \<open>Programs that neither create nor delete\<close>

lemma fail_bnd [simp]: "bnd (fail e) f = fail e"
  by (rule ext)+ (simp add: prog_simps)

text \<open>They leave what is owned, and the receiver, as they are.\<close>
definition neutral :: "world \<Rightarrow> ('s, 'a) prog \<Rightarrow> bool" where
  "neutral w m \<longleftrightarrow> (\<forall>d I P. owns d w I P m P (\<lambda>_. P) (\<lambda>_. I))"

named_theorems neutral_intros "programs that neither create nor delete"

lemma neutralD: "neutral w m \<Longrightarrow> owns d w I P m P (\<lambda>_. P) (\<lambda>_. I)"
  by (simp add: neutral_def)

lemma neutralI: "(\<And>d I P. owns d w I P m P (\<lambda>_. P) (\<lambda>_. I)) \<Longrightarrow> neutral w m"
  by (simp add: neutral_def)

lemma neutral_bnd [neutral_intros]: "neutral w m \<Longrightarrow> (\<And>x. neutral w (f x)) \<Longrightarrow> neutral w (bnd m f)"
  by (rule neutralI, rule owns_bnd, erule neutralD, rule neutralD)

lemma neutral_thn [neutral_intros]: "neutral w m \<Longrightarrow> neutral w n \<Longrightarrow> neutral w (thn m n)"
  unfolding thn_def by (rule neutral_bnd)

lemma neutral_wrapping [neutral_intros]: "neutral w m \<Longrightarrow> neutral w (wrapping t m)"
  by (rule neutralI, rule owns_wrapping, erule neutralD)

lemma neutral_if [neutral_intros]: "(b \<Longrightarrow> neutral w m) \<Longrightarrow> (\<not> b \<Longrightarrow> neutral w n) \<Longrightarrow> neutral w (if b then m else n)"
  by simp

lemma neutral_list [neutral_intros]:
  "(xs = [] \<Longrightarrow> neutral w m) \<Longrightarrow> (\<And>y ys. xs = y # ys \<Longrightarrow> neutral w (f y ys)) \<Longrightarrow> neutral w (case xs of [] \<Rightarrow> m | y # ys \<Rightarrow> f y ys)"
  by (cases xs) auto

lemma neutral_basic [neutral_intros]:
  "neutral w (ret x)" "neutral w (fail e)" "neutral w (guard c e)" "neutral w (lift_err er)" "neutral w (lift_res res)"
  "neutral w get_st" "neutral w (deref v)" "neutral w (ask g)" "neutral w time_now" "neutral w new_uuid" "neutral w (rpc_call q)"
  by (rule neutralI, rule ownsI, auto simp: prog_simps deref_def split: option.splits sum.splits)+

lemma neutral_api [neutral_intros]:
  "neutral w (exec_in_pod ns p c cmd)" "neutral w (get_issuer ns n)" "neutral w (get_cluster_issuer n)"
  "neutral w (list_pvcs g ns sel)"
  by (simp_all add: neutral_def owns_exec owns_plain_gets owns_list_pvcs)

lemma neutral_gets [neutral_intros]:
  assumes "world_ok w"
  shows "neutral w (get_pvc ns n)" "neutral w (get_cluster ns n)" "neutral w (get_certificate ns n)"
  by (rule neutralI, rule owns_weaken, rule owns_get_pvc owns_get_cluster owns_get_certificate, rule assms, simp)+

lemma neutral_client [neutral_intros]: "neutral w (client_call c)" "neutral w (client_run c)" "neutral w (client_list_directory p)"
  unfolding client_run_def client_call_def client_list_directory_def by (intro neutral_intros)+

section \<open>Ownership\<close>

definition owned_all :: "('x \<Rightarrow> objref multiset) \<Rightarrow> (string \<times> 'x) list \<Rightarrow> objref multiset" where
  "owned_all owned xs = sum_list (map (\<lambda>(_, x). owned x) xs)"

lemma owned_all_simps [simp]:
  "owned_all owned [] = {#}" "owned_all owned ((n, x) # xs) = owned x + owned_all owned xs"
  by (simp_all add: owned_all_def)

definition all_actions :: "('x \<Rightarrow> bool) \<Rightarrow> (string \<times> 'x) list \<Rightarrow> bool" where
  "all_actions I xs \<longleftrightarrow> (\<forall>(_, x) \<in> set xs. I x)"

lemma all_actions_simps [simp]:
  "all_actions I []" "all_actions I ((n, x) # xs) \<longleftrightarrow> I x \<and> all_actions I xs"
  by (auto simp: all_actions_def)

lemma owns_for_actions:
  assumes step: "\<And>n c. owns d w I owned (f n c) owned (\<lambda>_. owned) (\<lambda>_. J)"
  shows "owns d w (all_actions I) (owned_all owned) (for_actions f c) (owned_all owned) (\<lambda>_. owned_all owned) (\<lambda>_. all_actions J)"
proof (rule ownsI)
  fix xs tr base r xs' tr'
  assume "all_actions I xs" "within d (outstanding tr) (base + owned_all owned xs)" "for_actions f c w xs tr = (r, xs', tr')"
  then show "case r of Inl _ \<Rightarrow> within d (outstanding tr') (base + owned_all owned xs')
     | Inr x \<Rightarrow> within d (outstanding tr') (base + owned_all owned xs') \<and> all_actions J xs'"
  proof (induction xs arbitrary: c tr base xs')
    case (Cons nx xs)
    obtain n x where nx: "nx = (n, x)" by (cases nx)
    obtain r1 x1 tr1 where one: "f n c w x tr = (r1, x1, tr1)" by (metis prod_cases3)
    have I: "I x" "all_actions I xs" using Cons.prems(1) nx by simp_all
    have o1: "within d (outstanding tr) ((base + owned_all owned xs) + owned x)"
      using Cons.prems(2) nx by (simp add: ac_simps)
    show ?case
    proof (cases r1)
      case (Inl e)
      from owns_err [OF step one [unfolded Inl] I(1) o1] Cons.prems(3) one nx Inl show ?thesis
        by (auto simp: ac_simps)
    next
      case (Inr c1)
      from owns_ok [OF step one [unfolded Inr] I(1) o1]
      have o2: "within d (outstanding tr1) ((base + owned x1) + owned_all owned xs)" and J: "J x1"
        by (simp_all add: ac_simps)
      obtain xs1 where rest: "for_actions f c1 w xs tr1 = (r, xs1, tr')" and xs': "xs' = (n, x1) # xs1"
        using Cons.prems(3) one nx Inr by (auto split: prod.splits)
      from Cons.IH [OF I(2) o2 rest] xs' J show ?thesis by (auto simp: ac_simps split: sum.splits)
    qed
  qed (auto split: sum.splits)
qed

lemma owns_get_bnd:
  assumes "\<And>x. owns d w (\<lambda>s. s = x \<and> I x) P (f x) F G Q"
  shows "owns d w I P (bnd get_st f) F G Q"
proof (rule ownsI)
  fix s tr base r s' tr'
  assume I: "I s" and o1: "within d (outstanding tr) (base + P s)" and run: "bnd get_st f w s tr = (r, s', tr')"
  from run have run': "f s w s tr = (r, s', tr')" by (simp add: prog_simps)
  from owns_err [OF assms, of s s tr _ s' tr' base] owns_ok [OF assms, of s s tr _ s' tr' base] run' I o1
  show "case r of Inl _ \<Rightarrow> within d (outstanding tr') (base + F s')
       | Inr x \<Rightarrow> within d (outstanding tr') (base + G x s') \<and> Q x s'" by (cases r) auto
qed

text \<open>A cleanup that first reads the receiver.\<close>
lemma disposes_get:
  assumes "owns d w (\<lambda>_. True) (\<lambda>_. {#} + M) (f x) (\<lambda>_. {#}) (\<lambda>_ _. {#}) (\<lambda>_ _. True)"
  shows "disposes d w (\<lambda>s. s = x) (\<lambda>_. M) (bnd get_st f) (\<lambda>_. {#})"
  unfolding disposes_def
proof (rule ownsI)
  fix s tr base r s' tr'
  assume I: "s = x" and o1: "within d (outstanding tr) (base + M)" and run: "bnd get_st f w s tr = (r, s', tr')"
  have D: "disposes d w (\<lambda>_. True) (\<lambda>_. {#} + M) (f x) (\<lambda>_. {#})" using assms by (simp add: disposes_def)
  from run I have "f x w s tr = (r, s', tr')" by (simp add: prog_simps)
  from disposesD [OF D this] o1 show "case r of Inl _ \<Rightarrow> within d (outstanding tr') (base + {#})
       | Inr _ \<Rightarrow> within d (outstanding tr') (base + {#}) \<and> True" by (simp split: sum.splits)
qed

text \<open>
  The behaviour of the cluster under which nothing is left behind: the API server's contract,
  policies that approver-policy accepts, snapshots that can be deleted (\<^verbatim>\<open>clone_pvc_error_leftover\<close>
  shows what happens otherwise), and group members with distinct sources.
\<close>
definition usable :: "world \<Rightarrow> bool" where
  "usable w \<longleftrightarrow> world_ok w \<and> policies_become_ready w \<and>
     (\<forall>tr ns n. k_delete (w_snapshot w) tr ns n = None) \<and> (\<forall>ns. distinct_member_sources w ns)"

lemma usableD:
  "usable w \<Longrightarrow> world_ok w" "usable w \<Longrightarrow> policies_become_ready w"
  "usable w \<Longrightarrow> k_delete (w_snapshot w) tr ns n = None" "usable w \<Longrightarrow> distinct_member_sources w ns"
  by (simp_all add: usable_def)

text \<open>
  What a stage relies on.  \<^verbatim>\<open>early\<close> is what a configured action satisfies before its
  pre-step and \<^verbatim>\<open>late\<close> before its setup; \<^verbatim>\<open>owned\<close> is what its receiver answers for.  Every
  method accounts for what it creates in the receiver, also when it fails, and Cleanup disposes of all
  of it.  The method table may depend on the receiver, whose dynamic type chooses it.
\<close>
locale remote_action =
  fixes ops :: "'x \<Rightarrow> 'x remote_ops"
    and owned :: "'x \<Rightarrow> objref multiset"
    and early :: "'x \<Rightarrow> bool"
    and late :: "'x \<Rightarrow> bool"
  assumes early_owns: "early x \<Longrightarrow> owned x = {#}"
    and early_late: "ra_before (ops x) = None \<Longrightarrow> early x \<Longrightarrow> late x"
    and validate_owns: "usable w \<Longrightarrow>
        owns AtMost w (\<lambda>s. s = x \<and> early x) owned (ra_validate (ops x)) owned (\<lambda>_. owned) (\<lambda>_. early)"
    and before_owns: "usable w \<Longrightarrow> ra_before (ops x) = Some before \<Longrightarrow>
        owns AtMost w (\<lambda>s. s = x \<and> early x) owned before owned (\<lambda>_. owned) (\<lambda>_. late)"
    and point_owns: "ra_set_point (ops x) = Some set_point \<Longrightarrow> late x \<Longrightarrow>
        late (set_point t x) \<and> owned (set_point t x) = owned x"
    and setup_owns: "usable w \<Longrightarrow>
        owns AtMost w (\<lambda>s. s = x \<and> late x) owned (ra_setup (ops x) opts) owned (\<lambda>_. owned) (\<lambda>_ _. True)"
    and execute_owns: "usable w \<Longrightarrow>
        owns AtMost w (\<lambda>s. s = x \<and> True) owned (ra_execute (ops x)) owned (\<lambda>_. owned) (\<lambda>_ _. True)"
    and cleanup_disposes: "usable w \<Longrightarrow> ra_cleanup (ops x) = Some cleanup \<Longrightarrow>
        disposes AtMost w (\<lambda>s. s = x) (\<lambda>_. owned x) cleanup (\<lambda>_. {#})"
    and no_cleanup: "ra_cleanup (ops x) = None \<Longrightarrow> owned x = {#}"

text \<open>A triple for every receiver is one for each.\<close>
lemma owns_at: "owns d w I P m F G Q \<Longrightarrow> owns d w (\<lambda>s. s = x \<and> I x) P m F G Q"
  unfolding owns_def by fast

text \<open>A method of a receiver whose dynamic type is only known through the interface.\<close>
definition inside :: "('x \<Rightarrow> 'y) \<Rightarrow> 'x \<Rightarrow> ('x, 'a) prog \<Rightarrow> ('y, 'a) prog" where
  "inside C x m = (\<lambda>w _ tr. case m w x tr of (r, x', tr') \<Rightarrow> (r, C x', tr'))"

definition embed :: "('x \<Rightarrow> 'y) \<Rightarrow> 'x remote_ops \<Rightarrow> 'x \<Rightarrow> 'y remote_ops" where
  "embed C ops x = \<lparr> ra_validate = inside C x (ra_validate ops),
     ra_before = map_option (inside C x) (ra_before ops),
     ra_set_point = map_option (\<lambda>f t _. C (f t x)) (ra_set_point ops),
     ra_setup = (\<lambda>opts. inside C x (ra_setup ops opts)),
     ra_execute = inside C x (ra_execute ops),
     ra_cleanup = map_option (inside C x) (ra_cleanup ops) \<rparr>"

lemma owns_inside:
  assumes "owns d w (\<lambda>s. s = x \<and> A) ownedx m ownedx (\<lambda>_. ownedx) (\<lambda>_. Jx)"
    and "\<And>y. owned (C y) = ownedx y" "\<And>y. Jx y \<Longrightarrow> J (C y)"
  shows "owns d w (\<lambda>s. s = C x \<and> A) owned (inside C x m) owned (\<lambda>_. owned) (\<lambda>_. J)"
proof (rule ownsI)
  fix s tr base r s' tr'
  assume I: "s = C x \<and> A" and o1: "within d (outstanding tr) (base + owned s)"
    and run: "inside C x m w s tr = (r, s', tr')"
  from run obtain x' where m: "m w x tr = (r, x', tr')" "s' = C x'" by (auto simp: inside_def split: prod.splits)
  have o2: "within d (outstanding tr) (base + ownedx x)" using o1 I assms(2) by simp
  show "case r of Inl _ \<Rightarrow> within d (outstanding tr') (base + owned s')
       | Inr _ \<Rightarrow> within d (outstanding tr') (base + owned s') \<and> J s'"
  proof (cases r)
    case (Inl e)
    from owns_err [OF assms(1) m(1) [unfolded Inl] _ o2] I m(2) assms(2) Inl show ?thesis by simp
  next
    case (Inr y)
    from owns_ok [OF assms(1) m(1) [unfolded Inr] _ o2] I m(2) assms(2,3) Inr show ?thesis by simp
  qed
qed

lemma disposes_inside:
  assumes "disposes d w (\<lambda>s. s = x) (\<lambda>_. M) m (\<lambda>_. {#})"
  shows "disposes d w (\<lambda>s. s = C x) (\<lambda>_. M) (inside C x m) (\<lambda>_. {#})"
  unfolding disposes_def
proof (rule ownsI)
  fix s tr base r s' tr'
  assume o1: "within d (outstanding tr) (base + M)" and run: "inside C x m w s tr = (r, s', tr')"
  from run obtain x' where m: "m w x tr = (r, x', tr')" by (auto simp: inside_def split: prod.splits)
  from disposesD [OF assms m _ o1] show "case r of Inl _ \<Rightarrow> within d (outstanding tr') (base + {#})
       | Inr _ \<Rightarrow> within d (outstanding tr') (base + {#}) \<and> True" by (simp split: sum.splits)
qed

end
