(* ===== verification/Timestamps.thy ===== *)
theory Timestamps
  imports Proto
begin

text \<open>
  \<^verbatim>\<open>time.Time.Format(time.RFC3339)\<close> of Go's standard library, for a time in UTC: the civil
  date of a day count since 0001-01-01 in the proleptic Gregorian calendar, and the fields in decimal.
\<close>

text \<open>Years are counted from March, in eras of 400 years of 146097 days.\<close>
definition civil_from_days :: "int \<Rightarrow> int \<times> int \<times> int" where
  "civil_from_days days =
     (let z = days + 306;
          era = z div 146097;
          doe = z mod 146097;
          yoe = (doe - doe div 1460 + doe div 36524 - doe div 146096) div 365;
          doy = doe - (365 * yoe + yoe div 4 - yoe div 100);
          mp = (5 * doy + 2) div 153;
          d = doy - (153 * mp + 2) div 5 + 1;
          m = (if mp < 10 then mp + 3 else mp - 9);
          y = yoe + era * 400 + (if m \<le> 2 then 1 else 0)
      in (y, m, d))"

fun decimal :: "nat \<Rightarrow> string" where
  "decimal n = (if n < 10 then [char_of (48 + n)] else decimal (n div 10) @ [char_of (48 + n mod 10)])"

definition padded :: "nat \<Rightarrow> int \<Rightarrow> string" where
  "padded k n = (let ds = decimal (nat n) in replicate (k - length ds) (CHR ''0'') @ ds)"

definition rfc3339 :: "gotime \<Rightarrow> string" where
  "rfc3339 t =
     (let s = t div second; r = s mod 86400; (y, m, d) = civil_from_days (s div 86400) in
      padded 4 y @ ''-'' @ padded 2 m @ ''-'' @ padded 2 d @ ''T'' @
      padded 2 (r div 3600) @ '':'' @ padded 2 (r div 60 mod 60) @ '':'' @ padded 2 (r mod 60) @ ''Z'')"

lemma rfc3339_second: "t div second = u div second \<Longrightarrow> rfc3339 t = rfc3339 u"
  by (simp add: rfc3339_def)

lemma rfc3339_ne: "rfc3339 t \<noteq> []"
  by (simp add: rfc3339_def Let_def split_def)

text \<open>Go's zero time, the day before a leap day, and the Unix epoch.\<close>
lemma rfc3339_examples:
  "rfc3339 0 = ''0001-01-01T00:00:00Z''"
  "rfc3339 (63844761599 * second) = ''2024-02-28T23:59:59Z''"
  "rfc3339 (62135596800 * second + 999999999) = ''1970-01-01T00:00:00Z''"
  by code_simp+

end
