(* ===== verification/DatabaseActions.thy ===== *)
theory DatabaseActions
  imports RemoteAction Timestamps
begin

text \<open>
  The database actions of a stage (\<^verbatim>\<open>src/pkg/disasterrecovery/actions/remote/cnpg\<close>):
  CNPGBackup takes a base backup before the consistency point, clones the cluster to that point and dumps
  it; CNPGRestore restores a dump with a short-lived user certificate.  Each action's receiver is a
  record, its methods are programs on it, and both interpret \<^verbatim>\<open>remote_action\<close>.
\<close>

section \<open>cnpg/common/validation.go\<close>

definition validate_issuer :: "string \<Rightarrow> issuer_ref \<Rightarrow> ('s, unit) prog" where
  "validate_issuer ns ref =
     (let kind = (if ir_kind ref = [] then ''Issuer'' else ir_kind ref) in
      bnd (if kind = ''Issuer''
           then wrapping ''get CNPG cluster cert issuer'' (get_issuer ns (ir_name ref))
           else if kind = ''ClusterIssuer''
           then wrapping ''get CNPG cluster cert cluster issuer'' (get_cluster_issuer (ir_name ref))
           else fail (errorf ''unknown issuer kind'')) (\<lambda>i.
      guard (is_issuer_ready i) (errorf ''CNPG cluster cert issuer is not ready'')))"

section \<open>cnpg/backup/sourcewalarchive.go\<close>

text \<open>The constants of the CNPG packages.\<close>
definition socket_directory :: string where "socket_directory = ''/controller/run''"
definition postgres_container_name :: string where "postgres_container_name = ''postgres''"

definition psql_command :: "string \<Rightarrow> string list" where
  "psql_command sql = [''psql'', ''-h'', socket_directory, ''-X'', ''-q'', ''-t'', ''-A'', ''-w'', ''-v'', ''ON_ERROR_STOP=1'', ''-c'', sql]"

definition run_source_psql :: "string \<Rightarrow> string \<Rightarrow> 's runner" where
  "run_source_psql ns primary sql = wrapping ''run psql statement on source primary''
     (exec_in_pod ns primary postgres_container_name (psql_command sql))"

definition source_psql_runner :: "string \<Rightarrow> string \<Rightarrow> ('s, 's runner) prog" where
  "source_psql_runner ns source_cluster =
     bnd (wrapping ''get source cluster'' (get_cluster ns source_cluster)) (\<lambda>c.
     if cl_primary c = [] then fail (errorf ''source cluster has no current primary to exec into'')
     else ret (run_source_psql ns (cl_primary c)))"

definition force_source_wal_archive :: "string \<Rightarrow> string \<Rightarrow> ('s, unit) prog" where
  "force_source_wal_archive ns source_cluster =
     bnd (source_psql_runner ns source_cluster) (\<lambda>run. force_wal_archive run 0)"

section \<open>cnpg/backup/cnpgbackup.go\<close>

record cnpg_backup_options =
  bao_cloning :: clone_cluster_options
  bao_cleanup :: duration

record cnpg_backup =
  cb_uid :: string
  cb_configured :: bool
  cb_cluster_name :: string
  cb_ns :: string
  cb_dr_volume :: string
  cb_file :: string
  cb_opts :: cnpg_backup_options
  cb_validated :: bool
  cb_cluster :: "cluster option"
  cb_backup :: "backup option"
  cb_point :: gotime
  cb_backed_up :: bool
  cb_clone :: "cloned_cluster option"
  cb_dr_path :: string
  cb_serving_path :: string
  cb_client_path :: string
  cb_setup :: bool

definition no_cnpg_backup_options :: cnpg_backup_options where
  "no_cnpg_backup_options = \<lparr> bao_cloning = \<lparr> clo_backup_timeout = 0, clo_self_timeout = 0,
     clo_serving = \<lparr> cto_crp_timeout = 0, cto_ready_timeout = 0 \<rparr>,
     clo_client_ca = \<lparr> cto_crp_timeout = 0, cto_ready_timeout = 0 \<rparr>,
     clo_pg_user = \<lparr> cto_crp_timeout = 0, cto_ready_timeout = 0 \<rparr>,
     clo_repl_user = \<lparr> cto_crp_timeout = 0, cto_ready_timeout = 0 \<rparr>,
     clo_ca_issuer_timeout = 0, clo_target_time = [], clo_cluster_timeout = 0, clo_cleanup = 0 \<rparr>,
     bao_cleanup = 0 \<rparr>"

text \<open>NewCNPGBackup: the zero value.\<close>
definition new_cnpg_backup :: cnpg_backup where
  "new_cnpg_backup = \<lparr> cb_uid = [], cb_configured = False, cb_cluster_name = [], cb_ns = [], cb_dr_volume = [],
     cb_file = [], cb_opts = no_cnpg_backup_options, cb_validated = False, cb_cluster = None, cb_backup = None,
     cb_point = 0, cb_backed_up = False, cb_clone = None, cb_dr_path = [], cb_serving_path = [],
     cb_client_path = [], cb_setup = False \<rparr>"

definition cnpg_backup_configure :: "string \<Rightarrow> string \<Rightarrow> string \<Rightarrow> string \<Rightarrow> cnpg_backup_options \<Rightarrow> (cnpg_backup, unit) prog" where
  "cnpg_backup_configure ns cluster_name dr_volume file opts =
     bnd get_st (\<lambda>s. if cb_configured s then fail configured_twice
     else bnd new_uuid (\<lambda>u. upd_st (\<lambda>s. s\<lparr>cb_uid := u, cb_ns := ns, cb_cluster_name := cluster_name,
       cb_dr_volume := dr_volume, cb_file := file, cb_opts := opts, cb_configured := True\<rparr>)))"

definition cnpg_backup_validate :: "(cnpg_backup, unit) prog" where
  "cnpg_backup_validate = bnd get_st (\<lambda>s.
     thn (guard (cb_configured s) (errorf ''attempted to validate without configuring''))
    (bnd (wrapping ''get CNPG cluster'' (get_cluster (cb_ns s) (cb_cluster_name s))) (\<lambda>c.
     thn (guard (is_cluster_ready c) (errorf ''CNPG cluster is not ready''))
    (thn (upd_st (\<lambda>s. s\<lparr>cb_cluster := Some c\<rparr>))
    (bnd (wrapping ''get DR PVC'' (get_pvc (cb_ns s) (cb_dr_volume s))) (\<lambda>_.
     upd_st (\<lambda>s. s\<lparr>cb_validated := True\<rparr>)))))))"

definition default_clone_cleanup :: "cnpg_backup \<Rightarrow> cnpg_backup" where
  "default_clone_cleanup s = (let o1 = cb_opts s in
     if clo_cleanup (bao_cloning o1) = 0
     then s\<lparr>cb_opts := o1\<lparr>bao_cloning := (bao_cloning o1)\<lparr>clo_cleanup := bao_cleanup o1\<rparr>\<rparr>\<rparr> else s)"

text \<open>BeforeConsistencyPoint: the base backup; it pins no instant.\<close>
definition cnpg_backup_before :: "(cnpg_backup, gotime) prog" where
  "cnpg_backup_before = bnd get_st (\<lambda>s0.
     thn (guard (cb_validated s0) (errorf ''attempted to create base backup without validating''))
    (thn (guard (\<not> cb_backed_up s0) (errorf ''attempted to create base backup multiple times''))
    (thn (upd_st default_clone_cleanup)
    (bnd get_st (\<lambda>s.
     bnd (wrapping ''back up cluster'' (create_cluster_backup (cb_ns s) (cb_cluster_name s) (bao_cloning (cb_opts s)))) (\<lambda>b.
     thn (upd_st (\<lambda>s. s\<lparr>cb_backup := Some b, cb_backed_up := True\<rparr>)) (ret 0)))))))"

definition cnpg_backup_set_point :: "gotime \<Rightarrow> cnpg_backup \<Rightarrow> cnpg_backup" where
  "cnpg_backup_set_point c s = s\<lparr>cb_point := c\<rparr>"

definition cloned_cluster_name :: "string \<Rightarrow> string \<Rightarrow> string" where
  "cloned_cluster_name uid cluster_name = clean_name (truncate_string
     (tool_short_name @ ''-'' @ uid @ ''-cloned-'' @ cluster_name) 40 [])"

definition recovery_clone_options :: "cnpg_backup \<Rightarrow> clone_cluster_options" where
  "recovery_clone_options s = (let o1 = bao_cloning (cb_opts s) in
     if \<not> is_zero_time (cb_point s) then o1\<lparr>clo_target_time := rfc3339 (cb_point s)\<rparr> else o1)"

definition backup_mount :: "cnpg_backup \<Rightarrow> string" where
  "backup_mount s = path_join [''/mnt'', ''cnpgbackup'', cb_cluster_name s, cb_uid s]"

definition set_backup_mounts :: "cnpg_backup \<Rightarrow> cnpg_backup" where
  "set_backup_mounts s = (let base = backup_mount s; secrets = path_join [base, ''secrets''] in
     s\<lparr>cb_dr_path := path_join [base, ''dr''], cb_serving_path := path_join [secrets, ''serving-cert''],
       cb_client_path := path_join [secrets, ''client-cert'']\<rparr>)"

text \<open>Only the public certificate of the server is mounted.\<close>
definition tls_crt_only :: "key_to_path list" where
  "tls_crt_only = [\<lparr> kp_key = ''tls.crt'', kp_path = ''tls.crt'' \<rparr>]"

definition cnpg_backup_setup :: "bt_options \<Rightarrow> (cnpg_backup, bt_options) prog" where
  "cnpg_backup_setup bt_opts = bnd get_st (\<lambda>s.
     thn (guard (cb_backed_up s) (errorf ''attempted to setup without creating a base backup''))
    (thn (guard (\<not> cb_setup s) (errorf ''attempted to setup multiple times''))
    (thn (wrapping ''force source WAL archive'' (force_source_wal_archive (cb_ns s) (cb_cluster_name s)))
    (bnd (deref (cb_backup s)) (\<lambda>b.
     bnd (wrapping ''clone cluster'' (clone_cluster_from_backup (cb_ns s) (cb_cluster_name s)
            (cloned_cluster_name (cb_uid s) (cb_cluster_name s)) b (recovery_clone_options s))) (\<lambda>clone.
     thn (upd_st (\<lambda>s. set_backup_mounts (s\<lparr>cb_clone := Some clone\<rparr>)))
    (bnd (deref (cc_serving clone)) (\<lambda>serving.
     bnd (deref (Option.bind (cc_pg_user clone) uc_cert)) (\<lambda>user.
     bnd get_st (\<lambda>s.
     thn (upd_st (\<lambda>s. s\<lparr>cb_setup := True\<rparr>))
    (ret (add_volumes [new_single_container_pvc (cb_dr_volume s) (cb_dr_path s),
        new_single_container_secret (cert_secret serving) (cb_serving_path s) tls_crt_only,
        new_single_container_secret (cert_secret user) (cb_client_path s) []] bt_opts))))))))))))"

definition cnpg_backup_cleanups :: "cnpg_backup \<Rightarrow> (string \<times> (cnpg_backup, unit) prog) list" where
  "cnpg_backup_cleanups s =
     (case cb_clone s of None \<Rightarrow> [] | Some c \<Rightarrow> [(''cleanup cloned cluster resources'', delete_cloned_cluster c)]) @
     (case cb_backup s of None \<Rightarrow> [] | Some b \<Rightarrow> [(''cleanup base backup'', delete_backup (cb_ns s) (om_name (bk_meta b)))])"

definition cnpg_backup_cleanup :: "(cnpg_backup, unit) prog" where
  "cnpg_backup_cleanup = bnd get_st (\<lambda>s. cleanup_errors ''cleanup CNPG backup resources'' (cnpg_backup_cleanups s))"

definition cnpg_backup_execute :: "(cnpg_backup, unit) prog" where
  "cnpg_backup_execute = bnd get_st (\<lambda>s.
     thn (guard (cb_setup s) (errorf ''attempted to execute without setting up''))
    (bnd (deref (Option.bind (cb_clone s) cc_cluster)) (\<lambda>c.
     wrapping ''create logical backup for postgres server'' (client_run (DumpAll
       (cloned_cluster_credentials c (cb_serving_path s) (cb_client_path s))
       (path_join [cb_dr_path s, cb_file s]) (bao_cleanup (cb_opts s)))))))"

definition cnpg_backup_ops :: "cnpg_backup remote_ops" where
  "cnpg_backup_ops = \<lparr> ra_validate = cnpg_backup_validate, ra_before = Some cnpg_backup_before,
     ra_set_point = Some cnpg_backup_set_point, ra_setup = cnpg_backup_setup, ra_execute = cnpg_backup_execute,
     ra_cleanup = Some cnpg_backup_cleanup \<rparr>"

section \<open>cnpg/restore/cnpgrestore.go\<close>

record cnpg_restore_options =
  rso_cert :: user_cert_options
  rso_cleanup :: duration

record cnpg_restore =
  cr_uid :: string
  cr_configured :: bool
  cr_ns :: string
  cr_dr_volume :: string
  cr_file :: string
  cr_cluster_name :: string
  cr_serving_name :: string
  cr_issuer :: issuer_ref
  cr_opts :: cnpg_restore_options
  cr_validated :: bool
  cr_cluster :: "cluster option"
  cr_serving :: "certificate option"
  cr_user :: "user_cert option"
  cr_dr_path :: string
  cr_serving_path :: string
  cr_client_path :: string
  cr_setup :: bool

definition new_cnpg_restore :: cnpg_restore where
  "new_cnpg_restore = \<lparr> cr_uid = [], cr_configured = False, cr_ns = [], cr_dr_volume = [], cr_file = [],
     cr_cluster_name = [], cr_serving_name = [], cr_issuer = \<lparr> ir_name = [], ir_kind = [], ir_group = [] \<rparr>,
     cr_opts = \<lparr> rso_cert = \<lparr> uco_crp_timeout = 0, uco_cert_timeout = 0 \<rparr>, rso_cleanup = 0 \<rparr>,
     cr_validated = False, cr_cluster = None, cr_serving = None, cr_user = None, cr_dr_path = [],
     cr_serving_path = [], cr_client_path = [], cr_setup = False \<rparr>"

definition cnpg_restore_configure :: "string \<Rightarrow> string \<Rightarrow> string \<Rightarrow> issuer_ref \<Rightarrow> string \<Rightarrow> string \<Rightarrow> cnpg_restore_options
    \<Rightarrow> (cnpg_restore, unit) prog" where
  "cnpg_restore_configure ns cluster_name serving_name issuer dr_volume file opts =
     bnd get_st (\<lambda>s. if cr_configured s then fail configured_twice
     else bnd new_uuid (\<lambda>u. upd_st (\<lambda>s. s\<lparr>cr_uid := u, cr_ns := ns, cr_cluster_name := cluster_name,
       cr_serving_name := serving_name, cr_issuer := issuer, cr_dr_volume := dr_volume, cr_file := file,
       cr_opts := opts, cr_configured := True\<rparr>)))"

definition cnpg_restore_validate :: "(cnpg_restore, unit) prog" where
  "cnpg_restore_validate = bnd get_st (\<lambda>s.
     thn (guard (cr_configured s) (errorf ''attempted to validate without configuring''))
    (bnd (wrapping ''get CNPG cluster'' (get_cluster (cr_ns s) (cr_cluster_name s))) (\<lambda>c.
     thn (guard (is_cluster_ready c) (errorf ''CNPG cluster is not ready''))
    (thn (upd_st (\<lambda>s. s\<lparr>cr_cluster := Some c\<rparr>))
    (bnd (wrapping ''get CNPG cluster serving cert'' (get_certificate (cr_ns s) (cr_serving_name s))) (\<lambda>cert.
     thn (upd_st (\<lambda>s. s\<lparr>cr_serving := Some cert\<rparr>))
    (thn (wrapping ''validate CNPG cluster client cert issuer'' (validate_issuer (cr_ns s) (cr_issuer s)))
    (bnd (wrapping ''get DR PVC'' (get_pvc (cr_ns s) (cr_dr_volume s))) (\<lambda>_.
     upd_st (\<lambda>s. s\<lparr>cr_validated := True\<rparr>))))))))))"

definition restore_mount :: "cnpg_restore \<Rightarrow> string" where
  "restore_mount s = path_join [''/mnt'', ''cnpgrestore'', cr_cluster_name s, cr_uid s]"

definition set_restore_mounts :: "cnpg_restore \<Rightarrow> cnpg_restore" where
  "set_restore_mounts s = (let base = restore_mount s; secrets = path_join [base, ''secrets''] in
     s\<lparr>cr_dr_path := path_join [base, ''dr''], cr_serving_path := path_join [secrets, ''serving-cert''],
       cr_client_path := path_join [secrets, ''client-cert'']\<rparr>)"

definition cnpg_restore_setup :: "bt_options \<Rightarrow> (cnpg_restore, bt_options) prog" where
  "cnpg_restore_setup bt_opts = bnd get_st (\<lambda>s.
     thn (guard (cr_validated s) (errorf ''attempted to setup without validating''))
    (thn (guard (\<not> cr_setup s) (errorf ''attempted to setup multiple times''))
    (bnd (wrapping ''create postgres user CNPG cluster client cert'' (new_cluster_user_cert (cr_ns s) ''postgres''
            (cr_issuer s) (cr_cluster_name s) (rso_cert (cr_opts s)))) (\<lambda>user.
     thn (upd_st (\<lambda>s. set_restore_mounts (s\<lparr>cr_user := Some user\<rparr>)))
    (bnd (deref (cr_serving s)) (\<lambda>serving.
     bnd (deref (uc_cert user)) (\<lambda>user_cert.
     bnd get_st (\<lambda>s.
     thn (upd_st (\<lambda>s. s\<lparr>cr_setup := True\<rparr>))
    (ret (add_volumes [new_single_container_pvc (cr_dr_volume s) (cr_dr_path s),
        new_single_container_secret (cert_secret serving) (cr_serving_path s) tls_crt_only,
        new_single_container_secret (cert_secret user_cert) (cr_client_path s) []] bt_opts))))))))))"

definition cnpg_restore_cleanup :: "(cnpg_restore, unit) prog" where
  "cnpg_restore_cleanup = bnd get_st (\<lambda>s. if \<not> cr_setup s then ret ()
     else bnd (deref (cr_user s)) (\<lambda>u. wrapping ''cleanup CNPG restore resources''
       (wrapping ''cleanup postgres user client cert resources'' (delete_user_cert u))))"

definition cluster_credentials :: "cnpg_restore \<Rightarrow> cluster \<Rightarrow> credentials" where
  "cluster_credentials s c = EnvironmentCredentials [
     PGHOST \<mapsto> cl_write_service c @ ''.'' @ cr_ns s @ ''.svc'', PGUSER \<mapsto> ''postgres'',
     PGREQUIREAUTH \<mapsto> ''none'', PGSSLMODE \<mapsto> ''verify-full'',
     PGSSLCERT \<mapsto> path_join [cr_client_path s, ''tls.crt''],
     PGSSLKEY \<mapsto> path_join [cr_client_path s, ''tls.key''],
     PGSSLROOTCERT \<mapsto> path_join [cr_serving_path s, ''tls.crt'']]"

definition cnpg_restore_execute :: "(cnpg_restore, unit) prog" where
  "cnpg_restore_execute = bnd get_st (\<lambda>s.
     thn (guard (cr_setup s) (errorf ''attempted to execute without setting up''))
    (bnd (deref (cr_cluster s)) (\<lambda>c.
     wrapping ''restore logical backup for postgres server'' (client_run (Restore (cluster_credentials s c)
       (path_join [cr_dr_path s, cr_file s]))))))"

definition cnpg_restore_ops :: "cnpg_restore remote_ops" where
  "cnpg_restore_ops = \<lparr> ra_validate = cnpg_restore_validate, ra_before = None, ra_set_point = None,
     ra_setup = cnpg_restore_setup, ra_execute = cnpg_restore_execute, ra_cleanup = Some cnpg_restore_cleanup \<rparr>"

section \<open>Ownership\<close>

definition cnpg_backup_owned :: "cnpg_backup \<Rightarrow> objref multiset" where
  "cnpg_backup_owned s = (case cb_clone s of None \<Rightarrow> {#} | Some c \<Rightarrow> owned_clone c) +
     (case cb_backup s of None \<Rightarrow> {#} | Some b \<Rightarrow> {#(KBackup, cb_ns s, om_name (bk_meta b))#})"

definition cnpg_backup_early :: "cnpg_backup \<Rightarrow> bool" where
  "cnpg_backup_early s \<longleftrightarrow> cb_clone s = None \<and> cb_backup s = None"

definition cnpg_backup_late :: "cnpg_backup \<Rightarrow> bool" where
  "cnpg_backup_late s \<longleftrightarrow> cb_clone s = None"

definition cnpg_restore_owned :: "cnpg_restore \<Rightarrow> objref multiset" where
  "cnpg_restore_owned s = (if cr_setup s then (case cr_user s of None \<Rightarrow> {#} | Some u \<Rightarrow> owned_user_cert u) else {#})"

text \<open>The serving certificate is known once the action is validated.\<close>
definition cnpg_restore_ready :: "cnpg_restore \<Rightarrow> bool" where
  "cnpg_restore_ready s \<longleftrightarrow> \<not> cr_setup s \<and> (cr_validated s \<longrightarrow> cr_serving s \<noteq> None)"

lemma neutral_validate_issuer [neutral_intros]: "neutral w (validate_issuer ns ref)"
  unfolding validate_issuer_def Let_def by (intro neutral_intros)

lemma neutral_wait_wal_step:
  assumes "\<And>q. neutral w (run q)" "neutral w next_turn"
  shows "neutral w (wait_wal_step run deadline target next_turn)"
proof -
  have slept: "neutral w (log_event (Slept t))" for t
    by (rule neutralI, rule ownsI) (auto simp: prog_simps)
  have st: "neutral w (case fs of [a, f, x] \<Rightarrow> ret (a, f, x = ''t'') | _ \<Rightarrow> fail e)" for fs :: "string list" and e
    by (auto intro!: neutral_intros split: list.splits)
  show ?thesis
    unfolding wait_wal_step_def query_archiver_status_def split_def
    by (intro neutral_intros slept st assms)
qed

lemma neutral_force_wal_archive:
  assumes run: "\<And>q. neutral w (run q)"
  shows "neutral w (force_wal_archive run t)"
proof -
  have "neutral w (wait_wal_loop n run deadline target)" for n deadline target
    by (induction n) (simp_all add: neutral_wait_wal_step run neutral_intros)
  then show ?thesis
    unfolding force_wal_archive_def wait_for_wal_archive_def Let_def by (intro neutral_intros run)
qed

lemma neutral_force_source_wal_archive [neutral_intros]:
  assumes w: "world_ok w"
  shows "neutral w (force_source_wal_archive ns c)"
proof -
  have "neutral w (bnd (if cl_primary x = [] then fail e else ret (run_source_psql ns (cl_primary x))) (\<lambda>run. force_wal_archive run 0))" for x e
    by (cases "cl_primary x = []")
      (simp_all add: fail_bnd neutral_basic neutral_force_wal_archive run_source_psql_def neutral_intros)
  then show ?thesis
    unfolding force_source_wal_archive_def source_psql_runner_def bnd_assoc
    by (rule neutral_bnd [OF neutral_wrapping [OF neutral_gets(2) [OF w]]])
qed

text \<open>A step that changes the receiver but not what it owns.\<close>
lemma owns_upd_same:
  "(\<And>s. I s \<Longrightarrow> owned (f s) = owned s \<and> J (f s)) \<Longrightarrow> owns d w I owned (upd_st f) owned (\<lambda>_. owned) (\<lambda>_. J)"
  by (rule owns_upd_st) simp

lemma owns_cnpg_backup_validate:
  assumes w: "world_ok w"
  shows "owns d w cnpg_backup_early cnpg_backup_owned cnpg_backup_validate cnpg_backup_owned (\<lambda>_. cnpg_backup_owned)
     (\<lambda>_. cnpg_backup_early)"
  unfolding cnpg_backup_validate_def
  apply (rule owns_bnd, rule neutralD, rule neutral_intros)
  apply (rule owns_thn, rule neutralD, rule neutral_intros)
  apply (rule owns_bnd, rule neutralD, intro neutral_intros w)
  apply (rule owns_thn, rule neutralD, rule neutral_intros)
  apply (rule owns_thn, rule owns_upd_same [where J = cnpg_backup_early])
   apply (simp add: cnpg_backup_early_def cnpg_backup_owned_def)
  apply (rule owns_bnd, rule neutralD, intro neutral_intros w)
  apply (rule owns_upd_same, simp add: cnpg_backup_early_def cnpg_backup_owned_def)
  done

lemma owns_cnpg_backup_before:
  assumes w: "world_ok w"
  shows "owns d w cnpg_backup_early cnpg_backup_owned cnpg_backup_before cnpg_backup_owned (\<lambda>_. cnpg_backup_owned)
     (\<lambda>_. cnpg_backup_late)"
  unfolding cnpg_backup_before_def
  apply (rule owns_bnd, rule neutralD, rule neutral_intros)
  apply (rule owns_thn, rule neutralD, rule neutral_intros)
  apply (rule owns_thn, rule neutralD, rule neutral_intros)
  apply (rule owns_thn, rule owns_upd_same [where J = cnpg_backup_early])
   apply (simp add: cnpg_backup_early_def cnpg_backup_owned_def default_clone_cleanup_def Let_def)
  apply (rule owns_bnd, rule owns_steps(5))
  apply (rule owns_bnd, rule owns_wrapping, rule owns_create_cluster_backup [OF w])
  apply (rule owns_thn, rule owns_upd_st [where G = "\<lambda>_. cnpg_backup_owned" and Q = "\<lambda>_. cnpg_backup_late"])
   apply (simp add: cnpg_backup_early_def cnpg_backup_late_def cnpg_backup_owned_def)
  apply (rule owns_ret, simp)
  done

text \<open>The name of the clone is never empty.\<close>
lemma cloned_cluster_name_ne: "cloned_cluster_name uid cn \<noteq> []"
proof -
  let ?t = "truncate_string (tool_short_name @ ''-'' @ uid @ ''-cloned-'' @ cn) 40 []"
  have "\<exists>rest. ?t = CHR ''b'' # rest"
    by (auto simp: truncate_string_def tool_short_name_def)
  then obtain rest where t: "?t = CHR ''b'' # rest" by blast
  have "CHR ''b'' \<in> set (replace_special (to_lower ?t))"
    unfolding t by (simp add: replace_special_def to_lower_def lower_char_def replace_chars_def)
  with clean_name_prefix [of ?t] have "CHR ''b'' \<in> set (clean_name ?t)" by auto
  then show ?thesis by (auto simp: cloned_cluster_name_def)
qed

lemma owns_cnpg_backup_setup:
  assumes w: "world_ok w" and p: "policies_become_ready w"
  shows "owns AtMost w cnpg_backup_late cnpg_backup_owned (cnpg_backup_setup opts) cnpg_backup_owned (\<lambda>_. cnpg_backup_owned)
     (\<lambda>_ _. True)"
  unfolding cnpg_backup_setup_def
  apply (rule owns_bnd, rule neutralD, rule neutral_intros)
  apply (rule owns_thn, rule neutralD, rule neutral_intros)
  apply (rule owns_thn, rule neutralD, rule neutral_intros)
  apply (rule owns_thn, rule neutralD, intro neutral_intros w)
  apply (rule owns_bnd, rule neutralD, rule neutral_intros)
  apply (rule owns_bnd, rule owns_wrapping, rule owns_clone_cluster [OF w p cloned_cluster_name_ne])
  apply (rule owns_thn, rule owns_upd_st [where G = "\<lambda>_. cnpg_backup_owned" and Q = "\<lambda>_ _. True"])
   apply (simp add: cnpg_backup_late_def cnpg_backup_owned_def set_backup_mounts_def Let_def cong: option.case_cong)
  apply (rule owns_bnd, rule neutralD, rule neutral_intros)
  apply (rule owns_bnd, rule neutralD, rule neutral_intros)
  apply (rule owns_bnd, rule neutralD, rule neutral_intros)
  apply (rule owns_thn, rule owns_upd_same [where J = "\<lambda>_. True"], simp add: cnpg_backup_owned_def cong: option.case_cong)
  apply (rule owns_ret, simp)
  done

lemma neutral_cnpg_backup_execute: "neutral w cnpg_backup_execute"
  unfolding cnpg_backup_execute_def by (intro neutral_intros)

lemma disposes_cnpg_backup_cleanup:
  "disposes d w (\<lambda>s. s = x) (\<lambda>_. cnpg_backup_owned x) cnpg_backup_cleanup (\<lambda>_. {#})"
proof -
  let ?Ms = "(case cb_clone x of None \<Rightarrow> [] | Some c \<Rightarrow> [owned_clone c]) @
     (case cb_backup x of None \<Rightarrow> [] | Some b \<Rightarrow> [{#(KBackup, cb_ns x, om_name (bk_meta b))#}])"
  have each: "owns_each w (cnpg_backup_cleanups x) ?Ms"
    unfolding cnpg_backup_cleanups_def
    by (rule owns_each_append)
      (auto simp: owns_delete_cloned_cluster delete_cloned_cluster_state deletes_keep_state intro!: owns_deletes split: option.splits)
  have sum: "sum_list ?Ms = cnpg_backup_owned x"
    by (auto simp: cnpg_backup_owned_def split: option.splits)
  show ?thesis
    unfolding cnpg_backup_cleanup_def sum [symmetric] by (rule disposes_get, rule owns_cleanup_errors, rule each)
qed

lemma owns_cnpg_restore_validate:
  assumes w: "world_ok w"
  shows "owns d w cnpg_restore_ready cnpg_restore_owned cnpg_restore_validate cnpg_restore_owned (\<lambda>_. cnpg_restore_owned)
     (\<lambda>_. cnpg_restore_ready)"
  unfolding cnpg_restore_validate_def
  apply (rule owns_bnd, rule neutralD, rule neutral_intros)
  apply (rule owns_thn, rule neutralD, rule neutral_intros)
  apply (rule owns_bnd, rule neutralD, intro neutral_intros w)
  apply (rule owns_thn, rule neutralD, rule neutral_intros)
  apply (rule owns_thn, rule owns_upd_same [where J = cnpg_restore_ready])
   apply (simp add: cnpg_restore_ready_def cnpg_restore_owned_def)
  apply (rule owns_bnd, rule neutralD, intro neutral_intros w)
  apply (rule owns_thn, rule owns_upd_same [where J = "\<lambda>s. cnpg_restore_ready s \<and> cr_serving s \<noteq> None"])
   apply (simp add: cnpg_restore_ready_def cnpg_restore_owned_def)
  apply (rule owns_thn, rule neutralD, intro neutral_intros)
  apply (rule owns_bnd, rule neutralD, intro neutral_intros w)
  apply (rule owns_upd_same, simp add: cnpg_restore_ready_def cnpg_restore_owned_def)
  done

lemma owns_cnpg_restore_setup:
  assumes w: "world_ok w" and p: "policies_become_ready w"
  shows "owns d w cnpg_restore_ready cnpg_restore_owned (cnpg_restore_setup opts) cnpg_restore_owned (\<lambda>_. cnpg_restore_owned)
     (\<lambda>_ _. True)"
  unfolding cnpg_restore_setup_def
proof (rule owns_get_bnd, rule owns_thn [OF owns_steps(2)], rule owns_thn [OF owns_steps(2)])
  fix x
  let ?I = "\<lambda>s. ((s = x \<and> cnpg_restore_ready x) \<and> cr_validated x) \<and> \<not> cr_setup x"
  let ?create = "wrapping ''create postgres user CNPG cluster client cert''
     (new_cluster_user_cert (cr_ns x) ''postgres'' (cr_issuer x) (cr_cluster_name x) (rso_cert (cr_opts x)))"
  let ?rest = "\<lambda>user. thn (upd_st (\<lambda>s. set_restore_mounts (s\<lparr>cr_user := Some user\<rparr>)))
    (bnd (deref (cr_serving x)) (\<lambda>serving. bnd (deref (uc_cert user)) (\<lambda>user_cert. bnd get_st (\<lambda>s.
     thn (upd_st (\<lambda>s. s\<lparr>cr_setup := True\<rparr>))
    (ret (add_volumes [new_single_container_pvc (cr_dr_volume s) (cr_dr_path s),
        new_single_container_secret (cert_secret serving) (cr_serving_path s) tls_crt_only,
        new_single_container_secret (cert_secret user_cert) (cr_client_path s) []] opts))))))"
  have rest: "owns d w (\<lambda>s. ?I s \<and> uc_cert user \<noteq> None) (\<lambda>s. cnpg_restore_owned s + owned_user_cert user) (?rest user)
     cnpg_restore_owned (\<lambda>_. cnpg_restore_owned) (\<lambda>_ _. True)" for user
  proof (cases "cnpg_restore_ready x \<and> cr_validated x \<and> uc_cert user \<noteq> None")
    case True
    then obtain serving user_cert where s: "cr_serving x = Some serving" "uc_cert user = Some user_cert"
      by (auto simp: cnpg_restore_ready_def)
    show ?thesis
      unfolding s deref_def option.case ret_bnd
      apply (rule owns_thn, rule owns_upd_st [where G = "\<lambda>_ _. owned_user_cert user"
            and Q = "\<lambda>_ s. cr_user s = Some user"])
       apply (simp add: cnpg_restore_owned_def set_restore_mounts_def Let_def)
      apply (rule owns_get_bnd)
      apply (rule owns_thn, rule owns_upd_st [where G = "\<lambda>_. cnpg_restore_owned" and Q = "\<lambda>_ _. True"])
       apply (simp add: cnpg_restore_owned_def)
      apply (rule owns_ret, simp)
      done
  qed (auto simp: owns_def)
  show "owns d w ?I cnpg_restore_owned (bnd ?create ?rest) cnpg_restore_owned (\<lambda>_. cnpg_restore_owned) (\<lambda>_ _. True)"
    apply (rule owns_bnd [OF owns_weaken [OF owns_wrapping [OF owns_new_cluster_user_cert [OF w p, where I = ?I and P = cnpg_restore_owned]],
       where Q = "\<lambda>user s. ?I s \<and> uc_cert user \<noteq> None"]])
     apply auto [1]
    apply (rule rest)
    done
qed

lemma neutral_cnpg_restore_execute: "neutral w cnpg_restore_execute"
  unfolding cnpg_restore_execute_def by (intro neutral_intros)

lemma disposes_cnpg_restore_cleanup:
  "disposes d w (\<lambda>s. s = x) (\<lambda>_. cnpg_restore_owned x) cnpg_restore_cleanup (\<lambda>_. {#})"
  unfolding cnpg_restore_cleanup_def
proof (rule disposes_get)
  let ?m = "if \<not> cr_setup x then ret () else bnd (deref (cr_user x)) (\<lambda>u. wrapping ''cleanup CNPG restore resources''
       (wrapping ''cleanup postgres user client cert resources'' (delete_user_cert u)))"
  show "owns d w (\<lambda>_. True) (\<lambda>_. {#} + cnpg_restore_owned x) ?m (\<lambda>_. {#}) (\<lambda>_ _. {#}) (\<lambda>_ _. True)"
  proof (cases "cr_setup x")
    case True
    then show ?thesis
      by (cases "cr_user x")
        (auto simp: cnpg_restore_owned_def deref_def
          intro!: owns_fail owns_wrapping owns_delete_user_cert [where P = "\<lambda>_. {#}", simplified])
  qed (auto simp: cnpg_restore_owned_def intro!: owns_ret)
qed

interpretation cnpg_backup_action: remote_action "\<lambda>_. cnpg_backup_ops" cnpg_backup_owned cnpg_backup_early cnpg_backup_late
proof
  show "cnpg_backup_owned x = {#}" if "cnpg_backup_early x" for x
    using that by (simp add: cnpg_backup_early_def cnpg_backup_owned_def)
  show "cnpg_backup_late (set_point t x) \<and> cnpg_backup_owned (set_point t x) = cnpg_backup_owned x"
    if "ra_set_point cnpg_backup_ops = Some set_point" "cnpg_backup_late x" for set_point t x
    using that by (auto simp: cnpg_backup_ops_def cnpg_backup_set_point_def cnpg_backup_late_def cnpg_backup_owned_def
        cong: option.case_cong)
qed (auto simp: cnpg_backup_ops_def usableD
    intro!: owns_at [OF owns_cnpg_backup_validate] owns_at [OF owns_cnpg_backup_before] owns_at [OF owns_cnpg_backup_setup]
      neutralD [OF neutral_cnpg_backup_execute, THEN owns_at [where I = "\<lambda>_. True"], simplified] disposes_cnpg_backup_cleanup)

interpretation cnpg_restore_action: remote_action "\<lambda>_. cnpg_restore_ops" cnpg_restore_owned cnpg_restore_ready cnpg_restore_ready
proof
  show "cnpg_restore_owned x = {#}" if "cnpg_restore_ready x" for x
    using that by (simp add: cnpg_restore_ready_def cnpg_restore_owned_def)
qed (auto simp: cnpg_restore_ops_def usableD
    intro!: owns_at [OF owns_cnpg_restore_validate] owns_at [OF owns_cnpg_restore_setup]
      neutralD [OF neutral_cnpg_restore_execute, THEN owns_at [where I = "\<lambda>_. True"], simplified] disposes_cnpg_restore_cleanup)

end
