(* ===== verification/FileActions.thy ===== *)
theory FileActions
  imports RemoteAction
begin

text \<open>
  The file actions of a stage (\<^verbatim>\<open>src/pkg/disasterrecovery/actions/remote/files\<close>,
  \<^verbatim>\<open>s3sync\<close>): a volume is backed up from a clone taken before the consistency point and
  restored in place; a label-selected group likewise, with the check that captured members and targets
  match one to one; and a bucket is synced with a directory, as of the consistency point when it is
  read.  Every action interprets \<^verbatim>\<open>remote_action\<close>.
\<close>

section \<open>files/backup/filesbackup.go\<close>

record files_backup_options =
  fbo_class :: string
  fbo_filter :: file_filter
  fbo_cleanup :: duration

record files_backup =
  fb_uid :: string
  fb_configured :: bool
  fb_ns :: string
  fb_source :: string
  fb_dr_volume :: string
  fb_dir :: string
  fb_opts :: files_backup_options
  fb_validated :: bool
  fb_clone :: "pvc option"
  fb_cloned :: bool
  fb_dr_path :: string
  fb_data_path :: string
  fb_setup :: bool

definition no_filter :: file_filter where "no_filter = \<lparr> ff_include = [], ff_exclude = [] \<rparr>"

definition new_files_backup :: files_backup where
  "new_files_backup = \<lparr> fb_uid = [], fb_configured = False, fb_ns = [], fb_source = [], fb_dr_volume = [], fb_dir = [],
     fb_opts = \<lparr> fbo_class = [], fbo_filter = no_filter, fbo_cleanup = 0 \<rparr>, fb_validated = False, fb_clone = None,
     fb_cloned = False, fb_dr_path = [], fb_data_path = [], fb_setup = False \<rparr>"

definition files_backup_configure :: "string \<Rightarrow> string \<Rightarrow> string \<Rightarrow> string \<Rightarrow> files_backup_options \<Rightarrow> (files_backup, unit) prog" where
  "files_backup_configure ns source dr_volume dir opts =
     bnd get_st (\<lambda>s. if fb_configured s then fail configured_twice
     else bnd new_uuid (\<lambda>u. upd_st (\<lambda>s. s\<lparr>fb_uid := u, fb_ns := ns, fb_source := source, fb_dr_volume := dr_volume,
       fb_dir := dir, fb_opts := opts, fb_configured := True\<rparr>)))"

definition files_backup_validate :: "(files_backup, unit) prog" where
  "files_backup_validate = bnd get_st (\<lambda>s.
     thn (guard (fb_configured s) (errorf ''attempted to validate without configuring''))
    (bnd (wrapping ''get source data PVC'' (get_pvc (fb_ns s) (fb_source s))) (\<lambda>_.
     bnd (wrapping ''get DR PVC'' (get_pvc (fb_ns s) (fb_dr_volume s))) (\<lambda>_.
     upd_st (\<lambda>s. s\<lparr>fb_validated := True\<rparr>)))))"

definition backup_clone_options :: "files_backup \<Rightarrow> clone_pvc_options" where
  "backup_clone_options s = \<lparr> cpv_snapshot_timeout = 0, cpv_snapshot_class = fbo_class (fb_opts s), cpv_dest_class = [],
     cpv_dest_prefix = fb_dr_volume s, cpv_force_bind = True, cpv_force_bind_timeout = 0 \<rparr>"

text \<open>BeforeConsistencyPoint pins the creation time of the clone.\<close>
definition files_backup_before :: "(files_backup, gotime) prog" where
  "files_backup_before = bnd get_st (\<lambda>s.
     thn (guard (fb_validated s) (errorf ''attempted to clone without validating''))
    (thn (guard (\<not> fb_cloned s) (errorf ''attempted to clone multiple times''))
    (bnd (wrapping ''clone source data PVC'' (clone_pvc (fb_ns s) (fb_source s) (backup_clone_options s))) (\<lambda>p.
     thn (upd_st (\<lambda>s. s\<lparr>fb_clone := Some p, fb_cloned := True\<rparr>)) (ret (om_created (pvc_meta p)))))))"

definition files_backup_setup :: "bt_options \<Rightarrow> (files_backup, bt_options) prog" where
  "files_backup_setup bt_opts = bnd get_st (\<lambda>s.
     thn (guard (fb_cloned s) (errorf ''attempted to setup without cloning''))
    (thn (guard (\<not> fb_setup s) (errorf ''attempted to setup multiple times''))
    (let base = path_join [''/mnt'', ''filesbackup'', fb_uid s];
         dr = path_join [base, ''dr'']; data = path_join [base, ''data''] in
     thn (upd_st (\<lambda>s. s\<lparr>fb_dr_path := dr, fb_data_path := data\<rparr>))
    (bnd (deref (fb_clone s)) (\<lambda>p.
     thn (upd_st (\<lambda>s. s\<lparr>fb_setup := True\<rparr>))
    (ret (add_volumes [new_single_container_pvc (fb_dr_volume s) dr,
        new_single_container_pvc (om_name (pvc_meta p)) data] bt_opts)))))))"

definition files_backup_cleanup :: "(files_backup, unit) prog" where
  "files_backup_cleanup = bnd get_st (\<lambda>s. case fb_clone s of
      None \<Rightarrow> ret ()
    | Some p \<Rightarrow> wrapping ''cleanup files backup resources'' (wrapping ''cleanup cloned data PVC''
        (delete_pvc (fb_ns s) (om_name (pvc_meta p)))))"

definition files_backup_execute :: "(files_backup, unit) prog" where
  "files_backup_execute = bnd get_st (\<lambda>s.
     thn (guard (fb_setup s) (errorf ''attempted to execute without setting up''))
    (wrapping ''sync data directory files to the disaster recovery volume''
       (client_run (SyncFiles (fb_data_path s) (path_join [fb_dr_path s, fb_dir s]) (fbo_filter (fb_opts s))))))"

definition files_backup_ops :: "files_backup remote_ops" where
  "files_backup_ops = \<lparr> ra_validate = files_backup_validate, ra_before = Some files_backup_before, ra_set_point = None,
     ra_setup = files_backup_setup, ra_execute = files_backup_execute, ra_cleanup = Some files_backup_cleanup \<rparr>"

section \<open>files/restore/filesrestore.go\<close>

record files_restore =
  fr_uid :: string
  fr_configured :: bool
  fr_ns :: string
  fr_target :: string
  fr_dr_volume :: string
  fr_dir :: string
  fr_validated :: bool
  fr_dr_path :: string
  fr_data_path :: string
  fr_setup :: bool

definition new_files_restore :: files_restore where
  "new_files_restore = \<lparr> fr_uid = [], fr_configured = False, fr_ns = [], fr_target = [], fr_dr_volume = [], fr_dir = [],
     fr_validated = False, fr_dr_path = [], fr_data_path = [], fr_setup = False \<rparr>"

definition files_restore_configure :: "string \<Rightarrow> string \<Rightarrow> string \<Rightarrow> string \<Rightarrow> (files_restore, unit) prog" where
  "files_restore_configure ns target dr_volume dir =
     bnd get_st (\<lambda>s. if fr_configured s then fail configured_twice
     else bnd new_uuid (\<lambda>u. upd_st (\<lambda>s. s\<lparr>fr_uid := u, fr_ns := ns, fr_target := target, fr_dr_volume := dr_volume,
       fr_dir := dir, fr_configured := True\<rparr>)))"

definition files_restore_validate :: "(files_restore, unit) prog" where
  "files_restore_validate = bnd get_st (\<lambda>s.
     thn (guard (fr_configured s) (errorf ''attempted to validate without configuring''))
    (bnd (wrapping ''get target data PVC'' (get_pvc (fr_ns s) (fr_target s))) (\<lambda>_.
     bnd (wrapping ''get DR PVC'' (get_pvc (fr_ns s) (fr_dr_volume s))) (\<lambda>_.
     upd_st (\<lambda>s. s\<lparr>fr_validated := True\<rparr>)))))"

definition files_restore_setup :: "bt_options \<Rightarrow> (files_restore, bt_options) prog" where
  "files_restore_setup bt_opts = bnd get_st (\<lambda>s.
     thn (guard (fr_validated s) (errorf ''attempted to setup without validating''))
    (thn (guard (\<not> fr_setup s) (errorf ''attempted to setup multiple times''))
    (let base = path_join [''/mnt'', ''filesrestore'', fr_uid s];
         dr = path_join [base, ''dr'']; data = path_join [base, ''data''] in
     thn (upd_st (\<lambda>s. s\<lparr>fr_dr_path := dr, fr_data_path := data, fr_setup := True\<rparr>))
    (ret (add_volumes [new_single_container_pvc (fr_dr_volume s) dr,
        new_single_container_pvc (fr_target s) data] bt_opts)))))"

definition files_restore_execute :: "(files_restore, unit) prog" where
  "files_restore_execute = bnd get_st (\<lambda>s.
     thn (guard (fr_setup s) (errorf ''attempted to execute without setting up''))
    (wrapping ''sync data directory files to the data PVC''
       (client_run (SyncFiles (path_join [fr_dr_path s, fr_dir s]) (fr_data_path s) no_filter))))"

definition files_restore_ops :: "files_restore remote_ops" where
  "files_restore_ops = \<lparr> ra_validate = files_restore_validate, ra_before = None, ra_set_point = None,
     ra_setup = files_restore_setup, ra_execute = files_restore_execute, ra_cleanup = None \<rparr>"

section \<open>files/groupbackup/filesgroupbackup.go\<close>

definition file_groups_dir_name :: string where "file_groups_dir_name = ''fileGroups''"

record files_group_backup =
  gb_uid :: string
  gb_configured :: bool
  gb_ns :: string
  gb_selector :: label_selector
  gb_dr_volume :: string
  gb_group :: string
  gb_opts :: files_backup_options
  gb_validated :: bool
  gb_result :: "clone_pvc_group_result option"
  gb_cloned :: bool
  gb_dr_path :: string
  gb_members :: "(string \<times> string) list"   \<comment> \<open>a Go map from source volume to mount path\<close>
  gb_setup :: bool

definition new_files_group_backup :: files_group_backup where
  "new_files_group_backup = \<lparr> gb_uid = [], gb_configured = False, gb_ns = [], gb_selector = \<lparr> ls_labels = [], ls_exprs = [] \<rparr>,
     gb_dr_volume = [], gb_group = [], gb_opts = \<lparr> fbo_class = [], fbo_filter = no_filter, fbo_cleanup = 0 \<rparr>,
     gb_validated = False, gb_result = None, gb_cloned = False, gb_dr_path = [], gb_members = [], gb_setup = False \<rparr>"

definition files_group_backup_configure :: "string \<Rightarrow> label_selector \<Rightarrow> string \<Rightarrow> string \<Rightarrow> files_backup_options
    \<Rightarrow> (files_group_backup, unit) prog" where
  "files_group_backup_configure ns sel dr_volume gname opts =
     bnd get_st (\<lambda>s. if gb_configured s then fail configured_twice
     else bnd new_uuid (\<lambda>u. upd_st (\<lambda>s. s\<lparr>gb_uid := u, gb_ns := ns, gb_selector := sel, gb_dr_volume := dr_volume,
       gb_group := gname, gb_opts := opts, gb_configured := True\<rparr>)))"

definition files_group_backup_validate :: "(label_selector \<Rightarrow> error) \<Rightarrow> (files_group_backup, unit) prog" where
  "files_group_backup_validate as_selector = bnd get_st (\<lambda>s.
     thn (guard (gb_configured s) (errorf ''attempted to validate without configuring''))
    (bnd (wrapping ''list source PVCs matching the group selector'' (list_pvcs as_selector (gb_ns s) (gb_selector s))) (\<lambda>ps.
     thn (guard (ps \<noteq> []) (errorf ''group selector matched no PVCs''))
    (bnd (wrapping ''get DR PVC'' (get_pvc (gb_ns s) (gb_dr_volume s))) (\<lambda>_.
     upd_st (\<lambda>s. s\<lparr>gb_validated := True\<rparr>))))))"

definition group_clone_options :: "files_group_backup \<Rightarrow> clone_pvc_group_options" where
  "group_clone_options s = \<lparr> cpg_name = [], cpg_snapshot_class = fbo_class (gb_opts s), cpg_snapshot_timeout = 0,
     cpg_dest_class = [], cpg_force_bind = True, cpg_force_bind_timeout = 0 \<rparr>"

text \<open>The freeze instant of the group, or the creation time of the snapshot object.\<close>
definition group_instant :: "group_snapshot \<Rightarrow> gotime" where
  "group_instant g = (case Option.bind (gs_status g) sns_created of None \<Rightarrow> om_created (gs_meta g) | Some t \<Rightarrow> t)"

definition files_group_backup_before :: "(label_selector \<Rightarrow> error) \<Rightarrow> (files_group_backup, gotime) prog" where
  "files_group_backup_before as_selector = bnd get_st (\<lambda>s.
     thn (guard (gb_validated s) (errorf ''attempted to clone without validating''))
    (thn (guard (\<not> gb_cloned s) (errorf ''attempted to clone multiple times''))
    (bnd (wrapping ''clone source data PVC group'' (clone_pvc_group as_selector (gb_ns s) (gb_selector s) (group_clone_options s))) (\<lambda>res.
     thn (upd_st (\<lambda>s. s\<lparr>gb_result := Some res, gb_cloned := True\<rparr>)) (ret (group_instant (cgr_group res)))))))"

text \<open>The loop over the clones: a volume for each, and its mount path.\<close>
fun mount_members :: "string \<Rightarrow> (string \<times> pvc) list \<Rightarrow> scv list \<Rightarrow> (files_group_backup, scv list) prog" where
  "mount_members base [] vs = ret vs"
| "mount_members base ((source, p) # ps) vs = (let path = path_join [base, ''members'', source] in
     thn (upd_st (\<lambda>s. s\<lparr>gb_members := AList.update source path (gb_members s)\<rparr>))
       (mount_members base ps (vs @ [new_single_container_pvc (om_name (pvc_meta p)) path])))"

definition files_group_backup_setup :: "bt_options \<Rightarrow> (files_group_backup, bt_options) prog" where
  "files_group_backup_setup bt_opts = bnd get_st (\<lambda>s.
     thn (guard (gb_cloned s) (errorf ''attempted to setup without cloning''))
    (thn (guard (\<not> gb_setup s) (errorf ''attempted to setup multiple times''))
    (let base = path_join [''/mnt'', ''filesgroupbackup'', gb_uid s]; dr = path_join [base, ''dr''] in
     thn (upd_st (\<lambda>s. s\<lparr>gb_dr_path := dr, gb_members := []\<rparr>))
    (bnd (deref (gb_result s)) (\<lambda>res.
     bnd (map_range (cgr_clones res)) (\<lambda>clones.
     bnd (mount_members base clones [new_single_container_pvc (gb_dr_volume s) dr]) (\<lambda>vs.
     thn (upd_st (\<lambda>s. s\<lparr>gb_setup := True\<rparr>)) (ret (add_volumes vs bt_opts)))))))))"

definition files_group_backup_cleanup :: "(files_group_backup, unit) prog" where
  "files_group_backup_cleanup = bnd get_st (\<lambda>s. case gb_result s of
      None \<Rightarrow> ret ()
    | Some res \<Rightarrow> bnd (map_range (cgr_clones res)) (\<lambda>clones.
        wrapping ''cleanup files group backup resources'' (cleanup_errors ''cleanup files group backup resources''
         (map (\<lambda>(_, p). (''delete cloned PVC'', delete_pvc (gb_ns s) (om_name (pvc_meta p)))) clones @
          [(''delete group snapshot'', delete_group_snapshot (gb_ns s) (om_name (gs_meta (cgr_group res))))]))))"

definition files_group_backup_execute :: "(files_group_backup, unit) prog" where
  "files_group_backup_execute = bnd get_st (\<lambda>s.
     thn (guard (gb_setup s) (errorf ''attempted to execute without setting up''))
    (bnd (map_range (gb_members s)) (for_each (\<lambda>(source, path). wrapping ''sync member''
       (client_run (SyncFiles path (path_join [gb_dr_path s, file_groups_dir_name, gb_group s, source])
          (fbo_filter (gb_opts s))))))))"

definition files_group_backup_ops :: "(label_selector \<Rightarrow> error) \<Rightarrow> files_group_backup remote_ops" where
  "files_group_backup_ops as_selector = \<lparr> ra_validate = files_group_backup_validate as_selector,
     ra_before = Some (files_group_backup_before as_selector), ra_set_point = None, ra_setup = files_group_backup_setup,
     ra_execute = files_group_backup_execute, ra_cleanup = Some files_group_backup_cleanup \<rparr>"

section \<open>files/grouprestore/filesgrouprestore.go\<close>

record files_group_restore =
  gr_uid :: string
  gr_configured :: bool
  gr_ns :: string
  gr_selector :: label_selector
  gr_dr_volume :: string
  gr_group :: string
  gr_target_names :: "string list"
  gr_validated :: bool
  gr_dr_path :: string
  gr_targets :: "(string \<times> string) list"   \<comment> \<open>a Go map from target volume to mount path\<close>
  gr_setup :: bool

definition new_files_group_restore :: files_group_restore where
  "new_files_group_restore = \<lparr> gr_uid = [], gr_configured = False, gr_ns = [], gr_selector = \<lparr> ls_labels = [], ls_exprs = [] \<rparr>,
     gr_dr_volume = [], gr_group = [], gr_target_names = [], gr_validated = False, gr_dr_path = [], gr_targets = [], gr_setup = False \<rparr>"

definition files_group_restore_configure :: "string \<Rightarrow> label_selector \<Rightarrow> string \<Rightarrow> string \<Rightarrow> (files_group_restore, unit) prog" where
  "files_group_restore_configure ns sel dr_volume gname =
     bnd get_st (\<lambda>s. if gr_configured s then fail configured_twice
     else bnd new_uuid (\<lambda>u. upd_st (\<lambda>s. s\<lparr>gr_uid := u, gr_ns := ns, gr_selector := sel, gr_dr_volume := dr_volume,
       gr_group := gname, gr_configured := True\<rparr>)))"

definition files_group_restore_validate :: "(label_selector \<Rightarrow> error) \<Rightarrow> (files_group_restore, unit) prog" where
  "files_group_restore_validate as_selector = bnd get_st (\<lambda>s.
     thn (guard (gr_configured s) (errorf ''attempted to validate without configuring''))
    (bnd (wrapping ''list target PVCs matching the group selector'' (list_pvcs as_selector (gr_ns s) (gr_selector s))) (\<lambda>ps.
     thn (guard (ps \<noteq> []) (errorf ''group selector matched no PVCs''))
    (thn (upd_st (\<lambda>s. s\<lparr>gr_target_names := map (\<lambda>p. om_name (pvc_meta p)) ps\<rparr>))
    (bnd (wrapping ''get DR PVC'' (get_pvc (gr_ns s) (gr_dr_volume s))) (\<lambda>_.
     upd_st (\<lambda>s. s\<lparr>gr_validated := True\<rparr>)))))))"

fun mount_targets :: "string \<Rightarrow> string list \<Rightarrow> scv list \<Rightarrow> (files_group_restore, scv list) prog" where
  "mount_targets base [] vs = ret vs"
| "mount_targets base (n # ns) vs = (let path = path_join [base, ''targets'', n] in
     thn (upd_st (\<lambda>s. s\<lparr>gr_targets := AList.update n path (gr_targets s)\<rparr>))
       (mount_targets base ns (vs @ [new_single_container_pvc n path])))"

definition files_group_restore_setup :: "bt_options \<Rightarrow> (files_group_restore, bt_options) prog" where
  "files_group_restore_setup bt_opts = bnd get_st (\<lambda>s.
     thn (guard (gr_validated s) (errorf ''attempted to setup without validating''))
    (thn (guard (\<not> gr_setup s) (errorf ''attempted to setup multiple times''))
    (let base = path_join [''/mnt'', ''filesgrouprestore'', gr_uid s]; dr = path_join [base, ''dr''] in
     thn (upd_st (\<lambda>s. s\<lparr>gr_dr_path := dr, gr_targets := []\<rparr>))
    (bnd (mount_targets base (gr_target_names s) [new_single_container_pvc (gr_dr_volume s) dr]) (\<lambda>vs.
     thn (upd_st (\<lambda>s. s\<lparr>gr_setup := True\<rparr>)) (ret (add_volumes vs bt_opts)))))))"

definition verify_one_to_one_mapping :: "string list \<Rightarrow> (string \<times> string) list \<Rightarrow> error" where
  "verify_one_to_one_mapping captured targets =
     (let targets_without_capture = filter (\<lambda>t. t \<notin> set captured) (map fst targets);
          captures_without_target = filter (\<lambda>m. map_of targets m = None) captured
      in if targets_without_capture = [] \<and> captures_without_target = [] then None
         else Some (errorf ''refusing to restore group: backup/restore membership is not 1:1''))"

definition files_group_restore_execute :: "(files_group_restore, unit) prog" where
  "files_group_restore_execute = bnd get_st (\<lambda>s.
     thn (guard (gr_setup s) (errorf ''attempted to execute without setting up''))
    (let dir = path_join [gr_dr_path s, file_groups_dir_name, gr_group s] in
     bnd (wrapping ''list captured members'' (client_list_directory dir)) (\<lambda>captured.
     thn (wrapping ''verify one to one mapping'' (lift_err (verify_one_to_one_mapping captured (gr_targets s))))
    (bnd (map_range (gr_targets s)) (for_each (\<lambda>(target, path). wrapping ''sync captured member onto target PVC''
       (client_run (SyncFiles (path_join [dir, target]) path no_filter))))))))"

definition files_group_restore_ops :: "(label_selector \<Rightarrow> error) \<Rightarrow> files_group_restore remote_ops" where
  "files_group_restore_ops as_selector = \<lparr> ra_validate = files_group_restore_validate as_selector, ra_before = None,
     ra_set_point = None, ra_setup = files_group_restore_setup, ra_execute = files_group_restore_execute, ra_cleanup = None \<rparr>"

section \<open>s3sync/s3sync.go\<close>

datatype direction = DirectionDownload | DirectionUpload | OtherDirection int

record s3_sync_action =
  sy_uid :: string
  sy_configured :: bool
  sy_ns :: string
  sy_dr_volume :: string
  sy_dir :: string
  sy_path :: string
  sy_credentials :: s3_credentials
  sy_direction :: direction
  sy_point :: gotime
  sy_validated :: bool
  sy_dr_path :: string
  sy_setup :: bool

definition new_s3_sync :: s3_sync_action where
  "new_s3_sync = \<lparr> sy_uid = [], sy_configured = False, sy_ns = [], sy_dr_volume = [], sy_dir = [], sy_path = [],
     sy_credentials = new_credentials [] [], sy_direction = DirectionDownload, sy_point = 0, sy_validated = False,
     sy_dr_path = [], sy_setup = False \<rparr>"

definition s3_sync_set_point :: "gotime \<Rightarrow> s3_sync_action \<Rightarrow> s3_sync_action" where
  "s3_sync_set_point c s = s\<lparr>sy_point := c\<rparr>"

definition s3_sync_configure :: "string \<Rightarrow> string \<Rightarrow> string \<Rightarrow> string \<Rightarrow> s3_credentials \<Rightarrow> direction \<Rightarrow> (s3_sync_action, unit) prog" where
  "s3_sync_configure ns dr_volume dir path creds dr =
     bnd get_st (\<lambda>s. if sy_configured s then fail configured_twice
     else bnd new_uuid (\<lambda>u. upd_st (\<lambda>s. s\<lparr>sy_uid := u, sy_ns := ns, sy_dr_volume := dr_volume, sy_dir := dir,
       sy_path := path, sy_credentials := creds, sy_direction := dr, sy_configured := True\<rparr>)))"

definition s3_sync_validate :: "(s3_sync_action, unit) prog" where
  "s3_sync_validate = bnd get_st (\<lambda>s.
     thn (guard (sy_configured s) (errorf ''attempted to validate without configuring''))
    (thn (guard (sy_direction s = DirectionUpload \<or> sy_direction s = DirectionDownload) (errorf ''invalid direction''))
    (bnd (wrapping ''get DR PVC'' (get_pvc (sy_ns s) (sy_dr_volume s))) (\<lambda>_.
     upd_st (\<lambda>s. s\<lparr>sy_validated := True\<rparr>)))))"

definition s3_sync_setup :: "bt_options \<Rightarrow> (s3_sync_action, bt_options) prog" where
  "s3_sync_setup bt_opts = bnd get_st (\<lambda>s.
     thn (guard (sy_validated s) (errorf ''attempted to setup without validating''))
    (thn (guard (\<not> sy_setup s) (errorf ''attempted to setup multiple times''))
    (let dr = path_join [path_join [''/mnt'', ''s3sync'', sy_uid s], ''dr''] in
     thn (upd_st (\<lambda>s. s\<lparr>sy_dr_path := dr, sy_setup := True\<rparr>))
    (ret (add_volumes [new_single_container_pvc (sy_dr_volume s) dr] bt_opts)))))"

text \<open>The call of Execute: source, destination and point depend on the direction.\<close>
definition s3_sync_call :: "s3_sync_action \<Rightarrow> runtime_call" where
  "s3_sync_call s =
     (let backup_path = path_join [sy_dr_path s, sy_dir s];
          (source, destination) = (if sy_direction s = DirectionUpload then (backup_path, sy_path s) else (sy_path s, backup_path));
          as_of = (if sy_direction s = DirectionDownload then sy_point s else 0)
      in S3Sync (sy_credentials s) source destination as_of)"

definition s3_sync_execute :: "(s3_sync_action, unit) prog" where
  "s3_sync_execute = bnd get_st (\<lambda>s.
     thn (guard (sy_setup s) (errorf ''attempted to execute without setting up''))
    (wrapping ''sync files'' (client_run (s3_sync_call s))))"

definition s3_sync_ops :: "s3_sync_action remote_ops" where
  "s3_sync_ops = \<lparr> ra_validate = s3_sync_validate, ra_before = None, ra_set_point = Some s3_sync_set_point,
     ra_setup = s3_sync_setup, ra_execute = s3_sync_execute, ra_cleanup = None \<rparr>"

section \<open>Ownership\<close>

text \<open>The actions without a Cleanup own nothing; their methods are neutral up to the receiver's fields.\<close>
definition owns_nothing :: "'x \<Rightarrow> objref multiset" where "owns_nothing x = {#}"

definition stateless :: "world \<Rightarrow> ('s, 'a) prog \<Rightarrow> bool" where
  "stateless w m \<longleftrightarrow> (\<forall>d. owns d w (\<lambda>_. True) owns_nothing m owns_nothing (\<lambda>_. owns_nothing) (\<lambda>_ _. True))"

lemma stateless_bnd [neutral_intros]: "stateless w m \<Longrightarrow> (\<And>x. stateless w (f x)) \<Longrightarrow> stateless w (bnd m f)"
  unfolding stateless_def by (blast intro: owns_bnd)

lemma stateless_thn [neutral_intros]: "stateless w m \<Longrightarrow> stateless w n \<Longrightarrow> stateless w (thn m n)"
  unfolding thn_def by (rule stateless_bnd)

lemma stateless_upd [neutral_intros]: "stateless w (upd_st f)"
  unfolding stateless_def by (intro allI owns_upd_st) (simp add: owns_nothing_def)

lemma stateless_neutral: "neutral w m \<Longrightarrow> stateless w m"
  by (simp add: stateless_def neutralD)

lemma stateless_at: "stateless w m \<Longrightarrow> owns d w (\<lambda>s. s = x \<and> I x) owns_nothing m owns_nothing (\<lambda>_. owns_nothing) (\<lambda>_ _. True)"
  unfolding stateless_def owns_def by blast

lemma stateless_mount: "stateless w (mount_targets base ns vs)"
  by (induction ns arbitrary: vs)
    (simp_all add: Let_def stateless_neutral neutral_basic stateless_thn stateless_upd)

lemmas stateless_intros = stateless_bnd stateless_thn stateless_upd stateless_mount stateless_neutral [OF neutral_basic(1)]
  stateless_neutral [OF neutral_basic(3)] stateless_neutral [OF neutral_basic(4)] stateless_neutral [OF neutral_basic(6)]
  stateless_neutral [OF neutral_wrapping]

lemma neutral_for_each [neutral_intros]: "(\<And>x. neutral w (f x)) \<Longrightarrow> neutral w (for_each f xs)"
  by (induction xs) (auto intro: neutral_intros)

lemma neutral_map_range [neutral_intros]: "world_ok w \<Longrightarrow> neutral w (map_range m)"
  by (rule neutralI, rule owns_weaken, erule owns_map_range, simp)

lemma stateless_files_restore:
  assumes w: "world_ok w"
  shows "stateless w files_restore_validate" "stateless w (files_restore_setup opts)" "stateless w files_restore_execute"
  unfolding files_restore_validate_def files_restore_setup_def files_restore_execute_def Let_def
  by (intro stateless_intros neutral_intros w)+

lemma stateless_group_restore:
  assumes w: "world_ok w"
  shows "stateless w (files_group_restore_validate f)" "stateless w (files_group_restore_setup opts)"
    "stateless w files_group_restore_execute"
proof -
  show "stateless w files_group_restore_execute"
    unfolding files_group_restore_execute_def Let_def split_def
    by (rule stateless_neutral) (intro neutral_intros w)
qed (simp_all only: files_group_restore_validate_def files_group_restore_setup_def Let_def,
    (intro stateless_intros neutral_intros w)+)

lemma stateless_s3_sync:
  assumes w: "world_ok w"
  shows "stateless w s3_sync_validate" "stateless w (s3_sync_setup opts)" "stateless w s3_sync_execute"
  unfolding s3_sync_validate_def s3_sync_setup_def s3_sync_execute_def Let_def
  by (intro stateless_intros neutral_intros w)+

interpretation files_restore_action: remote_action "\<lambda>_. files_restore_ops" owns_nothing "\<lambda>_. True" "\<lambda>_. True"
  by unfold_locales (auto simp: files_restore_ops_def owns_nothing_def [of x for x] usableD stateless_files_restore
      intro!: stateless_at [where I = "\<lambda>_. True", simplified])

interpretation files_group_restore_action: remote_action "\<lambda>_. files_group_restore_ops as_selector" owns_nothing "\<lambda>_. True" "\<lambda>_. True"
  for as_selector
  by unfold_locales (auto simp: files_group_restore_ops_def owns_nothing_def [of x for x] usableD stateless_group_restore
      intro!: stateless_at [where I = "\<lambda>_. True", simplified])

interpretation s3_sync_action: remote_action "\<lambda>_. s3_sync_ops" owns_nothing "\<lambda>_. True" "\<lambda>_. True"
  by unfold_locales (auto simp: s3_sync_ops_def owns_nothing_def [of x for x] usableD stateless_s3_sync
      intro!: stateless_at [where I = "\<lambda>_. True", simplified])

definition files_backup_owned :: "files_backup \<Rightarrow> objref multiset" where
  "files_backup_owned s = (case fb_clone s of None \<Rightarrow> {#} | Some p \<Rightarrow> {#(KPVC, fb_ns s, om_name (pvc_meta p))#})"

definition files_group_backup_owned :: "files_group_backup \<Rightarrow> objref multiset" where
  "files_group_backup_owned s = (case gb_result s of None \<Rightarrow> {#} | Some res \<Rightarrow> owned_group_result (gb_ns s) res)"

lemma owns_files_backup_validate:
  assumes w: "world_ok w"
  shows "owns d w (\<lambda>s. fb_clone s = None) files_backup_owned files_backup_validate files_backup_owned (\<lambda>_. files_backup_owned)
     (\<lambda>_ s. fb_clone s = None)"
  unfolding files_backup_validate_def
  apply (rule owns_bnd, rule neutralD, rule neutral_intros)
  apply (rule owns_thn, rule neutralD, rule neutral_intros)
  apply (rule owns_bnd, rule neutralD, intro neutral_intros w)
  apply (rule owns_bnd, rule neutralD, intro neutral_intros w)
  apply (rule owns_upd_st, simp add: files_backup_owned_def)
  done

lemma owns_files_backup_before:
  assumes w: "usable w"
  shows "owns d w (\<lambda>s. fb_clone s = None) files_backup_owned files_backup_before files_backup_owned (\<lambda>_. files_backup_owned)
     (\<lambda>_ _. True)"
  unfolding files_backup_before_def
  apply (rule owns_get_bnd)
  apply (rule owns_thn, rule neutralD, rule neutral_intros)
  apply (rule owns_thn, rule neutralD, rule neutral_intros)
  apply (rule owns_bnd, rule owns_wrapping, rule owns_clone_pvc [OF usableD(1) [OF w] usableD(3) [OF w]])
  apply (rule owns_thn, rule owns_upd_st [where G = "\<lambda>_. files_backup_owned" and Q = "\<lambda>_ _. True"])
   apply (auto simp: files_backup_owned_def) [1]
  apply (rule owns_ret, simp)
  done

lemma owns_files_backup_setup:
  "owns d w (\<lambda>_. True) files_backup_owned (files_backup_setup opts) files_backup_owned (\<lambda>_. files_backup_owned) (\<lambda>_ _. True)"
  unfolding files_backup_setup_def Let_def
  apply (rule owns_bnd, rule neutralD, rule neutral_intros)
  apply (rule owns_thn, rule neutralD, rule neutral_intros)
  apply (rule owns_thn, rule neutralD, rule neutral_intros)
  apply (rule owns_thn, rule owns_upd_st [where G = "\<lambda>_. files_backup_owned" and Q = "\<lambda>_ _. True"])
   apply (simp add: files_backup_owned_def cong: option.case_cong)
  apply (rule owns_bnd, rule neutralD, rule neutral_intros)
  apply (rule owns_thn, rule owns_upd_st [where G = "\<lambda>_. files_backup_owned" and Q = "\<lambda>_ _. True"])
   apply (simp add: files_backup_owned_def cong: option.case_cong)
  apply (rule owns_ret, simp)
  done

lemma disposes_files_backup_cleanup:
  "disposes d w (\<lambda>s. s = x) (\<lambda>_. files_backup_owned x) files_backup_cleanup (\<lambda>_. {#})"
  unfolding files_backup_cleanup_def
  by (rule disposes_get)
    (auto simp: files_backup_owned_def intro!: owns_ret owns_wrapping owns_deletes split: option.split)

lemma neutral_files_backup_execute: "neutral w files_backup_execute"
  unfolding files_backup_execute_def by (intro neutral_intros)

interpretation files_backup_action: remote_action "\<lambda>_. files_backup_ops" files_backup_owned "\<lambda>s. fb_clone s = None" "\<lambda>_. True"
proof
  show "files_backup_owned x = {#}" if "fb_clone x = None" for x
    using that by (simp add: files_backup_owned_def)
qed (auto simp: files_backup_ops_def usableD
    intro!: owns_at [OF owns_files_backup_validate] owns_at [OF owns_files_backup_before]
      owns_at [OF owns_files_backup_setup, simplified]
      neutralD [OF neutral_files_backup_execute, THEN owns_at [where I = "\<lambda>_. True"], simplified] disposes_files_backup_cleanup)

lemma owns_group_backup_validate:
  assumes w: "world_ok w"
  shows "owns d w (\<lambda>s. gb_result s = None) files_group_backup_owned (files_group_backup_validate f) files_group_backup_owned
     (\<lambda>_. files_group_backup_owned) (\<lambda>_ s. gb_result s = None)"
  unfolding files_group_backup_validate_def
  apply (rule owns_bnd, rule neutralD, rule neutral_intros)
  apply (rule owns_thn, rule neutralD, rule neutral_intros)
  apply (rule owns_bnd, rule neutralD, intro neutral_intros w)
  apply (rule owns_thn, rule neutralD, rule neutral_intros)
  apply (rule owns_bnd, rule neutralD, intro neutral_intros w)
  apply (rule owns_upd_st, simp add: files_group_backup_owned_def)
  done

lemma owns_group_backup_before:
  assumes w: "usable w"
  shows "owns d w (\<lambda>s. gb_result s = None) files_group_backup_owned (files_group_backup_before f) files_group_backup_owned
     (\<lambda>_. files_group_backup_owned) (\<lambda>_ _. True)"
  unfolding files_group_backup_before_def
  apply (rule owns_get_bnd)
  apply (rule owns_thn, rule neutralD, rule neutral_intros)
  apply (rule owns_thn, rule neutralD, rule neutral_intros)
  apply (rule owns_bnd, rule owns_wrapping, rule owns_clone_pvc_group [OF usableD(1) [OF w] usableD(4) [OF w]])
  apply (rule owns_thn, rule owns_upd_st [where G = "\<lambda>_. files_group_backup_owned" and Q = "\<lambda>_ _. True"])
   apply (auto simp: files_group_backup_owned_def) [1]
  apply (rule owns_ret, simp)
  done

lemma group_owned_cong:
  "gb_result s = gb_result t \<Longrightarrow> gb_ns s = gb_ns t \<Longrightarrow> files_group_backup_owned s = files_group_backup_owned t"
  by (simp add: files_group_backup_owned_def cong: option.case_cong)

lemma owns_mount_members:
  "owns d w (\<lambda>_. True) files_group_backup_owned (mount_members base ps vs) files_group_backup_owned
     (\<lambda>_. files_group_backup_owned) (\<lambda>_ _. True)"
proof (induction ps arbitrary: vs)
  case (Cons p ps)
  obtain source v where p: "p = (source, v)" by (cases p)
  show ?case
    unfolding p mount_members.simps Let_def
    by (rule owns_thn [OF owns_upd_st Cons], intro conjI TrueI group_owned_cong) simp_all
qed (auto intro: owns_ret)

lemma owns_group_backup_setup:
  assumes w: "world_ok w"
  shows "owns d w (\<lambda>_. True) files_group_backup_owned (files_group_backup_setup opts) files_group_backup_owned
     (\<lambda>_. files_group_backup_owned) (\<lambda>_ _. True)"
  unfolding files_group_backup_setup_def Let_def
  apply (rule owns_bnd, rule neutralD, rule neutral_intros)
  apply (rule owns_thn, rule neutralD, rule neutral_intros)
  apply (rule owns_thn, rule neutralD, rule neutral_intros)
  apply (rule owns_thn, rule owns_upd_st [where G = "\<lambda>_. files_group_backup_owned" and Q = "\<lambda>_ _. True"])
   apply (intro conjI TrueI group_owned_cong; simp)
  apply (rule owns_bnd, rule neutralD, rule neutral_intros)
  apply (rule owns_bnd, rule neutralD, rule neutral_intros, rule w)
  apply (rule owns_bnd, rule owns_mount_members)
  apply (rule owns_thn, rule owns_upd_st [where G = "\<lambda>_. files_group_backup_owned" and Q = "\<lambda>_ _. True"])
   apply (intro conjI TrueI group_owned_cong; simp)
  apply (rule owns_ret, simp)
  done

lemma owns_delete_members:
  "owns_each w (map (\<lambda>(_, p). (t, delete_pvc ns (om_name (pvc_meta p)))) cs)
     (map (\<lambda>(_, p). {#(KPVC, ns, om_name (pvc_meta p))#}) cs)"
  by (induction cs) (auto simp: deletes_keep_state intro!: owns_deletes)

lemma owned_clones_sum: "sum_list (map (\<lambda>(_, p). {#(KPVC, ns, om_name (pvc_meta p))#}) cs) = owned_clones ns cs"
  by (induction cs) auto

lemma disposes_group_backup_cleanup:
  assumes w: "world_ok w"
  shows "disposes d w (\<lambda>s. s = x) (\<lambda>_. files_group_backup_owned x) files_group_backup_cleanup (\<lambda>_. {#})"
  unfolding files_group_backup_cleanup_def
proof (rule disposes_get, cases "gb_result x")
  case (Some res)
  let ?t = "''cleanup files group backup resources''"
  let ?clean = "\<lambda>cs. wrapping ?t (cleanup_errors ?t
         (map (\<lambda>(_, p). (''delete cloned PVC'', delete_pvc (gb_ns x) (om_name (pvc_meta p)))) cs @
          [(''delete group snapshot'', delete_group_snapshot (gb_ns x) (om_name (gs_meta (cgr_group res))))]))"
  have clean: "owns d w (\<lambda>_. mset cs = mset (cgr_clones res)) (\<lambda>_. {#} + owned_group_result (gb_ns x) res) (?clean cs)
      (\<lambda>_. {#}) (\<lambda>_ _. {#}) (\<lambda>_ _. True)" for cs
  proof (cases "mset cs = mset (cgr_clones res)")
    case True
    let ?Ms = "map (\<lambda>(_, p). {#(KPVC, gb_ns x, om_name (pvc_meta p))#}) cs @ [{#(KGroupSnapshot, gb_ns x, om_name (gs_meta (cgr_group res)))#}]"
    have each: "owns_each w (map (\<lambda>(_, p). (''delete cloned PVC'', delete_pvc (gb_ns x) (om_name (pvc_meta p)))) cs @
          [(''delete group snapshot'', delete_group_snapshot (gb_ns x) (om_name (gs_meta (cgr_group res))))]) ?Ms"
      by (rule owns_each_append [OF owns_delete_members]) (auto simp: deletes_keep_state intro!: owns_deletes)
    have sum: "sum_list ?Ms = owned_group_result (gb_ns x) res"
      using owned_clones_mset [OF True] by (simp add: owned_group_result_def owned_clones_sum)
    show ?thesis
      unfolding sum [symmetric] by (rule owns_weaken, rule owns_wrapping, rule owns_cleanup_errors [OF each]) simp
  qed (simp add: owns_def)
  show "owns d w (\<lambda>_. True) (\<lambda>_. {#} + files_group_backup_owned x)
     (case gb_result x of None \<Rightarrow> ret () | Some res \<Rightarrow> bnd (map_range (cgr_clones res)) (\<lambda>clones. wrapping ?t (cleanup_errors ?t
         (map (\<lambda>(_, p). (''delete cloned PVC'', delete_pvc (gb_ns x) (om_name (pvc_meta p)))) clones @
          [(''delete group snapshot'', delete_group_snapshot (gb_ns x) (om_name (gs_meta (cgr_group res))))]))))
     (\<lambda>_. {#}) (\<lambda>_ _. {#}) (\<lambda>_ _. True)"
    unfolding Some option.case files_group_backup_owned_def
    by (rule owns_bnd [OF owns_map_range [OF w]], rule owns_conseq [OF clean]) simp_all
qed (auto simp: files_group_backup_owned_def intro!: owns_ret)

lemma neutral_group_backup_execute:
  assumes w: "world_ok w" shows "neutral w files_group_backup_execute"
  unfolding files_group_backup_execute_def split_def by (intro neutral_intros w)

interpretation files_group_backup_action: remote_action "\<lambda>_. files_group_backup_ops as_selector" files_group_backup_owned
    "\<lambda>s. gb_result s = None" "\<lambda>_. True" for as_selector
proof
  show "files_group_backup_owned x = {#}" if "gb_result x = None" for x
    using that by (simp add: files_group_backup_owned_def)
qed (auto simp: files_group_backup_ops_def usableD
    intro!: owns_at [OF owns_group_backup_validate] owns_at [OF owns_group_backup_before]
      owns_at [OF owns_group_backup_setup, simplified]
      neutralD [OF neutral_group_backup_execute, THEN owns_at [where I = "\<lambda>_. True"], simplified] disposes_group_backup_cleanup)

section \<open>A group is restored as a whole\<close>

text \<open>What restoring one member sends.\<close>
definition member_sync :: "files_group_restore \<Rightarrow> string \<times> string \<Rightarrow> event" where
  "member_sync s = (\<lambda>(target, path). Called (SyncFilesRequest
     (path_join [path_join [gr_dr_path s, file_groups_dir_name, gr_group s], target]) path [] []))"

lemma sync_members_calls:
  "for_each (\<lambda>(target, path). wrapping tag (client_run (SyncFiles (path_join [dir, target]) path no_filter))) ts w s tr = (Inr (), s', tr')
     \<Longrightarrow> s' = s \<and> tr' = tr @ map (\<lambda>(target, path). Called (SyncFilesRequest (path_join [dir, target]) path [] [])) ts"
proof (induction ts arbitrary: tr)
  case (Cons tp ts)
  obtain t p where tp: "tp = (t, p)" by (cases tp)
  let ?q = "SyncFilesRequest (path_join [dir, t]) p [] []"
  have call: "wrapping tag (client_run (SyncFiles (path_join [dir, t]) p no_filter)) w s tr =
      (case w_call w tr ?q of Inl e \<Rightarrow> Inl (WrapErr tag e) | Inr _ \<Rightarrow> Inr (), s, tr @ [Called ?q])"
    by (simp add: prog_simps client_run_def client_call_def file_patterns_to_proto_def no_filter_def split: sum.splits)
  from Cons.prems have "for_each (\<lambda>(target, path). wrapping tag (client_run (SyncFiles (path_join [dir, target]) path no_filter))) ts w s
      (tr @ [Called ?q]) = (Inr (), s', tr')"
    by (simp add: tp thn_run call split: sum.splits)
  from Cons.IH [OF this] show ?case by (simp add: tp)
qed simp

lemma one_to_one: "verify_one_to_one_mapping captured targets = None \<longleftrightarrow> set captured = fst ` set targets"
  by (auto simp: verify_one_to_one_mapping_def Let_def filter_empty_conv map_of_eq_None_iff)

text \<open>C10: a group is restored only onto the members it was captured from: when the captured directories and the
  target volumes differ, nothing is written; on success every target was sent its own capture, once.\<close>
theorem group_restore_one_to_one:
  assumes w: "world_ok w" and ready: "gr_setup s"
    and listed: "client_list_directory (path_join [gr_dr_path s, file_groups_dir_name, gr_group s]) w s tr = (Inr captured, s1, tr1)"
    and run: "files_group_restore_execute w s tr = (r, s', tr')"
  shows "if set captured \<noteq> fst ` set (gr_targets s) then isl r \<and> tr' = tr1
    else r = Inr () \<longrightarrow> (\<exists>order. mset order = mset (gr_targets s) \<and> tr' = tr1 @ map (member_sync s) order)"
proof (cases "set captured = fst ` set (gr_targets s)")
  case False
  with run ready listed one_to_one [of captured "gr_targets s"] show ?thesis
    by (auto simp: files_group_restore_execute_def prog_simps Let_def split: option.splits)
next
  case True
  have s1: "s1 = s"
    using listed by (auto simp: client_list_directory_def client_call_def prog_simps split: sum.splits)
  have "\<exists>order. mset order = mset (gr_targets s) \<and> tr' = tr1 @ map (member_sync s) order" if r: "r = Inr ()"
  proof -
    from run ready listed s1 r True
    have syncs: "for_each (\<lambda>(target, path). wrapping ''sync captured member onto target PVC''
       (client_run (SyncFiles (path_join [path_join [gr_dr_path s, file_groups_dir_name, gr_group s], target]) path no_filter)))
       (map (nth (gr_targets s)) (w_map_order w tr1 (length (gr_targets s)))) w s tr1 = (Inr (), s', tr')"
      using one_to_one [of captured "gr_targets s"]
      by (auto simp: files_group_restore_execute_def prog_simps Let_def split: option.splits)
    from sync_members_calls [OF syncs] mset_map_nth [OF world_ok_apis(11) [OF w]]
    show ?thesis unfolding member_sync_def by blast
  qed
  with True show ?thesis by simp
qed

text \<open>Two members captured, and the targets of both ready.\<close>
definition sample_group_restore :: files_group_restore where
  "sample_group_restore = new_files_group_restore\<lparr>gr_dr_path := ''/dr'', gr_group := ''g'', gr_setup := True,
     gr_targets := [(''a'', ''/a''), (''b'', ''/b'')]\<rparr>"

definition sample_captures :: world where
  "sample_captures = sample_world\<lparr>w_call := \<lambda>tr q. Inr (case q of ListDirectoryRequest _ \<Rightarrow> EntriesResponse [''b'', ''a''] | _ \<Rightarrow> EmptyResponse)\<rparr>"

theorem group_restore_one_to_one_witness:
  "\<exists>order. mset order = mset (gr_targets sample_group_restore) \<and> snd (snd (files_group_restore_execute sample_captures sample_group_restore []))
     = [Called (ListDirectoryRequest ''/dr/fileGroups/g'')] @ map (member_sync sample_group_restore) order"
proof -
  have w: "world_ok sample_captures"
    using sample_world_ok by (simp add: world_ok_def sample_captures_def)
  have r: "gr_setup sample_group_restore" by (simp add: sample_group_restore_def)
  have l: "client_list_directory (path_join [gr_dr_path sample_group_restore, file_groups_dir_name, gr_group sample_group_restore])
     sample_captures sample_group_restore [] = (Inr [''b'', ''a''], sample_group_restore, [Called (ListDirectoryRequest ''/dr/fileGroups/g'')])"
    by code_simp
  obtain r s' tr' where run: "files_group_restore_execute sample_captures sample_group_restore [] = (r, s', tr')" by (metis prod_cases3)
  have ok: "fst (files_group_restore_execute sample_captures sample_group_restore []) = Inr ()" by code_simp
  have same: "set [''b'', ''a''] = fst ` set (gr_targets sample_group_restore)" by (auto simp: sample_group_restore_def)
  from group_restore_one_to_one [OF w r l run] run ok show ?thesis by (simp only: same fst_conv snd_conv simp_thms if_False)
qed

end
