(* ===== verification/RemoteStage.thy ===== *)
theory RemoteStage
  imports DatabaseActions FileActions
begin

text \<open>
  \<^verbatim>\<open>src/pkg/disasterrecovery/actions/remote/remotestage.go\<close>: a stage validates its
  actions, runs their pre-steps, fixes the event's consistency point, sets every action up, runs them in
  the tool's pod, and cleans up whatever happened.  The lemmas hold for every method table that keeps the
  contract \<^verbatim>\<open>remote_action\<close>; the properties are stated for the program's seven actions.
\<close>

section \<open>The stage\<close>

definition stage_validate :: "('x \<Rightarrow> 'x remote_ops) \<Rightarrow> ((string \<times> 'x) list, unit) prog" where
  "stage_validate ops = for_actions (\<lambda>n _. wrapping ''validate resources'' (bnd get_st (\<lambda>x. ra_validate (ops x)))) ()"

text \<open>The earliest instant that a capture pinned so far; zero when none did.\<close>
definition track_earliest :: "gotime \<Rightarrow> gotime \<Rightarrow> gotime" where
  "track_earliest point pinned =
     (if \<not> is_zero_time pinned \<and> (is_zero_time point \<or> pinned < point) then pinned else point)"

definition pre_step :: "('x \<Rightarrow> 'x remote_ops) \<Rightarrow> string \<Rightarrow> gotime \<Rightarrow> ('x, gotime) prog" where
  "pre_step ops n point = bnd get_st (\<lambda>x. case ra_before (ops x) of
      None \<Rightarrow> ret point
    | Some before \<Rightarrow> bnd (wrapping ''run pre-consistency-point step'' before) (\<lambda>pinned. ret (track_earliest point pinned)))"

definition hand_point :: "('x \<Rightarrow> 'x remote_ops) \<Rightarrow> gotime \<Rightarrow> 'x \<Rightarrow> 'x" where
  "hand_point ops c x = (case ra_set_point (ops x) of None \<Rightarrow> x | Some set_point \<Rightarrow> set_point c x)"

definition hand_points :: "('x \<Rightarrow> 'x remote_ops) \<Rightarrow> gotime \<Rightarrow> (string \<times> 'x) list \<Rightarrow> (string \<times> 'x) list" where
  "hand_points ops c = map (\<lambda>(n, x). (n, hand_point ops c x))"

definition setup_step :: "('x \<Rightarrow> 'x remote_ops) \<Rightarrow> string \<Rightarrow> bt_options \<Rightarrow> ('x, bt_options) prog" where
  "setup_step ops n opts = wrapping ''setup resources'' (bnd get_st (\<lambda>x. ra_setup (ops x) opts))"

definition initial_bt_options :: "string \<Rightarrow> duration \<Rightarrow> bt_options" where
  "initial_bt_options event_name cleanup = \<lparr> bto_prefix = tool_name @ ''-'' @ event_name, bto_volumes = [],
     bto_cleanup = cleanup, bto_pod_wait = 0 \<rparr>"

text \<open>Phase 1: the pre-steps; phase 2: the consistency point; phase 3: the setups.\<close>
definition stage_setup :: "('x \<Rightarrow> 'x remote_ops) \<Rightarrow> string \<Rightarrow> duration \<Rightarrow> ((string \<times> 'x) list, bt_options) prog" where
  "stage_setup ops event_name cleanup =
     bnd (for_actions (pre_step ops) 0) (\<lambda>earliest.
     bnd (if is_zero_time earliest then time_now else ret earliest) (\<lambda>point.
     thn (upd_st (hand_points ops point))
       (for_actions (setup_step ops) (initial_bt_options event_name cleanup))))"

text \<open>
  \<^verbatim>\<open>defer cleanup.To(...).WithOriginalErr(&err)....Run()\<close> in a function whose result is not
  named: err is a local variable, so what the cleanup writes into it is not what the function returns.
\<close>
definition deferred_unnamed :: "string \<Rightarrow> ('s, unit) prog \<Rightarrow> ('s, 'a) prog \<Rightarrow> ('s, 'a) prog" where
  "deferred_unnamed tag logic m = finally_do (\<lambda>e.
     bnd (run_quiet (with_original_err e (with_err_message tag (cleanup_to logic)))) (\<lambda>_. ret e)) m"

definition execute_step :: "('x \<Rightarrow> 'x remote_ops) \<Rightarrow> string \<Rightarrow> unit \<Rightarrow> ('x, unit) prog" where
  "execute_step ops n _ = wrapping ''execute resources'' (bnd get_st (\<lambda>x. ra_execute (ops x)))"

definition stage_execute :: "('x \<Rightarrow> 'x remote_ops) \<Rightarrow> string \<Rightarrow> bt_options \<Rightarrow> ((string \<times> 'x) list, unit) prog" where
  "stage_execute ops ns bt_opts =
     bnd (wrapping ''create instance'' (create_backup_tool_instance ns bt_opts)) (\<lambda>b.
     deferred_unnamed ''cleanup backup tool instance'' (delete_instance b)
       (thn (wrapping ''create client for backup tool GRPC server'' (get_grpc_client b))
         (deferred_unnamed ''close backup tool client'' close_grpc_client
           (for_actions (execute_step ops) ()))))"

definition cleanup_step :: "('x \<Rightarrow> 'x remote_ops) \<Rightarrow> string \<Rightarrow> error \<Rightarrow> ('x, error) prog" where
  "cleanup_step ops n outer = bnd get_st (\<lambda>x. case ra_cleanup (ops x) of
      None \<Rightarrow> ret outer
    | Some cleanup \<Rightarrow> bnd (run_quiet (with_original_err outer (with_err_message ''cleanup resources'' (cleanup_to cleanup))))
        (\<lambda>orig. ret (case orig of None \<Rightarrow> outer | Some e \<Rightarrow> e)))"

text \<open>cleanupFunc: the cleanups run in the order of the actions, each merging its error into the outer one.\<close>
definition stage_cleanup :: "('x \<Rightarrow> 'x remote_ops) \<Rightarrow> error \<Rightarrow> ((string \<times> 'x) list, error) prog" where
  "stage_cleanup ops outer = for_actions (cleanup_step ops) outer"

definition stage_run :: "('x \<Rightarrow> 'x remote_ops) \<Rightarrow> string \<Rightarrow> string \<Rightarrow> duration \<Rightarrow> ((string \<times> 'x) list, unit) prog" where
  "stage_run ops ns event_name cleanup = finally_do (stage_cleanup ops)
     (thn (stage_validate ops) (bnd (stage_setup ops event_name cleanup) (stage_execute ops ns)))"

section \<open>What a stage leaves behind\<close>

lemma deferred_unnamed_run [prog_simps]:
  "deferred_unnamed tag logic m w s tr = (case m w s tr of (r, s1, tr1) \<Rightarrow>
     (case logic w s1 tr1 of (_, s2, tr2) \<Rightarrow> (r, s2, tr2)))"
  by (auto simp: deferred_unnamed_def run_quiet_def prog_simps Let_def err_of_def split: prod.splits sum.splits option.splits)

lemma owns_deferred_unnamed:
  assumes m: "owns d w I (\<lambda>s. P s + M) m (\<lambda>s. P s + M) (\<lambda>_ s. P s + M) (\<lambda>_ _. True)"
    and logic: "owns d w (\<lambda>_. True) (\<lambda>s. P s + M) logic P (\<lambda>_. P) (\<lambda>_ _. True)"
  shows "owns d w I (\<lambda>s. P s + M) (deferred_unnamed tag logic m) P (\<lambda>_. P) (\<lambda>_ _. True)"
proof (rule ownsI)
  fix s tr base r s' tr'
  assume I: "I s" and o1: "within d (outstanding tr) (base + (P s + M))" and run: "deferred_unnamed tag logic m w s tr = (r, s', tr')"
  from run obtain s1 tr1 rc where r1: "m w s tr = (r, s1, tr1)" and r2: "logic w s1 tr1 = (rc, s', tr')"
    by (auto simp: prog_simps split: prod.splits)
  have o2: "within d (outstanding tr1) (base + (P s1 + M))"
    using owns_err [OF m _ I o1] owns_ok [OF m _ I o1] r1 by (cases r) auto
  have D: "disposes d w (\<lambda>_. True) (\<lambda>s. P s + M) logic P" using logic by (simp add: disposes_def)
  from disposesD [OF D r2 _ o2] show "case r of Inl _ \<Rightarrow> within d (outstanding tr') (base + P s')
       | Inr _ \<Rightarrow> within d (outstanding tr') (base + P s') \<and> True" by (simp split: sum.splits)
qed

lemma neutral_client_channel [neutral_intros]: "neutral w (get_grpc_client b)" "neutral w close_grpc_client"
  by (rule neutralI; rule ownsI; auto simp: get_grpc_client_def new_grpc_client_def verify_connection_def close_grpc_client_def
      prog_simps outstanding_append split: option.splits if_splits)+

context remote_action
begin

lemma owns_stage_validate:
  assumes w: "usable w"
  shows "owns AtMost w (all_actions early) (owned_all owned) (stage_validate ops) (owned_all owned) (\<lambda>_. owned_all owned) (\<lambda>_. all_actions early)"
  unfolding stage_validate_def
  by (rule owns_for_actions, rule owns_wrapping, rule owns_get_bnd, rule validate_owns [OF w])

lemma owns_pre_steps:
  assumes w: "usable w"
  shows "owns AtMost w (all_actions early) (owned_all owned) (for_actions (pre_step ops) c) (owned_all owned)
     (\<lambda>_. owned_all owned) (\<lambda>_. all_actions late)"
proof (rule owns_for_actions)
  fix n c
  show "owns AtMost w early owned (pre_step ops n c) owned (\<lambda>_. owned) (\<lambda>_. late)"
    unfolding pre_step_def
  proof (rule owns_get_bnd)
    fix x
    show "owns AtMost w (\<lambda>s. s = x \<and> early x) owned (case ra_before (ops x) of None \<Rightarrow> ret c
        | Some before \<Rightarrow> bnd (wrapping ''run pre-consistency-point step'' before) (\<lambda>pinned. ret (track_earliest c pinned)))
        owned (\<lambda>_. owned) (\<lambda>_. late)"
    proof (cases "ra_before (ops x)")
      case None
      with early_late show ?thesis by (auto intro!: owns_ret)
    next
      case (Some before)
      show ?thesis
        unfolding Some option.case
        by (rule owns_bnd, rule owns_wrapping, rule before_owns [OF w Some], rule owns_ret, simp)
    qed
  qed
qed

lemma hand_points_owns:
  "all_actions late xs \<Longrightarrow> owned_all owned (hand_points ops c xs) = owned_all owned xs \<and> all_actions late (hand_points ops c xs)"
proof (induction xs)
  case (Cons nx xs)
  obtain n x where nx: "nx = (n, x)" by (cases nx)
  have "late x" using Cons.prems nx by simp
  then have "late (hand_point ops c x) \<and> owned (hand_point ops c x) = owned x"
    by (auto simp: hand_point_def point_owns split: option.split)
  with Cons nx show ?case by (simp add: hand_points_def)
qed (simp add: hand_points_def)

lemma owns_stage_setup:
  assumes w: "usable w"
  shows "owns AtMost w (all_actions early) (owned_all owned) (stage_setup ops event_name cleanup) (owned_all owned)
     (\<lambda>_. owned_all owned) (\<lambda>_ _. True)"
  unfolding stage_setup_def
  apply (rule owns_bnd, rule owns_pre_steps [OF w])
  apply (rule owns_bnd, rule neutralD, intro neutral_intros)
  apply (rule owns_thn, rule owns_upd_st [where G = "\<lambda>_. owned_all owned" and Q = "\<lambda>_. all_actions late"])
   apply (simp add: hand_points_owns)
  apply (rule owns_weaken, rule owns_for_actions)
   apply (simp only: setup_step_def)
   apply (rule owns_wrapping, rule owns_get_bnd, rule setup_owns [OF w])
  apply simp
  done

lemma owns_execute_steps:
  assumes w: "usable w"
  shows "owns AtMost w (\<lambda>_. True) (\<lambda>s. owned_all owned s + M) (for_actions (execute_step ops) c) (\<lambda>s. owned_all owned s + M)
     (\<lambda>_ s. owned_all owned s + M) (\<lambda>_ _. True)"
proof (rule ownsI)
  have step: "owns AtMost w (all_actions (\<lambda>_. True)) (owned_all owned) (for_actions (execute_step ops) c) (owned_all owned)
      (\<lambda>_. owned_all owned) (\<lambda>_. all_actions (\<lambda>_. True))"
    by (rule owns_for_actions, simp only: execute_step_def, rule owns_wrapping, rule owns_get_bnd, rule execute_owns [OF w])
  fix s tr base r s' tr'
  assume o1: "within AtMost (outstanding tr) (base + (owned_all owned s + M))"
    and run: "for_actions (execute_step ops) c w s tr = (r, s', tr')"
  have o2: "within AtMost (outstanding tr) ((base + M) + owned_all owned s)" using o1 by (simp add: ac_simps)
  have all: "all_actions (\<lambda>_. True) s" by (simp add: all_actions_def)
  have "within AtMost (outstanding tr') ((base + M) + owned_all owned s')"
    using owns_err [OF step _ all o2] owns_ok [OF step _ all o2] run by (cases r) auto
  then show "case r of Inl _ \<Rightarrow> within AtMost (outstanding tr') (base + (owned_all owned s' + M))
       | Inr _ \<Rightarrow> within AtMost (outstanding tr') (base + (owned_all owned s' + M)) \<and> True"
    by (simp add: ac_simps split: sum.splits)
qed

lemma owns_stage_execute:
  assumes w: "usable w"
  shows "owns AtMost w (\<lambda>_. True) (owned_all owned) (stage_execute ops ns opts) (owned_all owned) (\<lambda>_. owned_all owned) (\<lambda>_ _. True)"
  unfolding stage_execute_def
  apply (rule owns_bnd, rule owns_wrapping, rule owns_create_instance [OF usableD(1) [OF w]])
  subgoal for b
    apply (rule owns_conseq [OF owns_deferred_unnamed [where I = "\<lambda>_. True" and P = "owned_all owned" and M = "owned_instance b"]])
         apply (rule owns_thn, rule neutralD, intro neutral_intros)
         apply (rule owns_conseq [OF owns_deferred_unnamed [where M = "{#}" and P = "\<lambda>s. owned_all owned s + owned_instance b" and I = "\<lambda>_. True"]])
              apply (simp, rule owns_execute_steps [OF w])
             apply (simp, rule owns_weaken, rule neutralD, rule neutral_intros, simp)
            apply simp_all [3]
        apply (rule owns_delete_instance)
       apply simp_all
    done
  done

text \<open>Whatever its state, running the cleanups disposes of everything the actions answer for.\<close>
lemma stage_cleanup_disposes:
  assumes w: "usable w"
  shows "stage_cleanup ops e w xs tr = (r, xs', tr') \<Longrightarrow> outstanding tr \<subseteq># base + owned_all owned xs \<Longrightarrow> outstanding tr' \<subseteq># base"
  unfolding stage_cleanup_def
proof (induction xs arbitrary: e tr base xs')
  case (Cons nx xs)
  obtain n x where nx: "nx = (n, x)" by (cases nx)
  obtain r1 x1 tr1 where one: "cleanup_step ops n e w x tr = (r1, x1, tr1)" by (metis prod_cases3)
  have o1: "within AtMost (outstanding tr) ((base + owned_all owned xs) + owned x)"
    using Cons.prems(2) nx by (simp add: ac_simps)
  have o2: "outstanding tr1 \<subseteq># base + owned_all owned xs"
  proof (cases "ra_cleanup (ops x)")
    case None
    with one no_cleanup [OF None] o1 show ?thesis by (simp add: cleanup_step_def prog_simps)
  next
    case (Some cleanup)
    with one obtain rc where "cleanup w x tr = (rc, x1, tr1)"
      by (auto simp: cleanup_step_def run_quiet_def prog_simps Let_def split: prod.splits sum.splits)
    from disposesD [OF cleanup_disposes [OF w Some] this _ o1] show ?thesis by simp
  qed
  have "\<exists>e1. r1 = Inr e1"
    using one by (auto simp: cleanup_step_def run_quiet_def prog_simps Let_def split: prod.splits sum.splits option.splits)
  then obtain e1 where r1: "r1 = Inr e1" by blast
  obtain xs1 where "for_actions (cleanup_step ops) e1 w xs tr1 = (r, xs1, tr')"
    using Cons.prems(1) one nx r1 by (auto split: prod.splits)
  from Cons.IH [OF this o2] show ?case .
qed simp

lemma stage_leaves_nothing:
  assumes w: "usable w" and early: "all_actions early xs"
    and run: "stage_run ops ns event_name cleanup w xs tr = (r, xs', tr')"
  shows "outstanding tr' \<subseteq># outstanding tr"
proof -
  let ?body = "thn (stage_validate ops) (bnd (stage_setup ops event_name cleanup) (stage_execute ops ns))"
  have body: "owns AtMost w (all_actions early) (owned_all owned) ?body (owned_all owned) (\<lambda>_. owned_all owned) (\<lambda>_ _. True)"
    by (rule owns_thn [OF owns_stage_validate [OF w]], rule owns_bnd [OF owns_stage_setup [OF w]], rule owns_stage_execute [OF w])
  from run obtain rb xs1 tr1 rc where b: "?body w xs tr = (rb, xs1, tr1)" and c: "stage_cleanup ops (err_of rb) w xs1 tr1 = (rc, xs', tr')"
    unfolding stage_run_def by (rule finallyE)
  have nothing: "owned_all owned xs = {#}"
    using early by (induction xs) (auto simp: early_owns)
  have o1: "within AtMost (outstanding tr) (outstanding tr + owned_all owned xs)" by (simp add: nothing)
  have "outstanding tr1 \<subseteq># outstanding tr + owned_all owned xs1"
    using owns_err [OF body _ early o1] owns_ok [OF body _ early o1] b by (cases rb) auto
  from stage_cleanup_disposes [OF w c this] show ?thesis .
qed

end

section \<open>The program's actions\<close>

datatype action =
    CNPGBackup cnpg_backup
  | CNPGRestore cnpg_restore
  | FilesBackup files_backup
  | FilesRestore files_restore
  | FilesGroupBackup files_group_backup
  | FilesGroupRestore files_group_restore
  | S3SyncAction s3_sync_action

fun action_ops :: "(label_selector \<Rightarrow> error) \<Rightarrow> action \<Rightarrow> action remote_ops" where
  "action_ops as_sel (CNPGBackup x) = embed CNPGBackup cnpg_backup_ops x"
| "action_ops as_sel (CNPGRestore x) = embed CNPGRestore cnpg_restore_ops x"
| "action_ops as_sel (FilesBackup x) = embed FilesBackup files_backup_ops x"
| "action_ops as_sel (FilesRestore x) = embed FilesRestore files_restore_ops x"
| "action_ops as_sel (FilesGroupBackup x) = embed FilesGroupBackup (files_group_backup_ops as_sel) x"
| "action_ops as_sel (FilesGroupRestore x) = embed FilesGroupRestore (files_group_restore_ops as_sel) x"
| "action_ops as_sel (S3SyncAction x) = embed S3SyncAction s3_sync_ops x"

fun action_owned :: "action \<Rightarrow> objref multiset" where
  "action_owned (CNPGBackup x) = cnpg_backup_owned x"
| "action_owned (CNPGRestore x) = cnpg_restore_owned x"
| "action_owned (FilesBackup x) = files_backup_owned x"
| "action_owned (FilesGroupBackup x) = files_group_backup_owned x"
| "action_owned _ = {#}"

text \<open>What holds of an action that has only been configured, and before its setup.\<close>
fun action_early :: "action \<Rightarrow> bool" where
  "action_early (CNPGBackup x) = cnpg_backup_early x"
| "action_early (CNPGRestore x) = cnpg_restore_ready x"
| "action_early (FilesBackup x) = (fb_clone x = None)"
| "action_early (FilesGroupBackup x) = (gb_result x = None)"
| "action_early _ = True"

fun action_late :: "action \<Rightarrow> bool" where
  "action_late (CNPGBackup x) = cnpg_backup_late x"
| "action_late (CNPGRestore x) = cnpg_restore_ready x"
| "action_late _ = True"

lemma embed_sels [simp]:
  "ra_validate (embed C ops x) = inside C x (ra_validate ops)"
  "ra_before (embed C ops x) = map_option (inside C x) (ra_before ops)"
  "ra_set_point (embed C ops x) = map_option (\<lambda>f t _. C (f t x)) (ra_set_point ops)"
  "ra_setup (embed C ops x) opts = inside C x (ra_setup ops opts)"
  "ra_execute (embed C ops x) = inside C x (ra_execute ops)"
  "ra_cleanup (embed C ops x) = map_option (inside C x) (ra_cleanup ops)"
  by (simp_all add: embed_def)

text \<open>The laws of an action's own method table hold for it as an action of a stage.\<close>
lemma embed_laws:
  assumes R: "remote_action (\<lambda>_. ops) ownedx earlyx latex"
    and o1: "\<And>y. owned (C y) = ownedx y" and e1: "\<And>y. early (C y) \<longleftrightarrow> earlyx y" and l1: "\<And>y. late (C y) \<longleftrightarrow> latex y"
  shows "early (C x) \<Longrightarrow> owned (C x) = {#}"
    and "ra_before (embed C ops x) = None \<Longrightarrow> early (C x) \<Longrightarrow> late (C x)"
    and "usable w \<Longrightarrow> owns AtMost w (\<lambda>s. s = C x \<and> early (C x)) owned (ra_validate (embed C ops x)) owned (\<lambda>_. owned) (\<lambda>_. early)"
    and "usable w \<Longrightarrow> ra_before (embed C ops x) = Some before \<Longrightarrow>
        owns AtMost w (\<lambda>s. s = C x \<and> early (C x)) owned before owned (\<lambda>_. owned) (\<lambda>_. late)"
    and "ra_set_point (embed C ops x) = Some set_point \<Longrightarrow> late (C x) \<Longrightarrow>
        late (set_point t (C x)) \<and> owned (set_point t (C x)) = owned (C x)"
    and "usable w \<Longrightarrow> owns AtMost w (\<lambda>s. s = C x \<and> late (C x)) owned (ra_setup (embed C ops x) opts) owned (\<lambda>_. owned) (\<lambda>_ _. True)"
    and "usable w \<Longrightarrow> owns AtMost w (\<lambda>s. s = C x \<and> True) owned (ra_execute (embed C ops x)) owned (\<lambda>_. owned) (\<lambda>_ _. True)"
    and "usable w \<Longrightarrow> ra_cleanup (embed C ops x) = Some cleanup \<Longrightarrow>
        disposes AtMost w (\<lambda>s. s = C x) (\<lambda>_. owned (C x)) cleanup (\<lambda>_. {#})"
    and "ra_cleanup (embed C ops x) = None \<Longrightarrow> owned (C x) = {#}"
proof -
  note laws = remote_action.early_owns [OF R] remote_action.early_late [OF R] remote_action.validate_owns [OF R]
    remote_action.before_owns [OF R] remote_action.point_owns [OF R] remote_action.setup_owns [OF R]
    remote_action.execute_owns [OF R] remote_action.cleanup_disposes [OF R] remote_action.no_cleanup [OF R]
  show "early (C x) \<Longrightarrow> owned (C x) = {#}" using laws(1) by (simp add: o1 e1)
  show "ra_before (embed C ops x) = None \<Longrightarrow> early (C x) \<Longrightarrow> late (C x)" using laws(2) by (simp add: e1 l1)
  show "ra_set_point (embed C ops x) = Some set_point \<Longrightarrow> late (C x) \<Longrightarrow>
        late (set_point t (C x)) \<and> owned (set_point t (C x)) = owned (C x)"
    using laws(5) by (auto simp: o1 l1)
  show "ra_cleanup (embed C ops x) = None \<Longrightarrow> owned (C x) = {#}" using laws(9) by (simp add: o1)
  show "usable w \<Longrightarrow> ra_cleanup (embed C ops x) = Some cleanup \<Longrightarrow>
        disposes AtMost w (\<lambda>s. s = C x) (\<lambda>_. owned (C x)) cleanup (\<lambda>_. {#})"
    using laws(8) by (auto simp: o1 intro!: disposes_inside)
  show "usable w \<Longrightarrow> owns AtMost w (\<lambda>s. s = C x \<and> early (C x)) owned (ra_validate (embed C ops x)) owned (\<lambda>_. owned) (\<lambda>_. early)"
    unfolding e1 embed_sels by (rule owns_inside [OF laws(3)]) (simp_all add: o1 e1)
  show "usable w \<Longrightarrow> ra_before (embed C ops x) = Some before \<Longrightarrow>
        owns AtMost w (\<lambda>s. s = C x \<and> early (C x)) owned before owned (\<lambda>_. owned) (\<lambda>_. late)"
    unfolding e1 embed_sels by (auto simp: o1 l1 intro!: owns_inside [OF laws(4)])
  show "usable w \<Longrightarrow> owns AtMost w (\<lambda>s. s = C x \<and> late (C x)) owned (ra_setup (embed C ops x) opts) owned (\<lambda>_. owned) (\<lambda>_ _. True)"
    unfolding l1 embed_sels by (rule owns_inside [OF laws(6)]) (simp_all add: o1)
  show "usable w \<Longrightarrow> owns AtMost w (\<lambda>s. s = C x \<and> True) owned (ra_execute (embed C ops x)) owned (\<lambda>_. owned) (\<lambda>_ _. True)"
    unfolding embed_sels by (rule owns_inside [OF laws(7)]) (simp_all add: o1)
qed

lemma action_simps:
  "action_owned (FilesRestore a) = owns_nothing a" "action_owned (FilesGroupRestore b) = owns_nothing b"
  "action_owned (S3SyncAction c) = owns_nothing c"
  by (simp_all add: owns_nothing_def)

text \<open>The laws for each of the seven.\<close>
lemmas cnpg_backup_laws = embed_laws [where C = CNPGBackup and owned = action_owned and early = action_early and late = action_late,
  OF cnpg_backup_action.remote_action_axioms action_owned.simps(1) action_early.simps(1) action_late.simps(1)]
lemmas cnpg_restore_laws = embed_laws [where C = CNPGRestore and owned = action_owned and early = action_early and late = action_late,
  OF cnpg_restore_action.remote_action_axioms action_owned.simps(2) action_early.simps(2) action_late.simps(2)]
lemmas files_backup_laws = embed_laws [where C = FilesBackup and owned = action_owned and early = action_early and late = action_late,
  OF files_backup_action.remote_action_axioms action_owned.simps(3) action_early.simps(3) action_late.simps(3)]
lemmas files_restore_laws = embed_laws [where C = FilesRestore and owned = action_owned and early = action_early and late = action_late,
  OF files_restore_action.remote_action_axioms action_simps(1) action_early.simps(5) action_late.simps(4)]
lemmas files_group_backup_laws = embed_laws [where C = FilesGroupBackup and owned = action_owned and early = action_early and late = action_late,
  OF files_group_backup_action.remote_action_axioms action_owned.simps(4) action_early.simps(4) action_late.simps(5)]
lemmas files_group_restore_laws = embed_laws [where C = FilesGroupRestore and owned = action_owned and early = action_early and late = action_late,
  OF files_group_restore_action.remote_action_axioms action_simps(2) action_early.simps(6) action_late.simps(6)]
lemmas s3_sync_laws = embed_laws [where C = S3SyncAction and owned = action_owned and early = action_early and late = action_late,
  OF s3_sync_action.remote_action_axioms action_simps(3) action_early.simps(7) action_late.simps(7)]

interpretation stage_action: remote_action "action_ops as_selector" action_owned action_early action_late for as_selector
proof (unfold_locales, goal_cases)
  case (1 x)
  then show ?case
    by (cases x; simp only: action_ops.simps)
      (erule cnpg_backup_laws(1) cnpg_restore_laws(1) files_backup_laws(1) files_restore_laws(1) files_group_backup_laws(1) files_group_restore_laws(1) s3_sync_laws(1))+
next
  case (2 x)
  then show ?case
    by (cases x; simp only: action_ops.simps)
      (erule cnpg_backup_laws(2) cnpg_restore_laws(2) files_backup_laws(2) files_restore_laws(2) files_group_backup_laws(2) files_group_restore_laws(2) s3_sync_laws(2); assumption)+
next
  case (3 w x)
  then show ?case
    by (cases x; simp only: action_ops.simps)
      (erule cnpg_backup_laws(3) cnpg_restore_laws(3) files_backup_laws(3) files_restore_laws(3) files_group_backup_laws(3) files_group_restore_laws(3) s3_sync_laws(3))+
next
  case (4 w x before)
  then show ?case
    by (cases x; simp only: action_ops.simps)
      (erule cnpg_backup_laws(4) cnpg_restore_laws(4) files_backup_laws(4) files_restore_laws(4) files_group_backup_laws(4) files_group_restore_laws(4) s3_sync_laws(4); assumption)+
next
  case (5 x set_point t)
  then show ?case
    by (cases x; simp only: action_ops.simps)
      (erule cnpg_backup_laws(5) cnpg_restore_laws(5) files_backup_laws(5) files_restore_laws(5) files_group_backup_laws(5) files_group_restore_laws(5) s3_sync_laws(5); assumption)+
next
  case (6 w x opts)
  then show ?case
    by (cases x; simp only: action_ops.simps)
      (erule cnpg_backup_laws(6) cnpg_restore_laws(6) files_backup_laws(6) files_restore_laws(6) files_group_backup_laws(6) files_group_restore_laws(6) s3_sync_laws(6))+
next
  case (7 w x)
  then show ?case
    by (cases x; simp only: action_ops.simps)
      (erule cnpg_backup_laws(7) cnpg_restore_laws(7) files_backup_laws(7) files_restore_laws(7) files_group_backup_laws(7) files_group_restore_laws(7) s3_sync_laws(7))+
next
  case (8 w x cleanup)
  then show ?case
    by (cases x; simp only: action_ops.simps)
      (erule cnpg_backup_laws(8) cnpg_restore_laws(8) files_backup_laws(8) files_restore_laws(8) files_group_backup_laws(8) files_group_restore_laws(8) s3_sync_laws(8); assumption)+
next
  case (9 x)
  then show ?case
    by (cases x; simp only: action_ops.simps)
      (erule cnpg_backup_laws(9) cnpg_restore_laws(9) files_backup_laws(9) files_restore_laws(9) files_group_backup_laws(9) files_group_restore_laws(9) s3_sync_laws(9))+
qed


section \<open>What a stage reports\<close>

text \<open>C12: the run of a stage in the tool's pod succeeds exactly when the pod was created, the client connected and
  every action was executed: what closing the client and deleting the pod answered does not matter.\<close>
theorem stage_execute_drops_cleanup_errors:
  "stage_execute ops ns opts w xs tr = (Inr (), xs', tr') \<longleftrightarrow>
     (\<exists>b xs1 tr1 xs2 tr2 tr3 close_result xs4 tr4 delete_result.
        create_backup_tool_instance ns opts w xs tr = (Inr b, xs1, tr1) \<and>
        get_grpc_client b w xs1 tr1 = (Inr (), xs2, tr2) \<and>
        (\<exists>xs3. for_actions (execute_step ops) () w xs2 tr2 = (Inr (), xs3, tr3) \<and>
           close_grpc_client w xs3 tr3 = (close_result, xs4, tr4) \<and>
           delete_instance b w xs4 tr4 = (delete_result, xs', tr')))"
  unfolding stage_execute_def by (simp add: prog_simps split: prod.splits sum.splits)

section \<open>A stage in the sample world\<close>

definition sample_stage :: "(string \<times> action) list" where
  "sample_stage = [
     (''database'', CNPGRestore (new_cnpg_restore\<lparr>cr_uid := ''u1'', cr_configured := True, cr_ns := ''ns'', cr_cluster_name := ''pg'',
        cr_serving_name := ''pg-cert'', cr_dr_volume := ''dr'', cr_file := ''dump.sql''\<rparr>)),
     (''data'', FilesBackup (new_files_backup\<lparr>fb_uid := ''u2'', fb_configured := True, fb_ns := ''ns'', fb_source := ''data'',
        fb_dr_volume := ''dr'', fb_dir := ''files''\<rparr>)),
     (''media'', S3SyncAction (new_s3_sync\<lparr>sy_uid := ''u3'', sy_configured := True, sy_ns := ''ns'', sy_dr_volume := ''dr'',
        sy_dir := ''media'', sy_path := ''s3://media''\<rparr>))]"

lemma sample_world_usable: "usable sample_world"
  using sample_world_ok sample_policies
  by (auto simp: usable_def distinct_member_sources_def sample_world_def sample_api_def delivered_def sample_snapshot_def
      source_name_of_def)

lemma sample_stage_early: "all_actions action_early sample_stage"
  by (simp add: sample_stage_def new_cnpg_restore_def new_files_backup_def cnpg_restore_ready_def)

text \<open>In the sample world the tool's pod always starts, answers, and every call succeeds.\<close>
lemma sample_create_instance:
  "\<exists>p tr'. create_backup_tool_instance ns opts sample_world s tr = (Inr \<lparr> bti_pod = Some p \<rparr>, s, tr') \<and> pod_ip p = ''10.0.0.1''"
  unfolding create_backup_tool_instance_def create_instance_body_def Let_def split_def
  by (simp add: prog_simps create_pod_def wait_for_ready_pod_def wait_for_resource_condition_def sample_world_def sample_api_def
      set_pod_def run_wait_def until_with_sync_def by_name_def pod_processor_def ready_condition_def cond_ready_def cond_true_def deref_def
      label_resource_def bt_pod_def sample_pod_def empty_meta_def)

fun sample_ready :: "action \<Rightarrow> bool" where
  "sample_ready (CNPGRestore x) = (cr_setup x \<and> cr_cluster x \<noteq> None)"
| "sample_ready (FilesBackup x) = fb_setup x"
| "sample_ready (S3SyncAction x) = sy_setup x"
| "sample_ready _ = False"

lemma sample_client_run: "\<exists>tr'. client_run c sample_world s tr = (Inr (), s, tr')"
proof -
  have "w_call sample_world tr q = Inr (case q of ListDirectoryRequest _ \<Rightarrow> EntriesResponse [] | _ \<Rightarrow> EmptyResponse)" for tr q
    by (simp add: sample_world_def)
  with decode_encode [of c] show ?thesis by (auto simp: client_run_def client_call_def prog_simps)
qed

lemma sample_executes:
  "\<forall>(n, a) \<in> set xs. sample_ready a \<Longrightarrow> \<exists>xs' tr'. for_actions (execute_step (action_ops f)) () sample_world xs tr = (Inr (), xs', tr')"
proof (induction xs arbitrary: tr)
  case (Cons nx xs)
  obtain n a where nx: "nx = (n, a)" by (cases nx)
  have "\<exists>a' tr1. execute_step (action_ops f) n () sample_world a tr = (Inr (), a', tr1)"
  proof (cases a)
    case (CNPGRestore x)
    with Cons.prems nx obtain c where "cr_setup x" "cr_cluster x = Some c" by auto
    moreover obtain tr1 where "client_run (Restore (cluster_credentials x c) (path_join [cr_dr_path x, cr_file x])) sample_world x tr = (Inr (), x, tr1)"
      by (rule exE [OF sample_client_run], rule that)
    ultimately show ?thesis
      using CNPGRestore by (simp add: execute_step_def prog_simps inside_def cnpg_restore_ops_def cnpg_restore_execute_def deref_def)
  next
    case (FilesBackup x)
    moreover obtain tr1 where "client_run (SyncFiles (fb_data_path x) (path_join [fb_dr_path x, fb_dir x]) (fbo_filter (fb_opts x)))
        sample_world x tr = (Inr (), x, tr1)"
      by (rule exE [OF sample_client_run], rule that)
    ultimately show ?thesis
      using Cons.prems nx by (simp add: execute_step_def prog_simps inside_def files_backup_ops_def files_backup_execute_def)
  next
    case (S3SyncAction x)
    moreover obtain tr1 where "client_run (s3_sync_call x) sample_world x tr = (Inr (), x, tr1)"
      by (rule exE [OF sample_client_run], rule that)
    ultimately show ?thesis
      using Cons.prems nx by (simp add: execute_step_def prog_simps inside_def s3_sync_ops_def s3_sync_execute_def)
  qed (use Cons.prems nx in auto)
  then obtain a' tr1 where "execute_step (action_ops f) n () sample_world a tr = (Inr (), a', tr1)" by blast
  with Cons.IH [of tr1] Cons.prems nx show ?case by fastforce
qed simp

lemma sample_execute: "\<forall>(n, a) \<in> set xs. sample_ready a \<Longrightarrow>
    \<exists>xs' tr'. stage_execute (action_ops f) ns opts sample_world xs tr = (Inr (), xs', tr')"
proof -
  assume ready: "\<forall>(n, a) \<in> set xs. sample_ready a"
  obtain p tr1 where p: "create_backup_tool_instance ns opts sample_world xs tr = (Inr \<lparr> bti_pod = Some p \<rparr>, xs, tr1)"
    "pod_ip p = ''10.0.0.1''"
    using sample_create_instance [of ns opts xs tr] by blast
  obtain tr2 where c: "get_grpc_client \<lparr> bti_pod = Some p \<rparr> sample_world xs tr1 = (Inr (), xs, tr2)"
    using p(2) by (simp add: get_grpc_client_def new_grpc_client_def verify_connection_def prog_simps sample_world_def)
  obtain xs' tr3 where x: "for_actions (execute_step (action_ops f)) () sample_world xs tr2 = (Inr (), xs', tr3)"
    using sample_executes [OF ready] by blast
  show ?thesis
    unfolding stage_execute_def by (simp add: prog_simps p(1) c x split: prod.splits)
qed

lemma sample_stage_prepared:
  "case thn (stage_validate (action_ops (\<lambda>_. None))) (stage_setup (action_ops (\<lambda>_. None)) ''app'' 0) sample_world sample_stage [] of
     (r, xs, tr) \<Rightarrow> \<not> isl r \<and> list_all (\<lambda>(n, a). sample_ready a) xs"
  by code_simp


end
