(* ===== verification/ConsistencyPoint.thy ===== *)
theory ConsistencyPoint
  imports RemoteStage
begin

text \<open>
  What the three phases of \<^verbatim>\<open>RemoteStage.Run\<close> (\<^verbatim>\<open>src/pkg/disasterrecovery/actions/remote/remotestage.go\<close>)
  are for: every capture of an event that can be made as of an instant is made as of the same one.
\<close>

section \<open>The consistency point\<close>

text \<open>The instant that an action's capture is frozen at, zero for one that is not.\<close>
fun pinned_instant :: "action \<Rightarrow> gotime" where
  "pinned_instant (FilesBackup x) = (case fb_clone x of None \<Rightarrow> 0 | Some p \<Rightarrow> om_created (pvc_meta p))"
| "pinned_instant (FilesGroupBackup x) = (case gb_result x of None \<Rightarrow> 0 | Some res \<Rightarrow> group_instant (cgr_group res))"
| "pinned_instant _ = 0"

text \<open>The point that a capture is made as of.\<close>
fun action_point :: "action \<Rightarrow> gotime option" where
  "action_point (CNPGBackup x) = Some (cb_point x)"
| "action_point (S3SyncAction x) = Some (sy_point x)"
| "action_point _ = None"

definition earliest_pinned :: "gotime list \<Rightarrow> gotime" where
  "earliest_pinned ts = (let pinned = filter (\<lambda>t. t \<noteq> 0) ts in if pinned = [] then 0 else Min (set pinned))"

lemma foldl_track_earliest:
  "foldl track_earliest c ts = (if c = 0 then earliest_pinned ts else if earliest_pinned ts = 0 then c else min c (earliest_pinned ts))"
proof (induction ts arbitrary: c)
  case (Cons t ts)
  have ne: "earliest_pinned ts = 0 \<longleftrightarrow> filter (\<lambda>t. t \<noteq> 0) ts = []"
  proof -
    have "Min (set (filter (\<lambda>t. t \<noteq> 0) ts)) \<in> set (filter (\<lambda>t. t \<noteq> 0) ts)" if "filter (\<lambda>t. t \<noteq> 0) ts \<noteq> []"
      by (rule Min_in) (simp_all only: List.finite_set set_empty that not_False_eq_True)
    then show ?thesis by (auto simp: earliest_pinned_def Let_def)
  qed
  have cons: "earliest_pinned (t # ts) = (if t = 0 then earliest_pinned ts else if earliest_pinned ts = 0 then t else min t (earliest_pinned ts))"
  proof (cases "filter (\<lambda>t. t \<noteq> 0) ts = []")
    case False
    then have "Min (insert t (set (filter (\<lambda>t. t \<noteq> 0) ts))) = min t (Min (set (filter (\<lambda>t. t \<noteq> 0) ts)))"
      by (intro Min_insert) (simp_all only: List.finite_set set_empty not_False_eq_True)
    with False ne show ?thesis
      unfolding earliest_pinned_def Let_def by (simp only: filter.simps list.set list.distinct if_False split: if_split) simp
  next
    case True
    with ne show ?thesis
      unfolding earliest_pinned_def Let_def by (simp only: filter.simps list.set list.distinct if_False if_True Min_singleton split: if_split) simp
  qed
  show ?case
    unfolding foldl.simps Cons cons by (auto simp: track_earliest_def is_zero_time_def min_def)
qed (simp add: earliest_pinned_def)

lemma cnpg_before_zero: "cnpg_backup_before w s tr = (Inr c, s', tr') \<Longrightarrow> c = 0"
  by (auto simp: cnpg_backup_before_def prog_simps split: sum.splits prod.splits if_splits)

lemma files_before_pin:
  "files_backup_before w s tr = (Inr c, s', tr') \<Longrightarrow> \<exists>p. fb_clone s' = Some p \<and> c = om_created (pvc_meta p)"
  by (auto simp: files_backup_before_def prog_simps split: sum.splits prod.splits if_splits)

lemma group_before_pin:
  "files_group_backup_before f w s tr = (Inr c, s', tr') \<Longrightarrow> \<exists>res. gb_result s' = Some res \<and> c = group_instant (cgr_group res)"
  by (auto simp: files_group_backup_before_def prog_simps split: sum.splits prod.splits if_splits)

lemma pre_step_pins:
  "pre_step (action_ops f) n c w a tr = (Inr c', a', tr') \<Longrightarrow> c' = track_earliest c (pinned_instant a')"
  by (cases a) (auto simp: pre_step_def prog_simps inside_def cnpg_backup_ops_def cnpg_restore_ops_def files_backup_ops_def
      files_restore_ops_def files_group_backup_ops_def files_group_restore_ops_def s3_sync_ops_def track_earliest_def is_zero_time_def
      split: sum.splits prod.splits dest!: cnpg_before_zero files_before_pin group_before_pin)

lemma pre_steps_pin:
  "for_actions (pre_step (action_ops f)) c w xs tr = (Inr c', xs', tr') \<Longrightarrow>
     c' = foldl track_earliest c (map (\<lambda>(_, a). pinned_instant a) xs')"
proof (induction xs arbitrary: c tr xs')
  case (Cons nx xs)
  obtain n x where nx: "nx = (n, x)" by (cases nx)
  with Cons.prems obtain c1 x1 tr1 xs1 where one: "pre_step (action_ops f) n c w x tr = (Inr c1, x1, tr1)"
    and rest: "for_actions (pre_step (action_ops f)) c1 w xs tr1 = (Inr c', xs1, tr')" "xs' = (n, x1) # xs1"
    by (auto split: prod.splits sum.splits)
  from Cons.IH [OF rest(1)] pre_step_pins [OF one] rest(2) show ?case by simp
qed simp

lemma hand_point_action:
  "pinned_instant (hand_point (action_ops f) c a) = pinned_instant a"
  "action_point (hand_point (action_ops f) c a) \<in> {None, Some c}"
  by (cases a; simp add: hand_point_def cnpg_backup_ops_def cnpg_restore_ops_def files_backup_ops_def files_restore_ops_def
      files_group_backup_ops_def files_group_restore_ops_def s3_sync_ops_def cnpg_backup_set_point_def s3_sync_set_point_def)+

lemma mount_members_keeps: "mount_members base ps vs w s tr = (r, s', tr') \<Longrightarrow> gb_result s' = gb_result s"
  by (induction base ps vs arbitrary: s tr rule: mount_members.induct) (auto simp: prog_simps Let_def)

lemma clone_cluster_state: "clone_cluster_from_backup ns e n b opts w s tr = (r, s', tr') \<Longrightarrow> s' = s"
  by (auto simp: clone_cluster_from_backup_def prog_simps split: prod.splits if_splits)

lemma neutral_state: "neutral w m \<Longrightarrow> m w s tr = (Inr x, s', tr') \<Longrightarrow> s' = s"
  using owns_ok [OF neutralD [where d = Exactly and I = "\<lambda>y. y = s" and P = "\<lambda>_. {#}"], of w m s tr x s' tr' "outstanding tr"]
  by simp

lemma cnpg_setup_keeps:
  assumes w: "world_ok w" and run: "cnpg_backup_setup o1 w s tr = (Inr o2, s', tr')"
  shows "cb_point s' = cb_point s"
proof -
  let ?inst = "\<lambda>s2 clone. (set_backup_mounts (s2\<lparr>cb_clone := Some clone\<rparr>))\<lparr>cb_setup := True\<rparr>"
  from run have "\<exists>u s1 tr1. force_source_wal_archive (cb_ns s) (cb_cluster_name s) w s tr = (Inr u, s1, tr1) \<and>
      (\<exists>b clone s2 tr2. clone_cluster_from_backup (cb_ns s) (cb_cluster_name s) (cloned_cluster_name (cb_uid s) (cb_cluster_name s)) b
         (recovery_clone_options s) w s1 tr1 = (Inr clone, s2, tr2) \<and> s' = ?inst s2 clone)"
    unfolding cnpg_backup_setup_def
    by (fastforce simp: prog_simps deref_def split: sum.splits prod.splits if_splits option.splits)
  then obtain u s1 tr1 clone s2 tr2 where f: "force_source_wal_archive (cb_ns s) (cb_cluster_name s) w s tr = (Inr u, s1, tr1)"
    and c: "\<exists>b. clone_cluster_from_backup (cb_ns s) (cb_cluster_name s) (cloned_cluster_name (cb_uid s) (cb_cluster_name s)) b
       (recovery_clone_options s) w s1 tr1 = (Inr clone, s2, tr2)"
    and s': "s' = ?inst s2 clone" by blast
  have "s1 = s" by (rule neutral_state [OF neutral_force_source_wal_archive [OF w] f])
  moreover have "s2 = s1" using c by (elim exE) (rule clone_cluster_state)
  ultimately show ?thesis using s' by (simp add: set_backup_mounts_def Let_def)
qed

lemma setup_keeps:
  "files_backup_setup o1 w y tr = (Inr o2, y', tr') \<Longrightarrow> fb_clone y' = fb_clone y"
  "s3_sync_setup o1 w v tr = (Inr o2, v', tr') \<Longrightarrow> sy_point v' = sy_point v"
  by (auto simp: files_backup_setup_def s3_sync_setup_def prog_simps deref_def Let_def split: sum.splits prod.splits if_splits option.splits)

lemma group_setup_keeps: "files_group_backup_setup o1 w z tr = (Inr o2, z', tr') \<Longrightarrow> gb_result z' = gb_result z"
  by (auto simp: files_group_backup_setup_def prog_simps deref_def Let_def split: sum.splits prod.splits if_splits option.splits
      dest!: mount_members_keeps)

lemma setup_step_keeps:
  "world_ok w \<Longrightarrow> setup_step (action_ops f) n o1 w a tr = (Inr o2, a', tr') \<Longrightarrow> pinned_instant a' = pinned_instant a \<and> action_point a' = action_point a"
  by (cases a) (auto simp: setup_step_def prog_simps inside_def cnpg_backup_ops_def cnpg_restore_ops_def files_backup_ops_def
      files_restore_ops_def files_group_backup_ops_def files_group_restore_ops_def s3_sync_ops_def setup_keeps group_setup_keeps cnpg_setup_keeps
      split: sum.splits prod.splits)

lemma setup_steps_keep:
  "world_ok w \<Longrightarrow> for_actions (setup_step (action_ops f)) o1 w xs tr = (Inr o2, xs', tr') \<Longrightarrow>
     map (\<lambda>(_, a). (pinned_instant a, action_point a)) xs' = map (\<lambda>(_, a). (pinned_instant a, action_point a)) xs"
proof (induction xs arbitrary: o1 tr xs')
  case (Cons nx xs)
  obtain n x where nx: "nx = (n, x)" by (cases nx)
  with Cons.prems(2) obtain c1 x1 tr1 xs1 where one: "setup_step (action_ops f) n o1 w x tr = (Inr c1, x1, tr1)"
    and rest: "for_actions (setup_step (action_ops f)) c1 w xs tr1 = (Inr o2, xs1, tr')" "xs' = (n, x1) # xs1"
    by (auto split: prod.splits sum.splits)
  from Cons.IH [OF Cons.prems(1) rest(1)] setup_step_keeps [OF Cons.prems(1) one] rest(2) nx show ?case by simp
qed simp

text \<open>C2: once a stage is set up, every capture that aligns to the consistency point has one and the same point:
  the earliest instant at which another capture is frozen, or, when none is, the clock after all pre-steps.\<close>
theorem consistency_point_earliest:
  assumes w: "world_ok w" and run: "stage_setup (action_ops f) event_name cleanup w xs tr = (Inr opts, xs', tr')"
  shows "\<exists>point. (let earliest = earliest_pinned (map (\<lambda>(_, a). pinned_instant a) xs') in
       if earliest \<noteq> 0 then point = earliest
       else \<exists>xs1 tr1. for_actions (pre_step (action_ops f)) 0 w xs tr = (Inr 0, xs1, tr1) \<and> point = w_now w tr1) \<and>
     list_all (\<lambda>(_, a). action_point a \<in> {None, Some point}) xs'"
proof -
  from run obtain c xs1 tr1 point tr2 where
    pre: "for_actions (pre_step (action_ops f)) 0 w xs tr = (Inr c, xs1, tr1)"
    and point: "point = (if c = 0 then w_now w tr1 else c)"
    and su: "for_actions (setup_step (action_ops f)) (initial_bt_options event_name cleanup) w (hand_points (action_ops f) point xs1) tr2 = (Inr opts, xs', tr')"
    unfolding stage_setup_def
    by (auto simp: prog_simps is_zero_time_def split: sum.splits prod.splits if_splits)
  let ?ys = "hand_points (action_ops f) point xs1"
  have ys: "map (\<lambda>(_, a). pinned_instant a) ?ys = map (\<lambda>(_, a). pinned_instant a) xs1"
    "list_all (\<lambda>(_, a). action_point a \<in> {None, Some point}) ?ys"
    by (simp_all add: hand_points_def comp_def split_def hand_point_action list.pred_map list_all_iff del: insert_iff)
  note keep = setup_steps_keep [OF w su]
  have pins: "map (\<lambda>(_, a). pinned_instant a) xs' = map (\<lambda>(_, a). pinned_instant a) xs1"
    using arg_cong [OF keep, of "map fst"] ys(1) by (simp add: comp_def split_def)
  have "map (\<lambda>(_, a). action_point a) xs' = map (\<lambda>(_, a). action_point a) ?ys"
    using arg_cong [OF keep, of "map snd"] by (simp add: comp_def split_def)
  then have "list_all (\<lambda>p. p \<in> {None, Some point}) (map (\<lambda>(_, a). action_point a) xs')"
    using ys(2) by (simp add: list.pred_map comp_def split_def)
  then have all: "list_all (\<lambda>(_, a). action_point a \<in> {None, Some point}) xs'"
    by (simp add: list.pred_map comp_def split_def)
  have c: "c = earliest_pinned (map (\<lambda>(_, a). pinned_instant a) xs')"
    using pre_steps_pin [OF pre] unfolding foldl_track_earliest pins by simp
  show ?thesis
    by (rule exI [of _ point], rule conjI [OF _ all]) (use c point pre in \<open>auto simp: Let_def\<close>)
qed

definition sample_validated :: "(string \<times> action) list" where
  "sample_validated = fst (snd (stage_validate (action_ops (\<lambda>_. None)) sample_world sample_stage []))"

lemma sample_stage_set_up:
  "case stage_setup (action_ops (\<lambda>_. None)) ''app'' 0 sample_world sample_validated [] of (r, xs, tr) \<Rightarrow>
     \<not> isl r \<and> earliest_pinned (map (\<lambda>(_, a). pinned_instant a) xs) \<noteq> 0"
  by code_simp

theorem consistency_point_earliest_witness:
  "\<exists>opts xs' tr'. stage_setup (action_ops (\<lambda>_. None)) ''app'' 0 sample_world sample_validated [] = (Inr opts, xs', tr') \<and>
     list_all (\<lambda>(_, a). action_point a \<in> {None, Some (earliest_pinned (map (\<lambda>(_, a). pinned_instant a) xs'))}) xs'"
proof -
  obtain opts xs' tr' where run: "stage_setup (action_ops (\<lambda>_. None)) ''app'' 0 sample_world sample_validated [] = (Inr opts, xs', tr')"
    and pin: "earliest_pinned (map (\<lambda>(_, a). pinned_instant a) xs') \<noteq> 0"
    using sample_stage_set_up
    by (cases "fst (stage_setup (action_ops (\<lambda>_. None)) ''app'' 0 sample_world sample_validated [])")
      (auto split: prod.splits)
  from consistency_point_earliest [OF sample_world_ok run] pin run show ?thesis by (auto simp: Let_def)
qed

end
