(* ===== verification/Events.thy ===== *)
theory Events
  imports ConsistencyPoint
begin

text \<open>
  \<^verbatim>\<open>src/pkg/disasterrecovery\<close>: the disaster-recovery event (\<^verbatim>\<open>drevent.go\<close>), what the
  four applications' Backup and Restore have in common, and the ownership rules for them.
  An application returns its event beside the error, so its result is a pair and its program does not
  fail; log lines and stopwatches are not modelled.
\<close>

section \<open>drevent.go\<close>

record dr_event =
  ev_name :: string
  ev_start :: gotime
  ev_end :: gotime

definition new_dr_event_now :: "string \<Rightarrow> ('s, dr_event) prog" where
  "new_dr_event_now n = bnd time_now (\<lambda>t. ret \<lparr> ev_name = n, ev_start = t, ev_end = 0 \<rparr>)"

text \<open>strings.ReplaceAll of one character by another.\<close>
definition replace_char :: "char \<Rightarrow> char \<Rightarrow> string \<Rightarrow> string" where
  "replace_char old new = map (\<lambda>c. if c = old then new else c)"

definition get_full_name :: "dr_event \<Rightarrow> string" where
  "get_full_name ev = ev_name ev @ ''-'' @ replace_char CHR '':'' CHR ''.'' (rfc3339 (ev_start ev))"

definition stop_event :: "dr_event \<Rightarrow> ('s, dr_event) prog" where
  "stop_event ev = bnd time_now (\<lambda>t. ret (ev\<lparr>ev_end := t\<rparr>))"

definition has_completed :: "dr_event \<Rightarrow> bool" where
  "has_completed ev \<longleftrightarrow> \<not> is_zero_time (ev_end ev)"

text \<open>time.Time.Sub saturates at the bounds of a time.Duration.\<close>
definition time_sub :: "gotime \<Rightarrow> gotime \<Rightarrow> duration" where
  "time_sub t u = max (- (2 ^ 63)) (min (2 ^ 63 - 1) (t - u))"

definition calculate_runtime :: "dr_event \<Rightarrow> ('s, duration) prog" where
  "calculate_runtime ev =
     bnd (if has_completed ev then ret (ev_end ev) else time_now) (\<lambda>last. ret (time_sub last (ev_start ev)))"

section \<open>What the applications share\<close>

text \<open>
  The frame of Backup and Restore: the event starts now, the body runs, and the deferred function stops
  the event whatever the body returned.
\<close>
definition run_event :: "string \<Rightarrow> (dr_event \<Rightarrow> ('s, unit) prog) \<Rightarrow> ('s, dr_event option \<times> error) prog" where
  "run_event n body = bnd (new_dr_event_now n) (\<lambda>ev w s tr. case body ev w s tr of
      (r, s1, tr1) \<Rightarrow> bnd (stop_event ev) (\<lambda>ev'. ret (Some ev', err_of r)) w s1 tr1)"

text \<open>A new action, configured; the stage refers to it under a friendly name.\<close>
definition configured :: "('x \<Rightarrow> action) \<Rightarrow> 'x \<Rightarrow> ('x, unit) prog \<Rightarrow> ('s, action) prog" where
  "configured C new configure = with_local new (thn configure (bnd get_st (\<lambda>x. ret (C x))))"

definition with_action :: "string \<Rightarrow> string \<Rightarrow> ('s, action) prog \<Rightarrow> ('s, string \<times> action) prog" where
  "with_action tag friendly_name m = bnd (wrapping tag m) (\<lambda>a. ret (friendly_name, a))"

text \<open>\<^verbatim>\<open>if enabled { ... stage.WithAction(...) }\<close>\<close>
definition when_enabled :: "bool \<Rightarrow> ('s, string \<times> action) prog \<Rightarrow> ('s, (string \<times> action) list) prog" where
  "when_enabled enabled m = (if enabled then bnd m (\<lambda>a. ret [a]) else ret [])"

text \<open>A new stage with these actions, run.\<close>
definition run_stage :: "(label_selector \<Rightarrow> error) \<Rightarrow> string \<Rightarrow> string \<Rightarrow> duration \<Rightarrow> (string \<times> action) list \<Rightarrow> ('s, unit) prog" where
  "run_stage as_selector ns event_name cleanup actions =
     with_local actions (stage_run (action_ops as_selector) ns event_name cleanup)"

record options_backup_snapshot =
  obs_ready_timeout :: duration
  obs_class :: string

text \<open>The tail of every Backup: run the stage, then snapshot the DR volume under the event's full name.\<close>
definition capture_and_snapshot :: "(label_selector \<Rightarrow> error) \<Rightarrow> string \<Rightarrow> dr_event \<Rightarrow> dr_volume \<Rightarrow> duration
    \<Rightarrow> options_backup_snapshot \<Rightarrow> (string \<times> action) list \<Rightarrow> ('s, unit) prog" where
  "capture_and_snapshot as_selector ns ev drv cleanup snap actions =
     thn (wrapping ''run backup actions'' (run_stage as_selector ns (get_full_name ev) cleanup actions))
    (wrapping ''snapshot the backup volume''
       (snapshot_and_wait_ready drv (get_full_name ev) (obs_ready_timeout snap) (obs_class snap)))"

text \<open>Twice the storage request of the data volume.\<close>
definition data_volume_size :: "string \<Rightarrow> string \<Rightarrow> ('s, quantity) prog" where
  "data_volume_size ns n = bnd (wrapping ''get data PVC to size the DR volume'' (get_pvc ns n)) (\<lambda>p.
     case pvc_size p of None \<Rightarrow> fail (errorf ''data PVC has no storage request to size the DR volume from'')
     | Some q \<Rightarrow> ret (q * 2))"

section \<open>vaultwarden.go\<close>

definition vaultwarden_dr_vol_path :: string where "vaultwarden_dr_vol_path = ''data-vol''"
definition vaultwarden_sql_file_name :: string where "vaultwarden_sql_file_name = ''dump.sql''"

record backup_options =
  bo_size :: quantity
  bo_class :: string
  bo_cloning :: clone_cluster_options
  bo_snapshot :: options_backup_snapshot
  bo_cleanup :: duration

definition cnpg_options_of :: "('a) backup_options_scheme \<Rightarrow> cnpg_backup_options" where
  "cnpg_options_of opts = \<lparr> bao_cloning = bo_cloning opts, bao_cleanup = bo_cleanup opts \<rparr>"

definition vaultwarden_backup_actions :: "string \<Rightarrow> string \<Rightarrow> string \<Rightarrow> string \<Rightarrow> backup_options \<Rightarrow> ('s, (string \<times> action) list) prog" where
  "vaultwarden_backup_actions ns backup_name data_pvc cluster opts =
     bnd (with_action ''configure CNPG cluster backup'' ''Vaultwarden CNPG backup'' (configured CNPGBackup new_cnpg_backup
            (cnpg_backup_configure ns cluster backup_name vaultwarden_sql_file_name (cnpg_options_of opts)))) (\<lambda>db.
     bnd (with_action ''configure data directory backup'' ''Vaultwarden data directory backup'' (configured FilesBackup new_files_backup
            (files_backup_configure ns data_pvc backup_name vaultwarden_dr_vol_path
               \<lparr> fbo_class = [], fbo_filter = no_filter, fbo_cleanup = bo_cleanup opts \<rparr>))) (\<lambda>data.
     ret [db, data]))"

definition vaultwarden_backup :: "(label_selector \<Rightarrow> error) \<Rightarrow> string \<Rightarrow> string \<Rightarrow> string \<Rightarrow> string \<Rightarrow> backup_options
    \<Rightarrow> ('s, dr_event option \<times> error) prog" where
  "vaultwarden_backup as_selector ns backup_name data_pvc cluster opts = run_event backup_name (\<lambda>ev.
     bnd (if bo_size opts = 0 then data_volume_size ns data_pvc else ret (bo_size opts)) (\<lambda>sz.
     bnd (wrapping ''create the DR volume'' (new_dr_volume ns (ev_name ev) sz (bo_class opts) [cluster])) (\<lambda>drv.
     bnd (vaultwarden_backup_actions ns (ev_name ev) data_pvc cluster opts) (\<lambda>actions.
     capture_and_snapshot as_selector ns ev drv (bo_cleanup opts) (bo_snapshot opts) actions))))"

record restore_options =
  ro_cert :: user_cert_options
  ro_cleanup :: duration

definition cnpg_restore_options_of :: "('a) restore_options_scheme \<Rightarrow> cnpg_restore_options" where
  "cnpg_restore_options_of opts = \<lparr> rso_cert = ro_cert opts, rso_cleanup = ro_cleanup opts \<rparr>"

definition vaultwarden_restore_actions :: "string \<Rightarrow> string \<Rightarrow> string \<Rightarrow> string \<Rightarrow> string \<Rightarrow> issuer_ref \<Rightarrow> restore_options
    \<Rightarrow> ('s, (string \<times> action) list) prog" where
  "vaultwarden_restore_actions ns restore_name data_pvc cluster serving issuer opts =
     bnd (with_action ''configure CNPG cluster restoration'' ''Vaultwarden CNPG cluster restore'' (configured CNPGRestore new_cnpg_restore
            (cnpg_restore_configure ns cluster serving issuer restore_name vaultwarden_sql_file_name (cnpg_restore_options_of opts)))) (\<lambda>db.
     bnd (with_action ''configure data directory restoration'' ''Vaultwarden data directory restore'' (configured FilesRestore new_files_restore
            (files_restore_configure ns data_pvc restore_name vaultwarden_dr_vol_path))) (\<lambda>data.
     ret [db, data]))"

text \<open>The tail of every Restore.\<close>
definition run_restoration :: "(label_selector \<Rightarrow> error) \<Rightarrow> string \<Rightarrow> dr_event \<Rightarrow> duration \<Rightarrow> (string \<times> action) list \<Rightarrow> ('s, unit) prog" where
  "run_restoration as_selector ns ev cleanup actions =
     wrapping ''run restoration actions'' (run_stage as_selector ns (get_full_name ev) cleanup actions)"

definition vaultwarden_restore :: "(label_selector \<Rightarrow> error) \<Rightarrow> string \<Rightarrow> string \<Rightarrow> string \<Rightarrow> string \<Rightarrow> string \<Rightarrow> issuer_ref \<Rightarrow> restore_options
    \<Rightarrow> ('s, dr_event option \<times> error) prog" where
  "vaultwarden_restore as_selector ns restore_name data_pvc cluster serving issuer opts = run_event restore_name (\<lambda>ev.
     bnd (vaultwarden_restore_actions ns restore_name data_pvc cluster serving issuer opts)
       (run_restoration as_selector ns ev (ro_cleanup opts)))"

section \<open>authentik.go\<close>

definition authentik_sql_file_name :: string where "authentik_sql_file_name = ''dump.sql''"
definition authentik_media_directory_name :: string where "authentik_media_directory_name = ''media''"

definition authentik_backup_actions :: "string \<Rightarrow> string \<Rightarrow> string \<Rightarrow> string \<Rightarrow> s3_credentials \<Rightarrow> backup_options
    \<Rightarrow> ('s, (string \<times> action) list) prog" where
  "authentik_backup_actions ns backup_name cluster media creds opts =
     bnd (with_action ''configure CNPG cluster backup'' ''Authentik CNPG backup'' (configured CNPGBackup new_cnpg_backup
            (cnpg_backup_configure ns cluster backup_name authentik_sql_file_name (cnpg_options_of opts)))) (\<lambda>db.
     bnd (with_action ''configure media S3 backup'' ''Authentik media S3 sync'' (configured S3SyncAction new_s3_sync
            (s3_sync_configure ns backup_name authentik_media_directory_name media creds DirectionDownload))) (\<lambda>files.
     ret [db, files]))"

definition authentik_backup :: "(label_selector \<Rightarrow> error) \<Rightarrow> string \<Rightarrow> string \<Rightarrow> string \<Rightarrow> string \<Rightarrow> s3_credentials \<Rightarrow> backup_options
    \<Rightarrow> ('s, dr_event option \<times> error) prog" where
  "authentik_backup as_selector ns backup_name cluster media creds opts = run_event backup_name (\<lambda>ev.
     bnd (wrapping ''create the DR volume'' (new_dr_volume ns (ev_name ev) (bo_size opts) (bo_class opts) [cluster])) (\<lambda>drv.
     bnd (authentik_backup_actions ns backup_name cluster media creds opts) (\<lambda>actions.
     capture_and_snapshot as_selector ns ev drv (bo_cleanup opts) (bo_snapshot opts) actions)))"

definition authentik_restore_actions :: "string \<Rightarrow> string \<Rightarrow> string \<Rightarrow> string \<Rightarrow> issuer_ref \<Rightarrow> string \<Rightarrow> s3_credentials \<Rightarrow> restore_options
    \<Rightarrow> ('s, (string \<times> action) list) prog" where
  "authentik_restore_actions ns restore_name cluster serving issuer media creds opts =
     bnd (with_action ''configure CNPG cluster restoration'' ''Autnentik CNPG cluster restore'' (configured CNPGRestore new_cnpg_restore
            (cnpg_restore_configure ns cluster serving issuer restore_name authentik_sql_file_name (cnpg_restore_options_of opts)))) (\<lambda>db.
     bnd (with_action ''configure media S3 restoration'' ''Authentik media S3 sync'' (configured S3SyncAction new_s3_sync
            (s3_sync_configure ns restore_name authentik_media_directory_name media creds DirectionUpload))) (\<lambda>files.
     ret [db, files]))"

definition authentik_restore :: "(label_selector \<Rightarrow> error) \<Rightarrow> string \<Rightarrow> string \<Rightarrow> string \<Rightarrow> string \<Rightarrow> issuer_ref \<Rightarrow> string \<Rightarrow> s3_credentials
    \<Rightarrow> restore_options \<Rightarrow> ('s, dr_event option \<times> error) prog" where
  "authentik_restore as_selector ns restore_name cluster serving issuer media creds opts = run_event restore_name (\<lambda>ev.
     bnd (authentik_restore_actions ns restore_name cluster serving issuer media creds opts)
       (run_restoration as_selector ns ev (ro_cleanup opts)))"

section \<open>teleport.go\<close>

definition teleport_core_sql_file_name :: string where "teleport_core_sql_file_name = ''backup-core.sql''"
definition teleport_audit_sql_file_name :: string where "teleport_audit_sql_file_name = ''backup-audit.sql''"
definition teleport_audit_session_logs_directory_name :: string where
  "teleport_audit_session_logs_directory_name = ''audit-session-logs''"

record teleport_s3_sync =
  ts_enabled :: bool
  ts_path :: string
  ts_credentials :: s3_credentials

record teleport_audit =
  ta_enabled :: bool
  ta_name :: string

record teleport_backup_options = backup_options +
  tb_audit :: teleport_audit
  tb_session_logs :: teleport_s3_sync

definition teleport_backup_actions :: "string \<Rightarrow> string \<Rightarrow> string \<Rightarrow> teleport_backup_options \<Rightarrow> ('s, (string \<times> action) list) prog" where
  "teleport_backup_actions ns backup_name core opts =
     bnd (with_action ''configure core cluster backup'' ''Teleport core CNPG backup'' (configured CNPGBackup new_cnpg_backup
            (cnpg_backup_configure ns core backup_name teleport_core_sql_file_name (cnpg_options_of opts)))) (\<lambda>db.
     bnd (when_enabled (ta_enabled (tb_audit opts)) (with_action ''configure audit cluster backup'' ''Teleport audit CNPG backup''
            (configured CNPGBackup new_cnpg_backup (cnpg_backup_configure ns (ta_name (tb_audit opts)) backup_name
               teleport_audit_sql_file_name (cnpg_options_of opts))))) (\<lambda>audit.
     bnd (when_enabled (ts_enabled (tb_session_logs opts)) (with_action ''configure audit session logs backup''
            ''Teleport audit session logs S3 sync'' (configured S3SyncAction new_s3_sync (s3_sync_configure ns backup_name
               teleport_audit_session_logs_directory_name (ts_path (tb_session_logs opts))
               (ts_credentials (tb_session_logs opts)) DirectionDownload)))) (\<lambda>logs.
     ret (db # audit @ logs))))"

definition teleport_backup :: "(label_selector \<Rightarrow> error) \<Rightarrow> string \<Rightarrow> string \<Rightarrow> string \<Rightarrow> teleport_backup_options
    \<Rightarrow> ('s, dr_event option \<times> error) prog" where
  "teleport_backup as_selector ns backup_name core opts = run_event backup_name (\<lambda>ev.
     let clusters = [core] @ (if ta_enabled (tb_audit opts) then [ta_name (tb_audit opts)] else []) in
     bnd (wrapping ''create the DR volume'' (new_dr_volume ns (ev_name ev) (bo_size opts) (bo_class opts) clusters)) (\<lambda>drv.
     bnd (teleport_backup_actions ns backup_name core opts) (\<lambda>actions.
     capture_and_snapshot as_selector ns ev drv (bo_cleanup opts) (bo_snapshot opts) actions)))"

record teleport_restore_audit = teleport_audit +
  tra_serving :: string
  tra_issuer :: issuer_ref
  tra_cert :: user_cert_options

record teleport_restore_options = restore_options +
  tr_audit :: teleport_restore_audit
  tr_session_logs :: teleport_s3_sync

definition teleport_restore_actions :: "string \<Rightarrow> string \<Rightarrow> string \<Rightarrow> string \<Rightarrow> issuer_ref \<Rightarrow> teleport_restore_options
    \<Rightarrow> ('s, (string \<times> action) list) prog" where
  "teleport_restore_actions ns restore_name core serving issuer opts =
     (let audit = tr_audit opts; logs = tr_session_logs opts in
     bnd (with_action ''configure core cluster restoration'' ''Teleport core CNPG restore'' (configured CNPGRestore new_cnpg_restore
            (cnpg_restore_configure ns core serving issuer restore_name teleport_core_sql_file_name (cnpg_restore_options_of opts)))) (\<lambda>db.
     bnd (when_enabled (ta_enabled audit) (with_action ''configure audit cluster restoration'' ''Teleport audit CNPG restore''
            (configured CNPGRestore new_cnpg_restore (cnpg_restore_configure ns (ta_name audit) (tra_serving audit) (tra_issuer audit)
               restore_name teleport_audit_sql_file_name \<lparr> rso_cert = tra_cert audit, rso_cleanup = ro_cleanup opts \<rparr>)))) (\<lambda>audits.
     bnd (when_enabled (ts_enabled logs) (with_action ''configure audit session logs restoration''
            ''Teleport audit session logs S3 sync'' (configured S3SyncAction new_s3_sync (s3_sync_configure ns restore_name
               teleport_audit_session_logs_directory_name (ts_path logs) (ts_credentials logs) DirectionUpload)))) (\<lambda>syncs.
     ret (db # audits @ syncs)))))"

definition teleport_restore :: "(label_selector \<Rightarrow> error) \<Rightarrow> string \<Rightarrow> string \<Rightarrow> string \<Rightarrow> string \<Rightarrow> issuer_ref \<Rightarrow> teleport_restore_options
    \<Rightarrow> ('s, dr_event option \<times> error) prog" where
  "teleport_restore as_selector ns restore_name core serving issuer opts = run_event restore_name (\<lambda>ev.
     bnd (teleport_restore_actions ns restore_name core serving issuer opts)
       (run_restoration as_selector ns ev (ro_cleanup opts)))"

section \<open>What an application promises\<close>

text \<open>The live resource that an action reads or writes.\<close>
datatype live = Database string | Volume string | VolumeGroup label_selector | Bucket string

text \<open>Between which resource, and which file or directory of which DR volume, an action moves data.\<close>
fun action_route :: "action \<Rightarrow> string \<times> live \<times> string \<times> string" where
  "action_route (CNPGBackup x) = (cb_ns x, Database (cb_cluster_name x), cb_dr_volume x, cb_file x)"
| "action_route (CNPGRestore x) = (cr_ns x, Database (cr_cluster_name x), cr_dr_volume x, cr_file x)"
| "action_route (FilesBackup x) = (fb_ns x, Volume (fb_source x), fb_dr_volume x, fb_dir x)"
| "action_route (FilesRestore x) = (fr_ns x, Volume (fr_target x), fr_dr_volume x, fr_dir x)"
| "action_route (FilesGroupBackup x) =
     (gb_ns x, VolumeGroup (gb_selector x), gb_dr_volume x, path_join [file_groups_dir_name, gb_group x])"
| "action_route (FilesGroupRestore x) =
     (gr_ns x, VolumeGroup (gr_selector x), gr_dr_volume x, path_join [file_groups_dir_name, gr_group x])"
| "action_route (S3SyncAction x) = (sy_ns x, Bucket (sy_path x), sy_dr_volume x, sy_dir x)"

definition routes :: "(string \<times> action) list \<Rightarrow> (string \<times> live \<times> string \<times> string) list" where
  "routes actions = map (\<lambda>(_, a). action_route a) actions"

lemma routes_simps [simp]:
  "routes [] = []" "routes ((n, a) # xs) = action_route a # routes xs" "routes (xs @ ys) = routes xs @ routes ys"
  by (simp_all add: routes_def)

text \<open>A program that configures actions: it creates nothing, and what it returns is fresh.\<close>
definition configures :: "world \<Rightarrow> ('s, 'a) prog \<Rightarrow> ('a \<Rightarrow> bool) \<Rightarrow> bool" where
  "configures w m Q \<longleftrightarrow> (\<forall>s tr r s' tr'. m w s tr = (r, s', tr') \<longrightarrow>
     s' = s \<and> outstanding tr' = outstanding tr \<and> (\<forall>x. r = Inr x \<longrightarrow> Q x))"

named_theorems configures_intros "programs that configure actions"

lemma configuresI:
  "(\<And>s tr r s' tr'. m w s tr = (r, s', tr') \<Longrightarrow> s' = s \<and> outstanding tr' = outstanding tr \<and> (\<forall>x. r = Inr x \<longrightarrow> Q x)) \<Longrightarrow> configures w m Q"
  unfolding configures_def by blast

lemma configuresD:
  "configures w m Q \<Longrightarrow> m w s tr = (r, s', tr') \<Longrightarrow> s' = s \<and> outstanding tr' = outstanding tr \<and> (\<forall>x. r = Inr x \<longrightarrow> Q x)"
  unfolding configures_def by blast

lemma configures_bnd:
  assumes m: "configures w m R" and f: "\<And>x. R x \<Longrightarrow> configures w (f x) Q"
  shows "configures w (bnd m f) Q"
proof (rule configuresI)
  fix s tr r s' tr'
  assume "bnd m f w s tr = (r, s', tr')"
  then show "s' = s \<and> outstanding tr' = outstanding tr \<and> (\<forall>x. r = Inr x \<longrightarrow> Q x)"
  proof (cases rule: bndE)
    case (1 e)
    with configuresD [OF m 1(1)] show ?thesis by simp
  next
    case (2 x s1 tr1)
    with configuresD [OF m 2(1)] have "R x" "s1 = s" "outstanding tr1 = outstanding tr" by simp_all
    with configuresD [OF f 2(2)] show ?thesis by simp
  qed
qed

lemma configures_ret: "Q x \<Longrightarrow> configures w (ret x) Q"
  by (rule configuresI) auto

lemma configures_with_action:
  "configures w m action_early \<Longrightarrow> configures w (with_action tag n m) (\<lambda>(_, a). action_early a)"
  unfolding with_action_def
  by (rule configures_bnd [where R = action_early], rule configuresI, erule wrappingE; fastforce dest: configuresD intro: configures_ret)

lemma configures_when_enabled:
  "configures w m (\<lambda>(_, a). action_early a) \<Longrightarrow> configures w (when_enabled b m) (all_actions action_early)"
  unfolding when_enabled_def by (auto intro!: configures_bnd configures_ret)

text \<open>Configuring any of the seven actions.\<close>
lemma configures_actions:
  "configures w (configured CNPGBackup new_cnpg_backup (cnpg_backup_configure ns c v f bo)) action_early"
  "configures w (configured CNPGRestore new_cnpg_restore (cnpg_restore_configure ns c sv iss v f ro)) action_early"
  "configures w (configured FilesBackup new_files_backup (files_backup_configure ns src v f fo)) action_early"
  "configures w (configured FilesRestore new_files_restore (files_restore_configure ns src v f)) action_early"
  "configures w (configured FilesGroupBackup new_files_group_backup (files_group_backup_configure ns sel v f fo)) action_early"
  "configures w (configured FilesGroupRestore new_files_group_restore (files_group_restore_configure ns sel v f)) action_early"
  "configures w (configured S3SyncAction new_s3_sync (s3_sync_configure ns v f p cr dr)) action_early"
  by (rule configuresI; auto simp: configured_def prog_simps cnpg_backup_configure_def cnpg_restore_configure_def files_backup_configure_def
      files_restore_configure_def files_group_backup_configure_def files_group_restore_configure_def s3_sync_configure_def
      new_cnpg_backup_def new_cnpg_restore_def new_files_backup_def new_files_restore_def new_files_group_backup_def
      new_files_group_restore_def new_s3_sync_def cnpg_backup_early_def cnpg_restore_ready_def)+

text \<open>The routes of configured actions.\<close>
lemma configured_routes:
  "configured CNPGBackup new_cnpg_backup (cnpg_backup_configure ns c v f bo) w s tr = (Inr a1, s', tr') \<Longrightarrow>
     action_route a1 = (ns, Database c, v, f)"
  "configured CNPGRestore new_cnpg_restore (cnpg_restore_configure ns c sv iss v f ro) w s tr = (Inr a2, s', tr') \<Longrightarrow>
     action_route a2 = (ns, Database c, v, f)"
  "configured FilesBackup new_files_backup (files_backup_configure ns c v f fo) w s tr = (Inr a3, s', tr') \<Longrightarrow>
     action_route a3 = (ns, Volume c, v, f)"
  "configured FilesRestore new_files_restore (files_restore_configure ns c v f) w s tr = (Inr a4, s', tr') \<Longrightarrow>
     action_route a4 = (ns, Volume c, v, f)"
  "configured FilesGroupBackup new_files_group_backup (files_group_backup_configure ns sel v f fo) w s tr = (Inr a5, s', tr') \<Longrightarrow>
     action_route a5 = (ns, VolumeGroup sel, v, path_join [file_groups_dir_name, f])"
  "configured FilesGroupRestore new_files_group_restore (files_group_restore_configure ns sel v f) w s tr = (Inr a6, s', tr') \<Longrightarrow>
     action_route a6 = (ns, VolumeGroup sel, v, path_join [file_groups_dir_name, f])"
  "configured S3SyncAction new_s3_sync (s3_sync_configure ns v f p cr dr) w s tr = (Inr a7, s', tr') \<Longrightarrow>
     action_route a7 = (ns, Bucket p, v, f)"
  by (auto simp: configured_def prog_simps cnpg_backup_configure_def cnpg_restore_configure_def files_backup_configure_def
      files_restore_configure_def files_group_backup_configure_def files_group_restore_configure_def s3_sync_configure_def
      new_cnpg_backup_def new_cnpg_restore_def new_files_backup_def new_files_restore_def new_files_group_backup_def
      new_files_group_restore_def new_s3_sync_def)

section \<open>What an event leaves behind\<close>

lemma run_event_run:
  assumes "run_event n body w s tr = (r, s', tr')"
  obtains ev ev' rb tr0 tr1 where "body ev w s tr0 = (rb, s', tr1)" "r = Inr (Some ev', err_of rb)" "ev_name ev = n"
    "ev' = ev\<lparr>ev_end := w_now w tr1\<rparr>" "outstanding tr0 = outstanding tr" "outstanding tr' = outstanding tr1"
  using assms by (auto simp: run_event_def new_dr_event_now_def stop_event_def prog_simps split: prod.splits)

lemma run_stage_leaves_nothing:
  assumes "usable w" "all_actions action_early actions" "run_stage as_selector ns n cleanup actions w s tr = (r, s', tr')"
  shows "s' = s" "outstanding tr' \<subseteq># outstanding tr"
  using assms(3) stage_action.stage_leaves_nothing [OF assms(1,2)]
  by (auto simp: run_stage_def elim!: with_localE)

lemma wrapped_stage_leaves_nothing:
  assumes w: "usable w" and early: "all_actions action_early actions"
    and run: "wrapping t (run_stage as_selector ns n cleanup actions) w s tr = (r, s', tr')"
  shows "outstanding tr' \<subseteq># outstanding tr"
  using run by (cases rule: wrappingE) (erule run_stage_leaves_nothing(2) [OF w early])+

lemma ensure_pvc_leaves:
  assumes w: "world_ok w" and n: "n \<noteq> []" and run: "ensure_pvc_exists ns n sz opts w s tr = (r, s', tr')"
    and opts: "\<not> cpo_generate opts"
  shows "s' = s \<and> outstanding tr' \<subseteq># outstanding tr + {#(KPVC, ns, n)#} \<and> (\<forall>p. r = Inr p \<longrightarrow> om_ns (pvc_meta p) = ns)"
proof (cases "k_get (w_pvc w) tr ns n")
  case (Inr p)
  with run world_ok_apis(1) [OF w] show ?thesis
    by (auto simp: ensure_pvc_exists_def get_pvc_def prog_simps api_ok_def)
next
  case (Inl e)
  have "om_ns (pvc_meta p) = ns \<and> om_name (pvc_meta p) = n" if "k_create (w_pvc w) tr1 ns req = Inr p" "om_name (pvc_meta req) = n" for tr1 req p
    using that n world_ok_apis(1) [OF w] unfolding api_ok_def by blast
  with run Inl opts show ?thesis
    by (simp add: ensure_pvc_exists_def get_pvc_def create_pvc_def prog_simps Let_def set_name_def outstanding_append split: sum.splits if_splits) (auto simp: outstanding_append)
qed

lemma lookup_size_leaves: "lookup_dr_volume_size ns cns w s tr = (r, s', tr') \<Longrightarrow> s' = s \<and> outstanding tr' = outstanding tr"
proof -
  have "lookup_clusters_size ns cns q w s tr = (r, s', tr') \<Longrightarrow> s' = s \<and> outstanding tr' = outstanding tr" for q r s' tr tr'
    by (induction cns arbitrary: q tr)
      (fastforce simp: lookup_cluster_size_def get_cluster_def prog_simps split: sum.splits prod.splits)+
  then show "lookup_dr_volume_size ns cns w s tr = (r, s', tr') \<Longrightarrow> s' = s \<and> outstanding tr' = outstanding tr"
    by (auto simp: lookup_dr_volume_size_def prog_simps split: sum.splits prod.splits if_splits)
qed

lemma new_dr_volume_leaves:
  assumes w: "world_ok w" and n: "n \<noteq> []" and run: "new_dr_volume ns n sz class cns w s tr = (r, s', tr')"
  shows "s' = s \<and> outstanding tr' \<subseteq># outstanding tr + {#(KPVC, ns, n)#} \<and>
    (\<forall>drv. r = Inr drv \<longrightarrow> (\<exists>p. drv_pvc drv = Some p \<and> om_ns (pvc_meta p) = ns))"
  using run unfolding new_dr_volume_def
  by (auto simp: prog_simps split: sum.splits prod.splits if_splits
      dest!: lookup_size_leaves ensure_pvc_leaves [OF w n])

lemma snapshot_and_wait_leaves:
  assumes w: "world_ok w" and drv: "drv_pvc drv = Some p" "om_ns (pvc_meta p) = ns"
    and run: "snapshot_and_wait_ready drv n timeout class w s tr = (r, s', tr')"
  shows "\<exists>k. outstanding tr' \<subseteq># outstanding tr + {#(KSnapshot, ns, k)#}"
proof -
  have step: "owns AtMost w (\<lambda>_. True) (\<lambda>_. {#}) (wrapping t1 (snapshot_volume ns (om_name (pvc_meta p)) (clean_name n) class))
      (\<lambda>_. {#}) (\<lambda>sn _. {#(KSnapshot, ns, om_name (sn_meta sn))#}) (\<lambda>_ _. True)" for t1
    by (rule owns_wrapping, rule owns_weaken, rule owns_snapshot_volume [OF w]) simp
  have "\<exists>k. within AtMost (outstanding tr') (outstanding tr + {#(KSnapshot, ns, k)#})"
    using run unfolding snapshot_and_wait_ready_def drv option.case
  proof (cases rule: bndE)
    case (1 e)
    with owns_err [OF step 1(1)] show ?thesis by simp
  next
    case (2 sn s1 tr1)
    have o1: "within AtMost (outstanding tr1) (outstanding tr + {#(KSnapshot, ns, om_name (sn_meta sn))#})"
      using owns_ok [OF step 2(1)] by simp
    have wait: "owns AtMost w (\<lambda>_. True) (\<lambda>_. M) (bnd (wrapping t2 (wait_for_ready_snapshot ns (om_name (sn_meta sn)) timeout)) (\<lambda>_. ret ()))
      (\<lambda>_. M) (\<lambda>_ _. M) (\<lambda>_ _. True)" for M t2
      by (rule owns_bnd, rule owns_wrapping, rule owns_wait_ready_snapshot [OF w], rule owns_ret, simp)
    from 2(2) owns_err [OF wait _ _ o1] owns_ok [OF wait _ _ o1] drv(2) show ?thesis by (cases r) fastforce+
  qed
  then show ?thesis by simp
qed

lemma capture_and_snapshot_leaves:
  assumes w: "usable w" and early: "all_actions action_early actions" and drv: "drv_pvc drv = Some p" "om_ns (pvc_meta p) = ns"
    and run: "capture_and_snapshot as_selector ns ev drv cleanup snap actions w s tr = (r, s', tr')"
  shows "\<exists>k. outstanding tr' \<subseteq># outstanding tr + {#(KSnapshot, ns, k)#}"
  using run unfolding capture_and_snapshot_def
proof (cases rule: thnE)
  case (1 e)
  from wrapped_stage_leaves_nothing [OF w early 1(1)] show ?thesis
    by (intro exI) (rule subset_mset.order_trans [OF _ mset_subset_eq_add_left])
next
  case (2 s1 tr1)
  note le = wrapped_stage_leaves_nothing [OF w early 2(1)]
  from 2(2) have "\<exists>k. outstanding tr' \<subseteq># outstanding tr1 + {#(KSnapshot, ns, k)#}"
    by (cases rule: wrappingE) (erule snapshot_and_wait_leaves [OF usableD(1) [OF w] drv])+
  then obtain k where "outstanding tr' \<subseteq># outstanding tr1 + {#(KSnapshot, ns, k)#}" by blast
  with le show ?thesis by (meson subset_mset.add_right_mono subset_mset.order_trans)
qed

lemma restoration_run_leaves:
  assumes w: "usable w" and fresh: "configures w m (all_actions action_early)"
    and run: "bnd m (run_restoration as_selector ns ev cleanup) w s tr = (r, s', tr')"
  shows "outstanding tr' \<subseteq># outstanding tr"
  using run
proof (cases rule: bndE)
  case (1 e)
  with configuresD [OF fresh 1(1)] show ?thesis by simp
next
  case (2 actions s1 tr1)
  with configuresD [OF fresh 2(1)] have "all_actions action_early actions" "outstanding tr1 = outstanding tr" by simp_all
  with wrapped_stage_leaves_nothing [OF w _ 2(2) [unfolded run_restoration_def]] show ?thesis by simp
qed

section \<open>The contract of an application\<close>

text \<open>
  An application configures the actions of a backup and of a restore.  Configuring creates nothing and
  yields fresh actions, and the restore moves data along the same routes as the backup.
\<close>
locale application =
  fixes backup_actions :: "('s, (string \<times> action) list) prog"
    and restore_actions :: "('t, (string \<times> action) list) prog"
  assumes backup_configures: "configures w backup_actions (all_actions action_early)"
    and restore_configures: "configures w restore_actions (all_actions action_early)"
    and same_routes: "backup_actions w s tr = (Inr bs, s1, tr1) \<Longrightarrow> restore_actions w' s' tr' = (Inr rs, s1', tr1')
      \<Longrightarrow> routes rs = routes bs"
begin

lemma backup_leaves:
  assumes w: "usable w" and n: "n \<noteq> []"
    and run: "bnd (wrapping t (new_dr_volume ns n sz class cns)) (\<lambda>drv. bnd backup_actions
       (capture_and_snapshot as_selector ns ev drv cleanup snap)) w s tr = (r, s', tr')"
  shows "\<exists>k. outstanding tr' \<subseteq># outstanding tr + {#(KPVC, ns, n), (KSnapshot, ns, k)#}"
proof -
  have "\<exists>tr1. outstanding tr1 \<subseteq># outstanding tr + {#(KPVC, ns, n)#} \<and> (\<exists>k. outstanding tr' \<subseteq># outstanding tr1 + {#(KSnapshot, ns, k)#})"
    using run
  proof (cases rule: bndE)
    case (1 e)
    with new_dr_volume_leaves [OF usableD(1) [OF w] n] show ?thesis by (elim wrappingE) fastforce+
  next
    case (2 drv s1 tr1)
    from 2(1) have "new_dr_volume ns n sz class cns w s tr = (Inr drv, s1, tr1)" by (cases rule: wrappingE) auto
    note vol = new_dr_volume_leaves [OF usableD(1) [OF w] n this]
    then obtain p where p: "drv_pvc drv = Some p" "om_ns (pvc_meta p) = ns" by blast
    have "\<exists>k. outstanding tr' \<subseteq># outstanding tr1 + {#(KSnapshot, ns, k)#}"
      using 2(2)
    proof (cases rule: bndE)
      case (1 e)
      with configuresD [OF backup_configures 1(1)] show ?thesis by simp
    next
      case (2 actions s2 tr2)
      with configuresD [OF backup_configures 2(1)] have "all_actions action_early actions" "outstanding tr2 = outstanding tr1" by simp_all
      with capture_and_snapshot_leaves [OF w _ p 2(2)] show ?thesis by simp
    qed
    with vol show ?thesis by blast
  qed
  then obtain tr1 k where vol: "outstanding tr1 \<subseteq># outstanding tr + {#(KPVC, ns, n)#}"
    and k: "outstanding tr' \<subseteq># outstanding tr1 + {#(KSnapshot, ns, k)#}" by blast
  from subset_mset.order_trans [OF k subset_mset.add_right_mono [OF vol]]
  show ?thesis by (intro exI [of _ k]) (simp add: add_mset_commute)
qed

lemma restore_leaves:
  "usable w \<Longrightarrow> bnd restore_actions (run_restoration as_selector ns ev cleanup) w s tr = (r, s', tr') \<Longrightarrow> outstanding tr' \<subseteq># outstanding tr"
  by (rule restoration_run_leaves [OF _ restore_configures])

end

section \<open>The three hand-written applications\<close>

lemma with_actionE:
  assumes "with_action tag n m w s tr = (Inr x, s', tr')"
  obtains a where "x = (n, a)" "m w s tr = (Inr a, s', tr')"
  using assms by (auto simp: with_action_def prog_simps split: prod.splits sum.splits)

lemma bnd_okE:
  assumes "bnd m f w s tr = (Inr y, s', tr')"
  obtains x s1 tr1 where "m w s tr = (Inr x, s1, tr1)" "f x w s1 tr1 = (Inr y, s', tr')"
  using assms by (auto simp: prog_simps split: prod.splits sum.splits)

lemma all_actions_append [simp]: "all_actions I (xs @ ys) \<longleftrightarrow> all_actions I xs \<and> all_actions I ys"
  by (auto simp: all_actions_def)

lemma configures_pair:
  assumes "configures w m1 action_early" "configures w m2 action_early"
  shows "configures w (bnd (with_action t1 n1 m1) (\<lambda>a. bnd (with_action t2 n2 m2) (\<lambda>b. ret [a, b]))) (all_actions action_early)"
  by (rule configures_bnd [OF configures_with_action [OF assms(1)]], rule configures_bnd [OF configures_with_action [OF assms(2)]],
      rule configures_ret) auto

text \<open>The routes of a pair of actions.\<close>
lemma pair_routes:
  assumes "bnd (with_action t1 n1 m1) (\<lambda>a. bnd (with_action t2 n2 m2) (\<lambda>b. ret [a, b])) w s tr = (Inr xs, s', tr')"
  obtains a b s1 tr1 where "m1 w s tr = (Inr a, s1, tr1)" "m2 w s1 tr1 = (Inr b, s', tr')" "routes xs = [action_route a, action_route b]"
  using assms by (elim bnd_okE with_actionE) auto

interpretation vaultwarden: application "vaultwarden_backup_actions ns n data cluster bopts"
    "vaultwarden_restore_actions ns n data cluster serving issuer ropts" for ns n data cluster bopts serving issuer ropts
proof (unfold_locales, goal_cases)
  case 1 show ?case unfolding vaultwarden_backup_actions_def by (rule configures_pair configures_actions)+
next
  case 2 show ?case unfolding vaultwarden_restore_actions_def by (rule configures_pair configures_actions)+
next
  case 3
  then show ?case
    unfolding vaultwarden_backup_actions_def vaultwarden_restore_actions_def
    by (elim pair_routes) (simp add: configured_routes)
qed

interpretation authentik: application "authentik_backup_actions ns n cluster media bcreds bopts"
    "authentik_restore_actions ns n cluster serving issuer media rcreds ropts" for ns n cluster media bcreds bopts serving issuer rcreds ropts
proof (unfold_locales, goal_cases)
  case 1 show ?case unfolding authentik_backup_actions_def by (rule configures_pair configures_actions)+
next
  case 2 show ?case unfolding authentik_restore_actions_def by (rule configures_pair configures_actions)+
next
  case 3
  then show ?case
    unfolding authentik_backup_actions_def authentik_restore_actions_def
    by (elim pair_routes) (simp add: configured_routes)
qed

text \<open>Restore options that name the same optional parts as a backup.\<close>
definition matching_restore :: "teleport_backup_options \<Rightarrow> teleport_restore_options \<Rightarrow> teleport_restore_options" where
  "matching_restore bopts ropts = ropts\<lparr>
     tr_audit := (tr_audit ropts)\<lparr>ta_enabled := ta_enabled (tb_audit bopts), ta_name := ta_name (tb_audit bopts)\<rparr>,
     tr_session_logs := (tr_session_logs ropts)\<lparr>ts_enabled := ts_enabled (tb_session_logs bopts), ts_path := ts_path (tb_session_logs bopts)\<rparr>\<rparr>"

lemma configures_triple:
  assumes "configures w m1 action_early" "configures w m2 action_early" "configures w m3 action_early"
  shows "configures w (bnd (with_action t1 n1 m1) (\<lambda>a. bnd (when_enabled b2 (with_action t2 n2 m2)) (\<lambda>b.
     bnd (when_enabled b3 (with_action t3 n3 m3)) (\<lambda>c. ret (a # b @ c))))) (all_actions action_early)"
  by (rule configures_bnd [OF configures_with_action [OF assms(1)]],
      rule configures_bnd [OF configures_when_enabled [OF configures_with_action [OF assms(2)]]],
      rule configures_bnd [OF configures_when_enabled [OF configures_with_action [OF assms(3)]]], rule configures_ret) auto

lemma when_enabledE:
  assumes "when_enabled b (with_action tag n m) w s tr = (Inr xs, s', tr')"
  obtains "\<not> b" "routes xs = []" | a where "b" "m w s tr = (Inr a, s', tr')" "routes xs = [action_route a]"
  using assms unfolding when_enabled_def by (cases b) (auto elim!: bnd_okE with_actionE)

interpretation teleport: application "teleport_backup_actions ns n core bopts"
    "teleport_restore_actions ns n core serving issuer (matching_restore bopts ropts)" for ns n core bopts serving issuer ropts
proof (unfold_locales, goal_cases)
  case 1 show ?case unfolding teleport_backup_actions_def by (rule configures_triple configures_actions)+
next
  case 2 show ?case unfolding teleport_restore_actions_def Let_def by (rule configures_triple configures_actions)+
next
  case 3
  then show ?case
    unfolding teleport_backup_actions_def teleport_restore_actions_def Let_def
    by (elim bnd_okE with_actionE when_enabledE) (auto simp: configured_routes matching_restore_def)
qed

lemma data_volume_size_leaves: "data_volume_size ns n w s tr = (r, s', tr') \<Longrightarrow> s' = s \<and> outstanding tr' = outstanding tr"
  by (auto simp: data_volume_size_def get_pvc_def prog_simps split: sum.splits option.splits)

lemma event_leaves:
  assumes "run_event n body w s tr = (r, s', tr')"
    and "\<And>ev rb tr0 tr1. ev_name ev = n \<Longrightarrow> body ev w s tr0 = (rb, s', tr1) \<Longrightarrow> \<exists>k. outstanding tr1 \<subseteq># outstanding tr0 + X k"
  shows "\<exists>k. outstanding tr' \<subseteq># outstanding tr + X k"
  using assms(1) by (cases rule: run_event_run) (use assms(2) in metis)

text \<open>Whatever happens in a backup of Vaultwarden, what it leaves in the cluster is at most the DR volume and one
  snapshot of it.\<close>
lemma vaultwarden_backup_leaves:
  assumes w: "usable w" and n: "n \<noteq> []"
    and run: "vaultwarden_backup as_selector ns n data cluster opts w s tr = (r, s', tr')"
  shows "\<exists>k. outstanding tr' \<subseteq># outstanding tr + {#(KPVC, ns, n), (KSnapshot, ns, k)#}"
  using run unfolding vaultwarden_backup_def
proof (rule event_leaves)
  fix ev rb tr0 tr1
  let ?rest = "\<lambda>sz. bnd (wrapping ''create the DR volume'' (new_dr_volume ns n sz (bo_class opts) [cluster])) (\<lambda>drv.
     bnd (vaultwarden_backup_actions ns n data cluster opts)
       (capture_and_snapshot as_selector ns ev drv (bo_cleanup opts) (bo_snapshot opts)))"
  assume ev: "ev_name ev = n"
  assume "bnd (if bo_size opts = 0 then data_volume_size ns data else ret (bo_size opts)) (\<lambda>sz.
     bnd (wrapping ''create the DR volume'' (new_dr_volume ns (ev_name ev) sz (bo_class opts) [cluster])) (\<lambda>drv.
     bnd (vaultwarden_backup_actions ns (ev_name ev) data cluster opts)
       (capture_and_snapshot as_selector ns ev drv (bo_cleanup opts) (bo_snapshot opts)))) w s tr0 = (rb, s', tr1)"
  then have "bnd (if bo_size opts = 0 then data_volume_size ns data else ret (bo_size opts)) ?rest w s tr0 = (rb, s', tr1)"
    by (simp only: ev)
  then show "\<exists>k. outstanding tr1 \<subseteq># outstanding tr0 + {#(KPVC, ns, n), (KSnapshot, ns, k)#}"
  proof (cases rule: bndE)
    case (1 e)
    then have "outstanding tr1 = outstanding tr0" by (auto dest: data_volume_size_leaves split: if_splits)
    then show ?thesis by simp
  next
    case (2 sz s2 tr2)
    then have "outstanding tr2 = outstanding tr0" by (auto dest: data_volume_size_leaves split: if_splits)
    with vaultwarden.backup_leaves [OF w n 2(2)] show ?thesis by simp
  qed
qed

text \<open>The same for the other two; their DR volume is sized from the databases.\<close>
lemma authentik_backup_leaves:
  assumes w: "usable w" and n: "n \<noteq> []"
    and run: "authentik_backup as_selector ns n cluster media creds opts w s tr = (r, s', tr')"
  shows "\<exists>k. outstanding tr' \<subseteq># outstanding tr + {#(KPVC, ns, n), (KSnapshot, ns, k)#}"
  using run unfolding authentik_backup_def
  by (rule event_leaves) (simp only:, erule authentik.backup_leaves [OF w n])

lemma teleport_backup_leaves:
  assumes w: "usable w" and n: "n \<noteq> []"
    and run: "teleport_backup as_selector ns n core opts w s tr = (r, s', tr')"
  shows "\<exists>k. outstanding tr' \<subseteq># outstanding tr + {#(KPVC, ns, n), (KSnapshot, ns, k)#}"
  using run unfolding teleport_backup_def Let_def
  by (rule event_leaves) (simp only:, erule teleport.backup_leaves [OF w n])

lemma restoration_leaves:
  assumes "run_event n body w s tr = (r, s', tr')"
    and "\<And>ev rb tr0 tr1. body ev w s tr0 = (rb, s', tr1) \<Longrightarrow> outstanding tr1 \<subseteq># outstanding tr0"
  shows "outstanding tr' \<subseteq># outstanding tr"
  using assms(1) by (cases rule: run_event_run) (use assms(2) in metis)

lemma vaultwarden_restore_leaves:
  assumes w: "usable w" and run: "vaultwarden_restore as_selector ns n data cluster serving issuer opts w s tr = (r, s', tr')"
  shows "outstanding tr' \<subseteq># outstanding tr"
  using run unfolding vaultwarden_restore_def by (rule restoration_leaves) (erule vaultwarden.restore_leaves [OF w])

lemma authentik_restore_leaves:
  assumes w: "usable w" and run: "authentik_restore as_selector ns n cluster serving issuer media creds opts w s tr = (r, s', tr')"
  shows "outstanding tr' \<subseteq># outstanding tr"
  using run unfolding authentik_restore_def by (rule restoration_leaves) (erule authentik.restore_leaves [OF w])

lemma matching_restore_same:
  "ta_enabled (tr_audit ropts) = ta_enabled (tb_audit bopts) \<Longrightarrow> ta_name (tr_audit ropts) = ta_name (tb_audit bopts) \<Longrightarrow>
   ts_enabled (tr_session_logs ropts) = ts_enabled (tb_session_logs bopts) \<Longrightarrow>
   ts_path (tr_session_logs ropts) = ts_path (tb_session_logs bopts) \<Longrightarrow> matching_restore bopts ropts = ropts"
  by (simp add: matching_restore_def)


section \<open>The applications in the sample world\<close>

definition sample_backup_options :: backup_options where
  "sample_backup_options = \<lparr> bo_size = 0, bo_class = [], bo_cloning = bao_cloning no_cnpg_backup_options,
     bo_snapshot = \<lparr> obs_ready_timeout = 0, obs_class = [] \<rparr>, bo_cleanup = 0 \<rparr>"

definition sample_teleport_backup :: teleport_backup_options where
  "sample_teleport_backup = backup_options.extend sample_backup_options \<lparr> tb_audit = \<lparr> ta_enabled = True, ta_name = ''audit'' \<rparr>,
     tb_session_logs = \<lparr> ts_enabled = True, ts_path = ''s3://logs'', ts_credentials = new_credentials ''id'' ''key'' \<rparr> \<rparr>"

definition sample_teleport_restore :: teleport_restore_options where
  "sample_teleport_restore = \<lparr> ro_cert = \<lparr> uco_crp_timeout = 0, uco_cert_timeout = 0 \<rparr>, ro_cleanup = 0,
     tr_audit = \<lparr> ta_enabled = True, ta_name = ''audit'', tra_serving = ''audit-cert'',
       tra_issuer = \<lparr> ir_name = ''ca'', ir_kind = [], ir_group = [] \<rparr>, tra_cert = \<lparr> uco_crp_timeout = 0, uco_cert_timeout = 0 \<rparr> \<rparr>,
     tr_session_logs = \<lparr> ts_enabled = True, ts_path = ''s3://logs'', ts_credentials = new_credentials ''id2'' ''key2'' \<rparr> \<rparr>"


end
