(* ===== verification/Generic.thy ===== *)
theory Generic
  imports Events
begin

text \<open>
  \<^verbatim>\<open>src/pkg/disasterrecovery/generic.go\<close>: the declarative application.  Its configuration
  is a record of source lists; Validate, Backup and Restore are translated in the code's order.
  The properties are what a valid configuration promises about the layout of the DR volume, that a
  restore reads what the backup wrote, and what a backup leaves in the cluster.
\<close>

section \<open>The configuration\<close>

record generic_files_source =
  gfs_name :: string
  gfs_pvc :: string

record generic_files_backup_source = generic_files_source +
  gfs_class :: string
  gfs_filter :: file_filter

record generic_file_group_source =
  ggs_name :: string
  ggs_selector :: label_selector

record generic_file_group_backup_source = generic_file_group_source +
  ggs_class :: string
  ggs_filter :: file_filter

record generic_s3_source =
  gss_name :: string
  gss_path :: string
  gss_credentials :: s3_credentials

record generic_postgres_backup_source =
  gpb_name :: string
  gpb_cluster :: string
  gpb_cloning :: clone_cluster_options

record generic_postgres_restore_source =
  gpr_name :: string
  gpr_cluster :: string
  gpr_serving :: string
  gpr_issuer :: issuer_ref
  gpr_cert :: user_cert_options

record generic_backup_volume =
  gbv_storage_class :: string
  gbv_snapshot_class :: string
  gbv_size :: quantity
  gbv_ready_timeout :: duration

record generic_backup_config =
  gbc_ns :: string
  gbc_name :: string
  gbc_volume :: generic_backup_volume
  gbc_cleanup :: duration
  gbc_postgres :: "generic_postgres_backup_source list"
  gbc_files :: "generic_files_backup_source list"
  gbc_groups :: "generic_file_group_backup_source list"
  gbc_s3 :: "generic_s3_source list"

record generic_restore_config =
  grc_ns :: string
  grc_name :: string
  grc_cleanup :: duration
  grc_postgres :: "generic_postgres_restore_source list"
  grc_files :: "generic_files_source list"
  grc_groups :: "generic_file_group_source list"
  grc_s3 :: "generic_s3_source list"

section \<open>Validation\<close>

definition slot_end_char :: "char \<Rightarrow> bool" where
  "slot_end_char c = (let k = (of_char c :: nat) in 97 \<le> k \<and> k \<le> 122 \<or> 48 \<le> k \<and> k \<le> 57)"

definition slot_char :: "char \<Rightarrow> bool" where
  "slot_char c \<longleftrightarrow> c = CHR ''-'' \<or> slot_end_char c"

text \<open>A match of \<^verbatim>\<open>^[a-z0-9]([-a-z0-9]*[a-z0-9])?$\<close>.\<close>
definition slot_name_matches :: "string \<Rightarrow> bool" where
  "slot_name_matches n = (case n of [] \<Rightarrow> False
     | c # cs \<Rightarrow> slot_end_char c \<and> (cs = [] \<or> list_all slot_char (butlast cs) \<and> slot_end_char (last cs)))"

definition validate_slot_name :: "string \<Rightarrow> string \<Rightarrow> error" where
  "validate_slot_name kind n =
     (if n = [] then Some (errorf (''a '' @ kind @ '' source has an empty name''))
      else if \<not> slot_name_matches n then Some (errorf (kind @ '' source name is not DNS/path-safe''))
      else if n = file_groups_dir_name then Some (errorf (kind @ '' source name is reserved for the file-groups directory''))
      else None)"

text \<open>The loop over the sources of a kind: the name, then uniqueness, then the fields of the source.\<close>
fun validate_named :: "string \<Rightarrow> ('a \<Rightarrow> string) \<Rightarrow> ('a \<Rightarrow> error) \<Rightarrow> string list \<Rightarrow> 'a list \<Rightarrow> error" where
  "validate_named kind name check seen [] = None"
| "validate_named kind name check seen (x # xs) =
     (case validate_slot_name kind (name x) of
        Some e \<Rightarrow> Some e
      | None \<Rightarrow> if name x \<in> set seen then Some (errorf (''duplicate '' @ kind @ '' slot name''))
          else (case check x of
             Some e \<Rightarrow> Some e
           | None \<Rightarrow> validate_named kind name check (name x # seen) xs))"

definition required :: "string \<Rightarrow> string \<Rightarrow> error" where
  "required tag v = (if v = [] then Some (errorf tag) else None)"

definition validate_files_sources :: "generic_files_source list \<Rightarrow> error" where
  "validate_files_sources = validate_named ''files'' gfs_name (\<lambda>x. required ''pvc is required'' (gfs_pvc x)) []"

definition is_empty_label_selector :: "label_selector \<Rightarrow> bool" where
  "is_empty_label_selector sel \<longleftrightarrow> ls_labels sel = [] \<and> ls_exprs sel = []"

definition validate_file_group_sources :: "generic_file_group_source list \<Rightarrow> error" where
  "validate_file_group_sources = validate_named ''fileGroup'' ggs_name (\<lambda>x.
     if is_empty_label_selector (ggs_selector x) then Some (errorf ''selector must match on at least one label or expression'') else None) []"

definition validate_s3_sources :: "generic_s3_source list \<Rightarrow> error" where
  "validate_s3_sources = validate_named ''s3'' gss_name (\<lambda>x. required ''path is required'' (gss_path x)) []"

text \<open>The first check that fails.\<close>
fun first_error :: "error list \<Rightarrow> error" where
  "first_error [] = None"
| "first_error (None # es) = first_error es"
| "first_error (Some e # es) = Some e"

definition at_least_one :: "nat \<Rightarrow> error" where
  "at_least_one n = (if n = 0 then Some (errorf ''at least one source must be configured'') else None)"

definition validate_backup_config :: "file_env \<Rightarrow> generic_backup_config \<Rightarrow> error" where
  "validate_backup_config env c = first_error (
     [at_least_one (length (gbc_postgres c) + length (gbc_files c) + length (gbc_groups c) + length (gbc_s3 c)),
      validate_named ''postgres'' gpb_name (\<lambda>x. required ''cluster is required'' (gpb_cluster x)) [] (gbc_postgres c),
      validate_files_sources (map generic_files_source.truncate (gbc_files c))] @
     map (\<lambda>x. trace_wrap ''files source has an invalid include/exclude filter'' (filter_validate env (gfs_filter x))) (gbc_files c) @
     [validate_file_group_sources (map generic_file_group_source.truncate (gbc_groups c))] @
     map (\<lambda>x. trace_wrap ''fileGroup source has an invalid include/exclude filter'' (filter_validate env (ggs_filter x))) (gbc_groups c) @
     [validate_s3_sources (gbc_s3 c),
      if (gbc_postgres c \<noteq> [] \<or> gbc_s3 c \<noteq> [] \<or> gbc_groups c \<noteq> []) \<and> gbv_size (gbc_volume c) = 0
      then Some (errorf ''backupVolume.size is required'') else None])"

definition validate_restore_config :: "generic_restore_config \<Rightarrow> error" where
  "validate_restore_config c = first_error
     [at_least_one (length (grc_postgres c) + length (grc_files c) + length (grc_groups c) + length (grc_s3 c)),
      validate_named ''postgres'' gpr_name (\<lambda>x. first_error [required ''cluster is required'' (gpr_cluster x),
         required ''clientCAIssuer.name is required'' (ir_name (gpr_issuer x)),
         required ''servingCert is required'' (gpr_serving x)]) [] (grc_postgres c),
      validate_files_sources (grc_files c),
      validate_file_group_sources (grc_groups c),
      validate_s3_sources (grc_s3 c)]"

section \<open>Backup and Restore\<close>

definition dump_file_name :: "string \<Rightarrow> string" where
  "dump_file_name slot = slot @ ''.sql''"

text \<open>\<^verbatim>\<open>getenv\<close> is os.Getenv.\<close>
definition resolve_s3_credentials :: "(string \<Rightarrow> string) \<Rightarrow> s3_credentials \<Rightarrow> s3_credentials" where
  "resolve_s3_credentials getenv creds = (if creds = new_credentials [] [] then new_credentials_from_env getenv else creds)"

text \<open>fmt.Sprintf of a kind, a quoted slot name and a verb.\<close>
definition friendly_name :: "string \<Rightarrow> string \<Rightarrow> string \<Rightarrow> string" where
  "friendly_name kind slot verb = kind @ '' '' @ [CHR 0x22] @ slot @ [CHR 0x22] @ '' '' @ verb"

fun sum_pvc_sizes :: "string \<Rightarrow> generic_files_backup_source list \<Rightarrow> quantity \<Rightarrow> ('s, quantity) prog" where
  "sum_pvc_sizes ns [] q0 = ret q0"
| "sum_pvc_sizes ns (x # xs) q0 = bnd (wrapping ''get files source PVC to size the DR volume'' (get_pvc ns (gfs_pvc x))) (\<lambda>p.
     case pvc_size p of None \<Rightarrow> fail (errorf ''files source PVC has no storage request to size the DR volume from'')
     | Some q \<Rightarrow> sum_pvc_sizes ns xs (q0 + q))"

definition backup_volume_size :: "generic_backup_config \<Rightarrow> ('s, quantity) prog" where
  "backup_volume_size c = (if gbv_size (gbc_volume c) \<noteq> 0 then ret (gbv_size (gbc_volume c))
     else bnd (sum_pvc_sizes (gbc_ns c) (gbc_files c) 0) (\<lambda>q. ret (q * 2)))"

text \<open>The loops that configure an action for every source, kind by kind.\<close>
definition generic_backup_actions :: "(string \<Rightarrow> string) \<Rightarrow> generic_backup_config \<Rightarrow> string \<Rightarrow> ('s, (string \<times> action) list) prog" where
  "generic_backup_actions getenv c dr_volume = (let ns = gbc_ns c; cleanup = gbc_cleanup c in
     bnd (map_each (\<lambda>x. with_action ''configure postgres source backup'' (friendly_name ''postgres'' (gpb_name x) ''backup'')
        (configured CNPGBackup new_cnpg_backup (cnpg_backup_configure ns (gpb_cluster x) dr_volume (dump_file_name (gpb_name x))
           \<lparr> bao_cloning = gpb_cloning x, bao_cleanup = cleanup \<rparr>))) (gbc_postgres c)) (\<lambda>dbs.
     bnd (map_each (\<lambda>x. with_action ''configure files source backup'' (friendly_name ''files'' (gfs_name x) ''backup'')
        (configured FilesBackup new_files_backup (files_backup_configure ns (gfs_pvc x) dr_volume (gfs_name x)
           \<lparr> fbo_class = gfs_class x, fbo_filter = gfs_filter x, fbo_cleanup = cleanup \<rparr>))) (gbc_files c)) (\<lambda>files.
     bnd (map_each (\<lambda>x. with_action ''configure fileGroup source backup'' (friendly_name ''fileGroup'' (ggs_name x) ''backup'')
        (configured FilesGroupBackup new_files_group_backup (files_group_backup_configure ns (ggs_selector x) dr_volume (ggs_name x)
           \<lparr> fbo_class = ggs_class x, fbo_filter = ggs_filter x, fbo_cleanup = cleanup \<rparr>))) (gbc_groups c)) (\<lambda>groups.
     bnd (map_each (\<lambda>x. with_action ''configure s3 source backup'' (friendly_name ''s3'' (gss_name x) ''sync'')
        (configured S3SyncAction new_s3_sync (s3_sync_configure ns dr_volume (gss_name x) (gss_path x)
           (resolve_s3_credentials getenv (gss_credentials x)) DirectionDownload))) (gbc_s3 c)) (\<lambda>syncs.
     ret (dbs @ files @ groups @ syncs))))))"

definition generic_backup :: "(label_selector \<Rightarrow> error) \<Rightarrow> file_env \<Rightarrow> (string \<Rightarrow> string) \<Rightarrow> generic_backup_config
    \<Rightarrow> ('s, dr_event option \<times> error) prog" where
  "generic_backup as_selector env getenv c = (case validate_backup_config env c of
      Some e \<Rightarrow> ret (None, Some (WrapErr ''invalid backup configuration'' e))
    | None \<Rightarrow> run_event (gbc_name c) (\<lambda>ev.
        bnd (wrapping ''determine the DR volume size'' (backup_volume_size c)) (\<lambda>sz.
        bnd (wrapping ''create the DR volume'' (new_dr_volume (gbc_ns c) (ev_name ev) sz
               (gbv_storage_class (gbc_volume c)) (map gpb_cluster (gbc_postgres c)))) (\<lambda>drv.
        bnd (generic_backup_actions getenv c (ev_name ev)) (\<lambda>actions.
        capture_and_snapshot as_selector (gbc_ns c) ev drv (gbc_cleanup c)
          \<lparr> obs_ready_timeout = gbv_ready_timeout (gbc_volume c), obs_class = gbv_snapshot_class (gbc_volume c) \<rparr> actions)))))"

definition generic_restore_actions :: "(string \<Rightarrow> string) \<Rightarrow> generic_restore_config \<Rightarrow> string \<Rightarrow> ('s, (string \<times> action) list) prog" where
  "generic_restore_actions getenv c dr_volume = (let ns = grc_ns c; cleanup = grc_cleanup c in
     bnd (map_each (\<lambda>x. with_action ''configure postgres source restoration'' (friendly_name ''postgres'' (gpr_name x) ''restore'')
        (configured CNPGRestore new_cnpg_restore (cnpg_restore_configure ns (gpr_cluster x) (gpr_serving x) (gpr_issuer x) dr_volume
           (dump_file_name (gpr_name x)) \<lparr> rso_cert = gpr_cert x, rso_cleanup = cleanup \<rparr>))) (grc_postgres c)) (\<lambda>dbs.
     bnd (map_each (\<lambda>x. with_action ''configure files source restoration'' (friendly_name ''files'' (gfs_name x) ''restore'')
        (configured FilesRestore new_files_restore (files_restore_configure ns (gfs_pvc x) dr_volume (gfs_name x)))) (grc_files c)) (\<lambda>files.
     bnd (map_each (\<lambda>x. with_action ''configure fileGroup source restoration'' (friendly_name ''fileGroup'' (ggs_name x) ''restore'')
        (configured FilesGroupRestore new_files_group_restore (files_group_restore_configure ns (ggs_selector x) dr_volume (ggs_name x)))) (grc_groups c)) (\<lambda>groups.
     bnd (map_each (\<lambda>x. with_action ''configure s3 source restoration'' (friendly_name ''s3'' (gss_name x) ''sync'')
        (configured S3SyncAction new_s3_sync (s3_sync_configure ns dr_volume (gss_name x) (gss_path x)
           (resolve_s3_credentials getenv (gss_credentials x)) DirectionUpload))) (grc_s3 c)) (\<lambda>syncs.
     ret (dbs @ files @ groups @ syncs))))))"

definition generic_restore :: "(label_selector \<Rightarrow> error) \<Rightarrow> (string \<Rightarrow> string) \<Rightarrow> generic_restore_config
    \<Rightarrow> ('s, dr_event option \<times> error) prog" where
  "generic_restore as_selector getenv c = (case validate_restore_config c of
      Some e \<Rightarrow> ret (None, Some (WrapErr ''invalid restore configuration'' e))
    | None \<Rightarrow> run_event (grc_name c) (\<lambda>ev.
        bnd (generic_restore_actions getenv c (ev_name ev)) (run_restoration as_selector (grc_ns c) ev (grc_cleanup c))))"

section \<open>Routes\<close>

lemma map_each_configures:
  assumes "\<And>x. configures w (f x) action_early"
  shows "configures w (map_each (\<lambda>x. with_action t (nm x) (f x)) xs) (all_actions action_early)"
proof (induction xs)
  case Nil
  show ?case unfolding map_each.simps by (rule configures_ret) simp
next
  case (Cons x xs)
  show ?case
    unfolding map_each.simps
    by (rule configures_bnd [OF configures_with_action [OF assms]], rule configures_bnd [OF Cons], rule configures_ret) auto
qed

lemma map_each_routes:
  assumes "map_each (\<lambda>x. with_action t (nm x) (f x)) xs w s tr = (Inr ys, s', tr')"
    and "\<And>x s tr a s' tr'. f x w s tr = (Inr a, s', tr') \<Longrightarrow> action_route a = R x"
  shows "routes ys = map R xs"
  using assms(1)
proof (induction xs arbitrary: s tr ys)
  case (Cons x xs)
  from Cons.prems [unfolded map_each.simps] show ?case
    by (elim bnd_okE with_actionE) (auto simp: assms(2) dest: Cons.IH)
qed simp

text \<open>The routes that a configuration describes.\<close>
definition backup_routes :: "generic_backup_config \<Rightarrow> string \<Rightarrow> (string \<times> live \<times> string \<times> string) list" where
  "backup_routes c v =
     map (\<lambda>x. (gbc_ns c, Database (gpb_cluster x), v, dump_file_name (gpb_name x))) (gbc_postgres c) @
     map (\<lambda>x. (gbc_ns c, Volume (gfs_pvc x), v, gfs_name x)) (gbc_files c) @
     map (\<lambda>x. (gbc_ns c, VolumeGroup (ggs_selector x), v, path_join [file_groups_dir_name, ggs_name x])) (gbc_groups c) @
     map (\<lambda>x. (gbc_ns c, Bucket (gss_path x), v, gss_name x)) (gbc_s3 c)"

lemma generic_backup_routes:
  "generic_backup_actions getenv c v w s tr = (Inr xs, s', tr') \<Longrightarrow> routes xs = backup_routes c v"
  unfolding generic_backup_actions_def Let_def backup_routes_def
  by (elim bnd_okE) (auto dest!: map_each_routes intro: configured_routes)

lemma generic_restore_routes:
  "generic_restore_actions getenv c v w s tr = (Inr xs, s', tr') \<Longrightarrow> routes xs =
     map (\<lambda>x. (grc_ns c, Database (gpr_cluster x), v, dump_file_name (gpr_name x))) (grc_postgres c) @
     map (\<lambda>x. (grc_ns c, Volume (gfs_pvc x), v, gfs_name x)) (grc_files c) @
     map (\<lambda>x. (grc_ns c, VolumeGroup (ggs_selector x), v, path_join [file_groups_dir_name, ggs_name x])) (grc_groups c) @
     map (\<lambda>x. (grc_ns c, Bucket (gss_path x), v, gss_name x)) (grc_s3 c)"
  unfolding generic_restore_actions_def Let_def
  by (elim bnd_okE) (auto dest!: map_each_routes intro: configured_routes)

text \<open>The restore configuration of a backup configuration, given what only a restore needs of each database slot.\<close>
definition restore_of :: "(string \<Rightarrow> string \<times> issuer_ref \<times> user_cert_options) \<Rightarrow> generic_backup_config \<Rightarrow> generic_restore_config" where
  "restore_of certs c = \<lparr> grc_ns = gbc_ns c, grc_name = gbc_name c, grc_cleanup = gbc_cleanup c,
     grc_postgres = map (\<lambda>x. case certs (gpb_name x) of (serving, issuer, cert) \<Rightarrow> \<lparr> gpr_name = gpb_name x, gpr_cluster = gpb_cluster x,
        gpr_serving = serving, gpr_issuer = issuer, gpr_cert = cert \<rparr>) (gbc_postgres c),
     grc_files = map generic_files_source.truncate (gbc_files c),
     grc_groups = map generic_file_group_source.truncate (gbc_groups c), grc_s3 = gbc_s3 c \<rparr>"

lemma truncate_sels [simp]:
  "gfs_name (generic_files_source.truncate x) = gfs_name x" "gfs_pvc (generic_files_source.truncate x) = gfs_pvc x"
  "ggs_name (generic_file_group_source.truncate y) = ggs_name y" "ggs_selector (generic_file_group_source.truncate y) = ggs_selector y"
  by (simp_all add: generic_files_source.truncate_def generic_file_group_source.truncate_def)

interpretation generic: application "generic_backup_actions getenv c v" "generic_restore_actions getenv (restore_of certs c) v" for getenv c v certs
proof (unfold_locales, goal_cases)
  case 1
  show ?case
    unfolding generic_backup_actions_def Let_def
    by (intro configures_bnd [OF map_each_configures] configures_actions configures_ret) simp
next
  case 2
  show ?case
    unfolding generic_restore_actions_def Let_def
    by (intro configures_bnd [OF map_each_configures] configures_actions configures_ret) simp
next
  case 3
  from generic_backup_routes [OF 3(1)] generic_restore_routes [OF 3(2)] show ?case
    by (simp add: backup_routes_def restore_of_def split_def comp_def)
qed


section \<open>What an event leaves behind\<close>

lemma sum_pvc_sizes_leaves: "sum_pvc_sizes ns xs q w s tr = (r, s', tr') \<Longrightarrow> s' = s \<and> outstanding tr' = outstanding tr"
  by (induction xs arbitrary: q tr) (fastforce simp: get_pvc_def prog_simps split: sum.splits option.splits)+

lemma backup_volume_size_leaves:
  "wrapping t (backup_volume_size c) w s tr = (r, s', tr') \<Longrightarrow> s' = s \<and> outstanding tr' = outstanding tr"
  by (auto simp: backup_volume_size_def prog_simps split: sum.splits prod.splits if_splits dest: sum_pvc_sizes_leaves)

text \<open>Whatever happens in a backup, an invalid configuration included, what it leaves in the cluster is at most the
  DR volume and one snapshot of it.\<close>
lemma generic_backup_leaves:
  assumes w: "usable w" and n: "gbc_name c \<noteq> []" and run: "generic_backup as_selector env getenv c w s tr = (r, s', tr')"
  shows "\<exists>k. outstanding tr' \<subseteq># outstanding tr + {#(KPVC, gbc_ns c, gbc_name c), (KSnapshot, gbc_ns c, k)#}"
proof (cases "validate_backup_config env c")
  case (Some e)
  with run show ?thesis by (simp add: generic_backup_def)
next
  case None
  from run [unfolded generic_backup_def None option.case] show ?thesis
  proof (rule event_leaves)
    fix ev :: dr_event and rb tr0 tr1
    let ?snap = "\<lparr> obs_ready_timeout = gbv_ready_timeout (gbc_volume c), obs_class = gbv_snapshot_class (gbc_volume c) \<rparr>"
    assume ev: "ev_name ev = gbc_name c"
    assume "bnd (wrapping ''determine the DR volume size'' (backup_volume_size c)) (\<lambda>sz.
        bnd (wrapping ''create the DR volume'' (new_dr_volume (gbc_ns c) (ev_name ev) sz
               (gbv_storage_class (gbc_volume c)) (map gpb_cluster (gbc_postgres c)))) (\<lambda>drv.
        bnd (generic_backup_actions getenv c (ev_name ev))
          (capture_and_snapshot as_selector (gbc_ns c) ev drv (gbc_cleanup c) ?snap))) w s tr0 = (rb, s', tr1)"
    then show "\<exists>k. outstanding tr1 \<subseteq># outstanding tr0 + {#(KPVC, gbc_ns c, gbc_name c), (KSnapshot, gbc_ns c, k)#}"
    proof (cases rule: bndE)
      case (1 e)
      with backup_volume_size_leaves [OF 1(1)] show ?thesis by simp
    next
      case (2 sz s2 tr2)
      from generic.backup_leaves [OF w n 2(2) [unfolded ev]] backup_volume_size_leaves [OF 2(1)] show ?thesis by simp
    qed
  qed
qed

text \<open>Whatever happens in a restore, nothing it created is left in the cluster.\<close>
lemma generic_restore_leaves_nothing:
  assumes w: "usable w" and run: "generic_restore as_selector getenv c w s tr = (r, s', tr')"
  shows "outstanding tr' \<subseteq># outstanding tr"
proof (cases "validate_restore_config c")
  case (Some e)
  with run show ?thesis by (simp add: generic_restore_def)
next
  case None
  have fresh: "configures w (generic_restore_actions getenv c v) (all_actions action_early)" for v
    unfolding generic_restore_actions_def Let_def
    by (intro configures_bnd [OF map_each_configures] configures_actions configures_ret) simp
  from run [unfolded generic_restore_def None option.case] show ?thesis
  proof (rule restoration_leaves)
    fix ev :: dr_event and rb tr0 tr1
    assume "bnd (generic_restore_actions getenv c (ev_name ev)) (run_restoration as_selector (grc_ns c) ev (grc_cleanup c)) w s tr0 = (rb, s', tr1)"
    then show "outstanding tr1 \<subseteq># outstanding tr0" by (rule restoration_run_leaves [OF w fresh])
  qed
qed

section \<open>The layout of the DR volume\<close>

lemma slot_name_chars: "slot_name_matches n \<Longrightarrow> n \<noteq> [] \<and> list_all slot_char n"
proof -
  assume m: "slot_name_matches n"
  then obtain c cs where n: "n = c # cs" and c: "slot_end_char c" and cs: "cs = [] \<or> list_all slot_char (butlast cs) \<and> slot_end_char (last cs)"
    by (auto simp: slot_name_matches_def split: list.splits)
  from cs have "list_all slot_char cs"
    by (cases cs rule: rev_cases) (simp_all add: slot_char_def)
  with n c show ?thesis by (simp add: slot_char_def)
qed

lemma slot_name_lacks:
  assumes "slot_name_matches n"
  shows "CHR ''.'' \<notin> set n" "slash \<notin> set n" "CHR ''G'' \<notin> set n"
proof -
  have lacks: "c \<notin> set n" if "\<not> slot_char c" for c
    using slot_name_chars [OF assms] that by (auto simp: list_all_iff)
  have "\<not> slot_char CHR ''.''" "\<not> slot_char slash" "\<not> slot_char CHR ''G''" by code_simp+
  then show "CHR ''.'' \<notin> set n" "slash \<notin> set n" "CHR ''G'' \<notin> set n" by (simp_all add: lacks)
qed

lemma first_error_None: "first_error es = None \<longleftrightarrow> (\<forall>e \<in> set es. e = None)"
  by (induction es rule: first_error.induct) auto

lemma validate_named_ok:
  "validate_named kind name check seen xs = None \<Longrightarrow>
     distinct (map name xs) \<and> set (map name xs) \<inter> set seen = {} \<and> list_all (\<lambda>x. slot_name_matches (name x) \<and> check x = None) xs"
proof (induction xs arbitrary: seen)
  case (Cons x xs)
  from Cons.prems have slot: "validate_slot_name kind (name x) = None" and new: "name x \<notin> set seen" and ok: "check x = None"
    and rest: "validate_named kind name check (name x # seen) xs = None"
    by (auto split: option.splits if_splits)
  from slot have "slot_name_matches (name x)" by (auto simp: validate_slot_name_def split: if_splits)
  with Cons.IH [OF rest] new ok show ?case by auto
qed simp

lemma group_slot_path: "slot_name_matches g \<Longrightarrow> path_join [file_groups_dir_name, g] = ''fileGroups/'' @ g"
proof -
  assume g: "slot_name_matches g"
  have plain: "plain_comp g" "plain_comp ''fileGroups''"
    using slot_name_lacks [OF g] slot_name_chars [OF g] by (auto simp: plain_comp_def slash_def)
  have "split_on slash (''fileGroups/'' @ g) = [''fileGroups'', g]"
    using plain by (simp add: plain_comp_def slash_def split_on_plain)
  moreover have "\<not> is_rooted (''fileGroups/'' @ g)" by (simp add: is_rooted_def has_prefix_def)
  moreover have "clean_comps False [] [''fileGroups'', g] = [''fileGroups'', g]"
    using plain by (simp add: plain_comp_def)
  ultimately show ?thesis
    using slot_name_chars [OF g] by (simp add: path_join_def file_groups_dir_name_def path_clean_def Let_def)
qed

text \<open>Where on which volume the captures of a configuration lie.\<close>
definition slots :: "(string \<times> action) list \<Rightarrow> (string \<times> string) list" where
  "slots actions = map (\<lambda>(_, _, v, p). (v, p)) (routes actions)"

text \<open>The four families of paths that valid slot names give are apart from each other, but for files and s3.\<close>
lemma slot_paths_apart:
  assumes "slot_name_matches m" "slot_name_matches n"
  shows "dump_file_name m \<noteq> n" "n \<noteq> ''fileGroups/'' @ m" "dump_file_name n \<noteq> ''fileGroups/'' @ m"
    "dump_file_name m = dump_file_name n \<longleftrightarrow> m = n"
proof -
  have dot: "CHR ''.'' \<in> set (dump_file_name k)" for k by (simp add: dump_file_name_def)
  have cap: "CHR ''G'' \<in> set (''fileGroups/'' @ m)" by simp
  have cap': "CHR ''G'' \<notin> set (dump_file_name n)" using slot_name_lacks(3) [OF assms(2)] by (simp add: dump_file_name_def)
  show "dump_file_name m \<noteq> n" using dot [of m] slot_name_lacks(1) [OF assms(2)] by metis
  show "n \<noteq> ''fileGroups/'' @ m" using cap slot_name_lacks(3) [OF assms(2)] by metis
  show "dump_file_name n \<noteq> ''fileGroups/'' @ m" using cap cap' by metis
  show "dump_file_name m = dump_file_name n \<longleftrightarrow> m = n" by (simp add: dump_file_name_def)
qed

lemma valid_backup_names:
  assumes "validate_backup_config env c = None"
  shows "distinct (map gpb_name (gbc_postgres c))" "\<forall>x \<in> set (gbc_postgres c). slot_name_matches (gpb_name x)"
    "distinct (map gfs_name (gbc_files c))" "\<forall>x \<in> set (gbc_files c). slot_name_matches (gfs_name x)"
    "distinct (map ggs_name (gbc_groups c))" "\<forall>x \<in> set (gbc_groups c). slot_name_matches (ggs_name x)"
    "distinct (map gss_name (gbc_s3 c))" "\<forall>x \<in> set (gbc_s3 c). slot_name_matches (gss_name x)"
proof -
  note all = assms [unfolded validate_backup_config_def first_error_None]
  have pg: "validate_named ''postgres'' gpb_name (\<lambda>x. required ''cluster is required'' (gpb_cluster x)) [] (gbc_postgres c) = None"
    and fs: "validate_files_sources (map generic_files_source.truncate (gbc_files c)) = None"
    and gs: "validate_file_group_sources (map generic_file_group_source.truncate (gbc_groups c)) = None"
    and ss: "validate_s3_sources (gbc_s3 c) = None"
    using all by simp_all
  from validate_named_ok [OF pg] show "distinct (map gpb_name (gbc_postgres c))" "\<forall>x \<in> set (gbc_postgres c). slot_name_matches (gpb_name x)"
    by (simp_all add: list_all_iff)
  from validate_named_ok [OF fs [unfolded validate_files_sources_def]]
  show "distinct (map gfs_name (gbc_files c))" "\<forall>x \<in> set (gbc_files c). slot_name_matches (gfs_name x)"
    by (simp_all add: list_all_iff comp_def)
  from validate_named_ok [OF gs [unfolded validate_file_group_sources_def]]
  show "distinct (map ggs_name (gbc_groups c))" "\<forall>x \<in> set (gbc_groups c). slot_name_matches (ggs_name x)"
    by (simp_all add: list_all_iff comp_def)
  from validate_named_ok [OF ss [unfolded validate_s3_sources_def]]
  show "distinct (map gss_name (gbc_s3 c))" "\<forall>x \<in> set (gbc_s3 c). slot_name_matches (gss_name x)"
    by (simp_all add: list_all_iff)
qed

lemma distinct_map_inj: "(\<And>x y. x \<in> set xs \<Longrightarrow> y \<in> set xs \<Longrightarrow> f x = f y \<Longrightarrow> g x = g y) \<Longrightarrow> distinct (map g xs) \<Longrightarrow> distinct (map f xs)"
  unfolding distinct_map by (blast intro: inj_onI dest: inj_onD)

text \<open>C5: in a valid configuration no two captures share their place on the DR volume, except that a files source and
  an s3 source of the same name are both captured into the one directory of that name.\<close>
theorem generic_slots_distinct:
  assumes valid: "validate_backup_config env c = None"
    and actions: "generic_backup_actions getenv c v w s tr = (Inr actions, s', tr')"
  shows "distinct (slots actions) \<longleftrightarrow> gfs_name ` set (gbc_files c) \<inter> gss_name ` set (gbc_s3 c) = {}"
proof -
  note names = valid_backup_names [OF valid]
  have groups: "map (\<lambda>x. (v, path_join [file_groups_dir_name, ggs_name x])) (gbc_groups c) = map (\<lambda>x. (v, ''fileGroups/'' @ ggs_name x)) (gbc_groups c)"
    using names(6) group_slot_path by (intro map_cong refl) (simp only:)
  have slots: "slots actions = map (\<lambda>x. (v, dump_file_name (gpb_name x))) (gbc_postgres c) @ map (\<lambda>x. (v, gfs_name x)) (gbc_files c) @
      map (\<lambda>x. (v, ''fileGroups/'' @ ggs_name x)) (gbc_groups c) @ map (\<lambda>x. (v, gss_name x)) (gbc_s3 c)"
    unfolding slots_def generic_backup_routes [OF actions] backup_routes_def map_append map_map comp_def prod.case groups ..
  have each: "distinct (map (\<lambda>x. (v, dump_file_name (gpb_name x))) (gbc_postgres c))" "distinct (map (\<lambda>x. (v, gfs_name x)) (gbc_files c))"
    "distinct (map (\<lambda>x. (v, ''fileGroups/'' @ ggs_name x)) (gbc_groups c))" "distinct (map (\<lambda>x. (v, gss_name x)) (gbc_s3 c))"
    subgoal by (rule distinct_map_inj [OF _ names(1)]) (simp add: dump_file_name_def)
    subgoal by (rule distinct_map_inj [OF _ names(3)]) simp
    subgoal by (rule distinct_map_inj [OF _ names(5)]) simp
    subgoal by (rule distinct_map_inj [OF _ names(7)]) simp
    done
  have pf: "dump_file_name (gpb_name x) \<noteq> gfs_name y" if "x \<in> set (gbc_postgres c)" "y \<in> set (gbc_files c)" for x y
    using slot_paths_apart(1) that names(2,4) by blast
  have pg: "dump_file_name (gpb_name x) \<noteq> ''fileGroups/'' @ ggs_name y" if "x \<in> set (gbc_postgres c)" "y \<in> set (gbc_groups c)" for x y
    using slot_paths_apart(3) that names(2,6) by blast
  have ps: "dump_file_name (gpb_name x) \<noteq> gss_name y" if "x \<in> set (gbc_postgres c)" "y \<in> set (gbc_s3 c)" for x y
    using slot_paths_apart(1) that names(2,8) by blast
  have fg: "gfs_name x \<noteq> ''fileGroups/'' @ ggs_name y" if "x \<in> set (gbc_files c)" "y \<in> set (gbc_groups c)" for x y
    using slot_paths_apart(2) that names(4,6) by blast
  have sg: "gss_name x \<noteq> ''fileGroups/'' @ ggs_name y" if "x \<in> set (gbc_s3 c)" "y \<in> set (gbc_groups c)" for x y
    using slot_paths_apart(2) that names(8,6) by blast
  have "set (map (\<lambda>x. (v, dump_file_name (gpb_name x))) (gbc_postgres c)) \<inter> set (map (\<lambda>x. (v, gfs_name x)) (gbc_files c) @
      map (\<lambda>x. (v, ''fileGroups/'' @ ggs_name x)) (gbc_groups c) @ map (\<lambda>x. (v, gss_name x)) (gbc_s3 c)) = {}"
    using pf pg ps by fastforce
  moreover have "set (map (\<lambda>x. (v, gfs_name x)) (gbc_files c)) \<inter> set (map (\<lambda>x. (v, ''fileGroups/'' @ ggs_name x)) (gbc_groups c)) = {}"
    using fg by fastforce
  moreover have "set (map (\<lambda>x. (v, ''fileGroups/'' @ ggs_name x)) (gbc_groups c)) \<inter> set (map (\<lambda>x. (v, gss_name x)) (gbc_s3 c)) = {}"
    using sg by fastforce
  moreover have "set (map (\<lambda>x. (v, gfs_name x)) (gbc_files c)) \<inter> set (map (\<lambda>x. (v, gss_name x)) (gbc_s3 c)) = {} \<longleftrightarrow>
      gfs_name ` set (gbc_files c) \<inter> gss_name ` set (gbc_s3 c) = {}"
    by auto
  ultimately show ?thesis
    unfolding slots distinct_append set_append Int_Un_distrib using each by (simp only: Un_empty simp_thms)
qed

section \<open>A configuration in the sample world\<close>

text \<open>A database, a volume and a bucket.\<close>
definition sample_config :: "string \<Rightarrow> generic_backup_config" where
  "sample_config bucket_slot = \<lparr> gbc_ns = ''ns'', gbc_name = ''app'', gbc_volume = \<lparr> gbv_storage_class = [], gbv_snapshot_class = [],
       gbv_size = 10, gbv_ready_timeout = 0 \<rparr>, gbc_cleanup = 0,
     gbc_postgres = [\<lparr> gpb_name = ''db'', gpb_cluster = ''pg'', gpb_cloning = bao_cloning no_cnpg_backup_options \<rparr>],
     gbc_files = [\<lparr> gfs_name = ''data'', gfs_pvc = ''data'', gfs_class = [], gfs_filter = no_filter \<rparr>],
     gbc_groups = [], gbc_s3 = [\<lparr> gss_name = bucket_slot, gss_path = ''s3://media'', gss_credentials = new_credentials [] [] \<rparr>] \<rparr>"

definition sample_getenv :: "string \<Rightarrow> string" where "sample_getenv v = []"

definition sample_actions :: "string \<Rightarrow> (goerr + (string \<times> action) list) \<times> unit \<times> trace" where
  "sample_actions bucket_slot = generic_backup_actions sample_getenv (sample_config bucket_slot) ''app'' sample_world () []"

lemma sample_config_valid: "validate_backup_config env (sample_config ''media'') = None" "validate_backup_config env (sample_config ''data'') = None"
  by (simp_all add: validate_backup_config_def sample_config_def validate_files_sources_def validate_file_group_sources_def
      validate_s3_sources_def at_least_one_def required_def filter_validate_def no_filter_def new_aggregate_def List.map_filter_def
      validate_slot_name_def slot_name_matches_def slot_end_char_def slot_char_def file_groups_dir_name_def
      generic_files_source.truncate_def trace_wrap_def Let_def)

lemma sample_actions_ok: "\<not> isl (fst (sample_actions ''media''))" "\<not> isl (fst (sample_actions ''data''))"
  by code_simp+

theorem generic_slots_distinct_witness:
  "distinct (slots (projr (fst (sample_actions ''media'')))) \<and> \<not> distinct (slots (projr (fst (sample_actions ''data''))))"
proof -
  obtain xs u tr where m: "sample_actions ''media'' = (Inr xs, u, tr)"
    using sample_actions_ok(1) by (cases "sample_actions ''media''"; cases "fst (sample_actions ''media'')") auto
  obtain ys u' tr' where d: "sample_actions ''data'' = (Inr ys, u', tr')"
    using sample_actions_ok(2) by (cases "sample_actions ''data''"; cases "fst (sample_actions ''data'')") auto
  from generic_slots_distinct [OF sample_config_valid(1) m [unfolded sample_actions_def]]
    generic_slots_distinct [OF sample_config_valid(2) d [unfolded sample_actions_def]] m d
  show ?thesis by (simp add: sample_config_def)
qed

definition sample_certs :: "string \<Rightarrow> string \<times> issuer_ref \<times> user_cert_options" where
  "sample_certs slot = (slot @ ''-cert'', \<lparr> ir_name = ''ca'', ir_kind = [], ir_group = [] \<rparr>, \<lparr> uco_crp_timeout = 0, uco_cert_timeout = 0 \<rparr>)"

definition sample_restore_config :: generic_restore_config where
  "sample_restore_config = restore_of sample_certs (sample_config ''media'')"

lemma sample_restore_ok:
  "\<not> isl (fst (generic_restore_actions sample_getenv sample_restore_config ''app'' sample_world () []))"
  by code_simp


end
