(* ===== verification/Ordering.thy ===== *)
theory Ordering
  imports Generic
begin

text \<open>
  The order of the captures of one event.  \<^verbatim>\<open>generic.go\<close> registers the databases before the
  volumes because a database can only recover forward, from a base backup taken before the volumes are
  frozen.  \<^verbatim>\<open>creates_only\<close> bounds the kinds of objects that a program creates; with it the
  trace of the pre-steps of a generic backup splits into the base backups and, after them, the freezes.
\<close>

section \<open>The kinds of objects that a program creates\<close>

definition kinds_created :: "event list \<Rightarrow> kind set" where
  "kinds_created tr = set (List.map_filter (\<lambda>e. case e of Created K ns n \<Rightarrow> Some K | _ \<Rightarrow> None) tr)"

lemma kinds_created_simps [simp]:
  "kinds_created [] = {}" "kinds_created (tr @ tr') = kinds_created tr \<union> kinds_created tr'"
  "kinds_created (e # tr) = (case e of Created K ns n \<Rightarrow> {K} | _ \<Rightarrow> {}) \<union> kinds_created tr"
  by (auto simp: kinds_created_def List.map_filter_def split: event.splits)

definition creates_only :: "kind set \<Rightarrow> world \<Rightarrow> ('s, 'a) prog \<Rightarrow> bool" where
  "creates_only Ks w m \<longleftrightarrow> (\<forall>s tr r s' tr'. m w s tr = (r, s', tr') \<longrightarrow> (\<exists>new. tr' = tr @ new \<and> kinds_created new \<subseteq> Ks))"

named_theorems creates_intros "kinds of objects that a program creates"

lemma creates_onlyI:
  "(\<And>s tr r s' tr'. m w s tr = (r, s', tr') \<Longrightarrow> \<exists>new. tr' = tr @ new \<and> kinds_created new \<subseteq> Ks) \<Longrightarrow> creates_only Ks w m"
  unfolding creates_only_def by blast

lemma creates_onlyD: "creates_only Ks w m \<Longrightarrow> m w s tr = (r, s', tr') \<Longrightarrow> \<exists>new. tr' = tr @ new \<and> kinds_created new \<subseteq> Ks"
  unfolding creates_only_def by blast

text \<open>A step that adds at most one event.\<close>
lemma creates_step:
  assumes "\<And>s tr. snd (snd (m w s tr)) = tr \<or> (\<exists>e. snd (snd (m w s tr)) = tr @ [e] \<and> kinds_created [e] \<subseteq> Ks)"
  shows "creates_only Ks w m"
proof (rule creates_onlyI)
  fix s tr r s' tr'
  assume "m w s tr = (r, s', tr')"
  with assms [of s tr] consider "tr' = tr @ []" | e where "tr' = tr @ [e]" "kinds_created [e] \<subseteq> Ks" by auto
  then show "\<exists>new. tr' = tr @ new \<and> kinds_created new \<subseteq> Ks" by cases auto
qed

text \<open>One program after another.\<close>
lemma creates_seq:
  assumes m: "creates_only Ks w m" and run: "m w s tr = (r, s1, tr1)"
    and rest: "\<exists>new. tr' = tr1 @ new \<and> kinds_created new \<subseteq> Ks"
  shows "\<exists>new. tr' = tr @ new \<and> kinds_created new \<subseteq> Ks"
proof -
  from rest obtain new2 where "tr' = tr1 @ new2" "kinds_created new2 \<subseteq> Ks" by blast
  moreover from creates_onlyD [OF m run] obtain new1 where "tr1 = tr @ new1" "kinds_created new1 \<subseteq> Ks" by blast
  ultimately show ?thesis by (intro exI [of _ "new1 @ new2"]) simp
qed

lemma creates_case [creates_intros]:
  assumes m: "creates_only Ks w m" and f: "\<And>e. creates_only Ks w (f e)" and g: "\<And>x. creates_only Ks w (g x)"
  shows "creates_only Ks w (\<lambda>w s tr. case m w s tr of (Inl e, s', tr') \<Rightarrow> f e w s' tr' | (Inr x, s', tr') \<Rightarrow> g x w s' tr')"
proof (rule creates_onlyI)
  fix s tr r s' tr'
  assume run: "(case m w s tr of (Inl e, s', tr') \<Rightarrow> f e w s' tr' | (Inr x, s', tr') \<Rightarrow> g x w s' tr') = (r, s', tr')"
  obtain r1 s1 tr1 where 1: "m w s tr = (r1, s1, tr1)" by (rule prod_cases3)
  show "\<exists>new. tr' = tr @ new \<and> kinds_created new \<subseteq> Ks"
    by (rule creates_seq [OF m 1])
      (use run 1 creates_onlyD [OF f, of _ s1 tr1 r s' tr'] creates_onlyD [OF g, of _ s1 tr1 r s' tr'] in \<open>cases r1; simp\<close>)
qed

lemma creates_bnd [creates_intros]:
  assumes m: "creates_only Ks w m" and f: "\<And>x. creates_only Ks w (f x)"
  shows "creates_only Ks w (bnd m f)"
proof (rule creates_onlyI)
  fix s tr r s' tr'
  assume "bnd m f w s tr = (r, s', tr')"
  then show "\<exists>new. tr' = tr @ new \<and> kinds_created new \<subseteq> Ks"
  proof (cases rule: bndE)
    case (1 e)
    show ?thesis by (rule creates_onlyD [OF m 1(1)])
  next
    case (2 x s1 tr1)
    show ?thesis by (rule creates_seq [OF m 2(1) creates_onlyD [OF f 2(2)]])
  qed
qed

lemma creates_thn [creates_intros]: "creates_only Ks w m \<Longrightarrow> creates_only Ks w n \<Longrightarrow> creates_only Ks w (thn m n)"
  unfolding thn_def by (rule creates_bnd)

lemma creates_wrapping [creates_intros]: "creates_only Ks w m \<Longrightarrow> creates_only Ks w (wrapping t m)"
  by (rule creates_onlyI, erule wrappingE) (blast dest: creates_onlyD)+

lemma creates_deferred [creates_intros]:
  assumes m: "creates_only Ks w m" and f: "\<And>e. creates_only Ks w (f e)"
  shows "creates_only Ks w (deferred t f m)"
proof (rule creates_onlyI, erule deferredE)
  fix s tr s' tr' r1 s1 tr1 rc
  assume 1: "m w s tr = (r1, s1, tr1)" and 2: "f (err_of r1) w s1 tr1 = (rc, s', tr')"
  show "\<exists>new. tr' = tr @ new \<and> kinds_created new \<subseteq> Ks"
    by (rule creates_seq [OF m 1 creates_onlyD [OF f 2]])
qed

lemma creates_with_local [creates_intros]: "creates_only Ks w m \<Longrightarrow> creates_only Ks w (with_local t m)"
  by (rule creates_onlyI, erule with_localE) (blast dest: creates_onlyD)

lemma creates_inside [creates_intros]: "creates_only Ks w m \<Longrightarrow> creates_only Ks w (inside C x m)"
  by (rule creates_onlyI) (auto simp: inside_def split: prod.splits dest: creates_onlyD)

lemma creates_if [creates_intros]:
  "(b \<Longrightarrow> creates_only Ks w m) \<Longrightarrow> (\<not> b \<Longrightarrow> creates_only Ks w n) \<Longrightarrow> creates_only Ks w (if b then m else n)"
  by simp

lemma creates_basic [creates_intros]:
  "creates_only Ks w (ret x)" "creates_only Ks w (fail e)" "creates_only Ks w get_st" "creates_only Ks w (upd_st g)"
  "creates_only Ks w (guard b e)" "creates_only Ks w (lift_err er)" "creates_only Ks w (lift_res rs)" "creates_only Ks w (ask h)"
  "creates_only Ks w (map_range xs)" "creates_only Ks w (deref v)"
  by (rule creates_step; simp add: prog_simps deref_def split: option.split)+

lemma creates_api [creates_intros]:
  "K \<in> Ks \<Longrightarrow> creates_only Ks w (api_create K api meta ns ob)" "creates_only Ks w (api_get K api2 ns n)"
  "creates_only Ks w (api_list K api3 ns sel)" "creates_only Ks w (api_delete K api4 ns n)" "creates_only Ks w (api_watch K api5 ns l t)"
  by (rule creates_step; simp add: prog_simps split: sum.split option.split)+

lemma creates_waits [creates_intros]:
  "creates_only Ks w (wait_for_resource_condition K api t ns sel pe acc)"
  unfolding wait_for_resource_condition_def by (intro creates_intros)

text \<open>The client operations of the pre-steps.\<close>
lemma creates_client [creates_intros]:
  "KBackup \<in> Ks \<Longrightarrow> creates_only Ks w (create_backup ns n c bo)" "creates_only Ks w (wait_for_ready_backup ns n t)"
  "creates_only Ks w (delete_backup ns n)" "KSnapshot \<in> Ks \<Longrightarrow> creates_only Ks w (snapshot_volume ns n on cl)"
  "creates_only Ks w (wait_for_ready_snapshot ns n t)" "creates_only Ks w (delete_snapshot ns n)"
  "KGroupSnapshot \<in> Ks \<Longrightarrow> creates_only Ks w (group_snapshot_volumes ns sel on cl)"
  "creates_only Ks w (wait_for_ready_group_snapshot ns n t)" "creates_only Ks w (wait_for_ready_group_snapshot_members ns n k t)"
  "creates_only Ks w (delete_group_snapshot ns n)" "creates_only Ks w (get_pvc ns n)" "creates_only Ks w (list_pvcs as_sel ns sel)"
  "KPVC \<in> Ks \<Longrightarrow> creates_only Ks w (create_pvc ns n sz po)" "creates_only Ks w (delete_pvc ns n)"
  "KPod \<in> Ks \<Longrightarrow> creates_only Ks w (create_pod ns p)" "creates_only Ks w (wait_for_ready_pod ns n t)" "creates_only Ks w (delete_pod ns n)"
  unfolding create_backup_def wait_for_ready_backup_def delete_backup_def snapshot_volume_def wait_for_ready_snapshot_def
    delete_snapshot_def group_snapshot_volumes_def wait_for_ready_group_snapshot_def wait_for_ready_group_snapshot_members_def
    delete_group_snapshot_def get_pvc_def list_pvcs_def create_pvc_def delete_pvc_def create_pod_def wait_for_ready_pod_def delete_pod_def Let_def
  by (intro creates_intros; assumption)+

text \<open>What a freeze of volumes creates.\<close>
definition freeze_kinds :: "kind set" where
  "freeze_kinds = {KSnapshot, KGroupSnapshot, KPVC, KPod}"

lemma freeze_kinds_simps [simp]: "KSnapshot \<in> freeze_kinds" "KGroupSnapshot \<in> freeze_kinds" "KPVC \<in> freeze_kinds" "KPod \<in> freeze_kinds"
  "KBackup \<notin> freeze_kinds"
  by (simp_all add: freeze_kinds_def)

lemma creates_force_bind [creates_intros]: "creates_only freeze_kinds w (force_bind_volumes ns names t)"
  unfolding force_bind_volumes_def Let_def split_def by (intro creates_intros; simp)

lemma creates_from_snapshot [creates_intros]: "creates_only freeze_kinds w (create_pvc_from_snapshot ns d n sn c)"
  unfolding create_pvc_from_snapshot_def source_class_def
  by (cases "restore_size sn") (simp_all only: option.case, (intro creates_intros; simp)+)

lemma creates_clone_pvc [creates_intros]: "creates_only freeze_kinds w (clone_pvc ns n opts)"
  unfolding clone_pvc_def clone_from_ready_def by (intro creates_intros) simp_all

lemma creates_clone_members [creates_intros]: "creates_only freeze_kinds w (clone_members ns opts ms)"
proof (induction ms)
  case (Cons m ms)
  show ?case unfolding clone_members.simps clone_pvc_from_member_def by (intro creates_intros Cons)
qed (unfold clone_members.simps, rule creates_basic)

lemma creates_delete_clones [creates_intros]: "creates_only Ks w (delete_clones ns ps acc)"
proof (induction ps arbitrary: acc)
  case (Cons p ps)
  show ?case unfolding delete_clones.simps by (intro creates_intros Cons)
qed (unfold delete_clones.simps, rule creates_basic)

lemma creates_clone_pvc_group [creates_intros]: "creates_only freeze_kinds w (clone_pvc_group f ns sel opts)"
  unfolding clone_pvc_group_def clone_and_bind_def by (intro creates_intros) simp_all

section \<open>The actions of a generic backup in order\<close>

fun is_database :: "action \<Rightarrow> bool" where
  "is_database (CNPGBackup x) = True"
| "is_database _ = False"

definition pre_kinds :: "action \<Rightarrow> kind set" where
  "pre_kinds a = (if is_database a then {KBackup} else freeze_kinds)"

lemma creates_pre_step:
  assumes "pre_step (action_ops as_selector) n c w a tr = (r, a', tr')"
  shows "\<exists>new. tr' = tr @ new \<and> kinds_created new \<subseteq> pre_kinds a"
proof -
  have "creates_only (pre_kinds a) w (case ra_before (action_ops as_selector a) of None \<Rightarrow> ret c
      | Some before \<Rightarrow> bnd (wrapping t before) (\<lambda>pinned. ret (track_earliest c pinned)))" for t
  proof (cases a)
    case (CNPGBackup x)
    then show ?thesis
      by (simp add: cnpg_backup_ops_def pre_kinds_def cnpg_backup_before_def create_cluster_backup_def) (intro creates_intros; simp)
  next
    case (FilesBackup x)
    then show ?thesis
      by (simp add: files_backup_ops_def pre_kinds_def files_backup_before_def) (intro creates_intros; simp)
  next
    case (FilesGroupBackup x)
    then show ?thesis
      by (simp add: files_group_backup_ops_def pre_kinds_def files_group_backup_before_def) (intro creates_intros; simp)
  qed (simp_all add: cnpg_restore_ops_def files_restore_ops_def files_group_restore_ops_def s3_sync_ops_def creates_basic(1))
  from creates_onlyD [OF this] assms show ?thesis by (simp add: pre_step_def prog_simps)
qed

text \<open>The loop of the pre-steps over actions of one sort.\<close>
lemma creates_pre_steps:
  "for_actions (pre_step (action_ops as_selector)) c w xs tr = (r, xs', tr') \<Longrightarrow> all_actions (\<lambda>a. pre_kinds a = Ks) xs \<Longrightarrow>
   \<exists>new. tr' = tr @ new \<and> kinds_created new \<subseteq> Ks"
proof (induction xs arbitrary: c tr r xs' tr')
  case (Cons nx xs)
  obtain n x where nx: "nx = (n, x)" by (cases nx)
  obtain r1 x1 tr1 where 1: "pre_step (action_ops as_selector) n c w x tr = (r1, x1, tr1)" by (rule prod_cases3)
  from creates_pre_step [OF 1] Cons.prems(2) nx obtain new1 where new1: "tr1 = tr @ new1" "kinds_created new1 \<subseteq> Ks" by auto
  show ?case
  proof (cases r1)
    case (Inl e)
    with Cons.prems(1) nx 1 new1 show ?thesis by auto
  next
    case (Inr c1)
    with Cons.prems(1) nx 1 obtain xs1 where "for_actions (pre_step (action_ops as_selector)) c1 w xs tr1 = (r, xs1, tr')"
      by (auto split: prod.splits)
    from Cons.IH [OF this] Cons.prems(2) nx obtain new2 where "tr' = tr1 @ new2" "kinds_created new2 \<subseteq> Ks" by auto
    with new1 show ?thesis by (intro exI [of _ "new1 @ new2"]) simp
  qed
qed simp

lemma for_actions_append:
  "for_actions f c w (xs @ ys) tr = (case for_actions f c w xs tr of
       (Inl e, xs', tr') \<Rightarrow> (Inl e, xs' @ ys, tr')
     | (Inr c', xs', tr') \<Rightarrow> (case for_actions f c' w ys tr' of (r, ys', tr'') \<Rightarrow> (r, xs' @ ys', tr'')))"
  by (induction f c w xs tr rule: for_actions.induct) (auto split: prod.splits sum.splits)

text \<open>Validation changes no action into one of another sort.\<close>
lemma validate_keeps_sort:
  "ra_validate (action_ops as_selector a) w a tr = (r, a', tr') \<Longrightarrow> is_database a' \<longleftrightarrow> is_database a"
  by (cases a) (auto simp: inside_def split: prod.splits)

lemma stage_validate_keeps_sorts:
  "stage_validate (action_ops as_selector) w xs tr = (r, xs', tr') \<Longrightarrow> map (is_database \<circ> snd) xs' = map (is_database \<circ> snd) xs"
  unfolding stage_validate_def
  by (induction xs arbitrary: tr r xs' tr')
    (fastforce simp: prog_simps split: prod.splits sum.splits dest: validate_keeps_sort)+

lemma map_each_sort:
  "map_each (\<lambda>x. with_action t (nm x) (configured C new (f x))) xs w s tr = (Inr ys, s', tr') \<Longrightarrow>
   (\<And>a. is_database (C a) = b) \<Longrightarrow> map (is_database \<circ> snd) ys = replicate (length xs) b"
  by (induction xs arbitrary: tr ys s)
    (auto simp: configured_def prog_simps with_local_def split: prod.splits sum.splits elim!: bnd_okE with_actionE)

lemma sort_kinds:
  "map (is_database \<circ> snd) xs = replicate m b \<Longrightarrow> all_actions (\<lambda>a. pre_kinds a = (if b then {KBackup} else freeze_kinds)) xs"
proof -
  assume "map (is_database \<circ> snd) xs = replicate m b"
  then have "all_actions (\<lambda>a. is_database a = b) xs"
    by (induction xs arbitrary: m) (auto simp: Cons_replicate_eq)
  then show ?thesis by (auto simp: all_actions_def pre_kinds_def)
qed

lemmas map_each_sorts =
  map_each_sort [where C = CNPGBackup and b = True, OF _ is_database.simps(1)]
  map_each_sort [where C = FilesBackup and b = False, simplified]
  map_each_sort [where C = FilesGroupBackup and b = False, simplified]
  map_each_sort [where C = S3SyncAction and b = False, simplified]

text \<open>The trace of the pre-steps of databases followed by other captures.\<close>
lemma pre_steps_split:
  assumes run: "for_actions (pre_step (action_ops as_selector)) c w (xs @ ys) tr = (r, zs, tr')"
    and xs: "map (is_database \<circ> snd) xs = replicate m True" and ys: "map (is_database \<circ> snd) ys = replicate n False"
  shows "\<exists>bases freezes. tr' = tr @ bases @ freezes \<and> kinds_created bases \<subseteq> {KBackup} \<and> kinds_created freezes \<subseteq> freeze_kinds"
proof -
  have xs: "all_actions (\<lambda>a. pre_kinds a = {KBackup}) xs" and ys: "all_actions (\<lambda>a. pre_kinds a = freeze_kinds) ys"
    by (rule sort_kinds [OF xs, unfolded if_True] sort_kinds [OF ys, unfolded if_False])+
  obtain r1 xs1 tr1 where 1: "for_actions (pre_step (action_ops as_selector)) c w xs tr = (r1, xs1, tr1)" by (rule prod_cases3)
  from creates_pre_steps [OF 1 xs] obtain bases where b: "tr1 = tr @ bases" "kinds_created bases \<subseteq> {KBackup}" by blast
  show ?thesis
  proof (cases r1)
    case (Inl e)
    with run 1 b show ?thesis by (intro exI [of _ bases] exI [of _ "[]"]) (simp add: for_actions_append)
  next
    case (Inr c1)
    with run 1 obtain ys1 where "for_actions (pre_step (action_ops as_selector)) c1 w ys tr1 = (r, ys1, tr')"
      by (auto simp: for_actions_append split: prod.splits)
    from creates_pre_steps [OF this ys] obtain freezes where "tr' = tr1 @ freezes" "kinds_created freezes \<subseteq> freeze_kinds" by blast
    with b show ?thesis by (intro exI [of _ bases] exI [of _ freezes]) simp
  qed
qed

lemma generic_backup_sorts:
  "generic_backup_actions getenv c v w s tr = (Inr xs, s', tr') \<Longrightarrow>
   \<exists>n. map (is_database \<circ> snd) xs = replicate (length (gbc_postgres c)) True @ replicate n False"
  unfolding generic_backup_actions_def Let_def
  by (elim bnd_okE) (auto dest!: map_each_sorts simp: replicate_add [symmetric])

text \<open>C4: the pre-steps of a generic backup take every base backup before they freeze the first volume: in the calls that
  they make, no base backup is created after a snapshot or a clone.\<close>
theorem base_backups_precede_freezes:
  assumes conf: "generic_backup_actions getenv c v w s tr = (Inr xs, s', tr')"
    and valid: "stage_validate (action_ops as_selector) w xs tr1 = (Inr u, ys, tr2)"
    and pre: "for_actions (pre_step (action_ops as_selector)) 0 w ys tr2 = (r, zs, tr3)"
  shows "\<exists>bases freezes. tr3 = tr2 @ bases @ freezes \<and>
    kinds_created bases \<subseteq> {KBackup} \<and> kinds_created freezes \<subseteq> {KSnapshot, KGroupSnapshot, KPVC, KPod}"
proof -
  from generic_backup_sorts [OF conf] stage_validate_keeps_sorts [OF valid] obtain m n
    where "map (is_database \<circ> snd) ys = replicate m True @ replicate n False" by metis
  then obtain dbs rest where "ys = dbs @ rest" "map (is_database \<circ> snd) dbs = replicate m True" "map (is_database \<circ> snd) rest = replicate n False"
    by (auto simp: map_eq_append_conv)
  with pre_steps_split [of as_selector 0 w dbs rest tr2 r zs tr3 m n] pre show ?thesis by (simp add: freeze_kinds_def)
qed

definition sample_pre_steps :: "(goerr + gotime) \<times> (string \<times> action) list \<times> trace" where
  "sample_pre_steps = (case sample_actions ''media'' of (Inl e, _, tr) \<Rightarrow> (Inl e, [], tr) | (Inr xs, _, tr) \<Rightarrow>
     bnd (stage_validate (action_ops (\<lambda>_. None))) (\<lambda>_. for_actions (pre_step (action_ops (\<lambda>_. None))) 0) sample_world xs [])"

lemma sample_pre_steps_ok:
  "case sample_pre_steps of (r, _, tr) \<Rightarrow> \<not> isl r \<and> kinds_created tr = {KBackup, KSnapshot, KPVC, KPod}"
  by code_simp

theorem base_backups_precede_freezes_witness:
  "\<exists>validation bases freezes. snd (snd sample_pre_steps) = validation @ bases @ freezes \<and> kinds_created bases \<subseteq> {KBackup} \<and>
     kinds_created freezes \<subseteq> {KSnapshot, KGroupSnapshot, KPVC, KPod} \<and> \<not> isl (fst sample_pre_steps) \<and>
     kinds_created (validation @ bases @ freezes) = {KBackup, KSnapshot, KPVC, KPod}"
proof -
  obtain xs u tr where m: "sample_actions ''media'' = (Inr xs, u, tr)"
    using sample_actions_ok(1) by (cases "sample_actions ''media''"; cases "fst (sample_actions ''media'')") auto
  obtain c zs tr3 where r: "sample_pre_steps = (Inr c, zs, tr3)" and kinds: "kinds_created tr3 = {KBackup, KSnapshot, KPVC, KPod}"
  proof -
    obtain r1 zs1 tr1 where 1: "sample_pre_steps = (r1, zs1, tr1)" by (rule prod_cases3)
    from sample_pre_steps_ok [unfolded 1 prod.case] have "\<not> isl r1" "kinds_created tr1 = {KBackup, KSnapshot, KPVC, KPod}" by auto
    with 1 that show thesis by (cases r1) simp_all
  qed
  from r m have "bnd (stage_validate (action_ops (\<lambda>_. None))) (\<lambda>_. for_actions (pre_step (action_ops (\<lambda>_. None))) 0) sample_world xs []
      = (Inr c, zs, tr3)" by (simp add: sample_pre_steps_def)
  then obtain v ys tr2 where "stage_validate (action_ops (\<lambda>_. None)) sample_world xs [] = (Inr v, ys, tr2)"
    and "for_actions (pre_step (action_ops (\<lambda>_. None))) 0 sample_world ys tr2 = (Inr c, zs, tr3)" by (rule bnd_okE)
  from base_backups_precede_freezes [OF m [unfolded sample_actions_def] this] obtain bases freezes where
    "tr3 = tr2 @ bases @ freezes" "kinds_created bases \<subseteq> {KBackup}" "kinds_created freezes \<subseteq> {KSnapshot, KGroupSnapshot, KPVC, KPod}"
    by blast
  with kinds show ?thesis unfolding r fst_conv snd_conv
    by - (rule exI [of _ tr2], rule exI [of _ bases], rule exI [of _ freezes], simp)
qed

end
