(* ===== verification/Labels.thy ===== *)
theory Labels
  imports Prelude "HOL-Library.Char_ord"
begin

text \<open>
  \<^verbatim>\<open>src/pkg/cli/features/kubecluster.go\<close>: the labels file, usually a downward API volume, and the
  construction of the cluster client.  The functions of Go's standard library that the parser rests on
  (bufio.Scanner over lines, strings.TrimSpace, strings.Cut, strconv.Unquote) are written out over the bytes of the
  file.  The property is that the labels a downward API volume holds are read back, those of the enabled names.
\<close>

section \<open>bufio.Scanner over lines\<close>

definition newline :: char where "newline = CHR 0x0A"
definition carriage_return :: char where "carriage_return = CHR 0x0D"

definition drop_cr :: "string \<Rightarrow> string" where
  "drop_cr l = (if l \<noteq> [] \<and> last l = carriage_return then butlast l else l)"

text \<open>MaxScanTokenSize: a line must end within the buffer.\<close>
definition max_scan_token_size :: nat where "max_scan_token_size = 65536"

fun split_lines :: "string \<Rightarrow> string \<Rightarrow> string list" where
  "split_lines acc [] = (if acc = [] then [] else [rev acc])"
| "split_lines acc (c # cs) = (if c = newline then rev acc # split_lines [] cs else split_lines (c # acc) cs)"

text \<open>The lines that Scan delivers, and what Err says when it stops; \<^verbatim>\<open>read_error\<close> is that of the reader.\<close>
fun scan_tokens :: "error \<Rightarrow> string list \<Rightarrow> string list \<times> error" where
  "scan_tokens read_error [] = ([], read_error)"
| "scan_tokens read_error (l # ls) = (if length l \<ge> max_scan_token_size then ([], Some (errorf ''token too long''))
     else (case scan_tokens read_error ls of (ts, e) \<Rightarrow> (drop_cr l # ts, e)))"

section \<open>strings\<close>

text \<open>The encodings of the characters that unicode.IsSpace accepts.\<close>
definition spaces :: "string list" where
  "spaces = map (map char_of) [[0x09 :: nat], [0x0A], [0x0B], [0x0C], [0x0D], [0x20], [0xC2, 0x85], [0xC2, 0xA0], [0xE1, 0x9A, 0x80],
     [0xE2, 0x80, 0x80], [0xE2, 0x80, 0x81], [0xE2, 0x80, 0x82], [0xE2, 0x80, 0x83], [0xE2, 0x80, 0x84], [0xE2, 0x80, 0x85],
     [0xE2, 0x80, 0x86], [0xE2, 0x80, 0x87], [0xE2, 0x80, 0x88], [0xE2, 0x80, 0x89], [0xE2, 0x80, 0x8A], [0xE2, 0x80, 0xA8],
     [0xE2, 0x80, 0xA9], [0xE2, 0x80, 0xAF], [0xE2, 0x81, 0x9F], [0xE3, 0x80, 0x80]]"

text \<open>Dropping one of the given non-empty words from the front as long as one is there.\<close>
function drop_words :: "string list \<Rightarrow> string \<Rightarrow> string" where
  "drop_words ws s = (case List.find (\<lambda>u. u \<noteq> [] \<and> take (length u) s = u) ws of
      None \<Rightarrow> s
    | Some u \<Rightarrow> if s = [] then s else drop_words ws (drop (length u) s))"
  by pat_completeness auto
termination
  by (relation "measure (\<lambda>(ws, s). length s)") (auto simp: find_Some_iff)

declare drop_words.simps [simp del]

definition trim_space :: "string \<Rightarrow> string" where
  "trim_space s = rev (drop_words (map rev spaces) (rev (drop_words spaces s)))"

text \<open>strings.Cut at a one-byte separator.\<close>
fun cut :: "char \<Rightarrow> string \<Rightarrow> string \<times> string \<times> bool" where
  "cut sep [] = ([], [], False)"
| "cut sep (c # cs) = (if c = sep then ([], cs, True)
     else (case cut sep cs of (before, after, found) \<Rightarrow> (c # before, after, found)))"

section \<open>strconv.Unquote\<close>

abbreviation byte :: "char \<Rightarrow> nat" where "byte \<equiv> of_char"

text \<open>The length of the UTF-8 encoding of a character at the front, 0 when there is none.\<close>
definition utf8_length :: "string \<Rightarrow> nat" where
  "utf8_length s = (let cont = (\<lambda>i lo hi. i < length s \<and> lo \<le> byte (s ! i) \<and> byte (s ! i) \<le> hi) in case s of
      [] \<Rightarrow> 0
    | c # _ \<Rightarrow> let b = byte c in
        if b < 0x80 then 1
        else if 0xC2 \<le> b \<and> b \<le> 0xDF then (if cont 1 0x80 0xBF then 2 else 0)
        else if 0xE0 \<le> b \<and> b \<le> 0xEF then
          (if cont 1 (if b = 0xE0 then 0xA0 else 0x80) (if b = 0xED then 0x9F else 0xBF) \<and> cont 2 0x80 0xBF then 3 else 0)
        else if 0xF0 \<le> b \<and> b \<le> 0xF4 then
          (if cont 1 (if b = 0xF0 then 0x90 else 0x80) (if b = 0xF4 then 0x8F else 0xBF) \<and> cont 2 0x80 0xBF \<and> cont 3 0x80 0xBF
           then 4 else 0)
        else 0)"

definition rune_error :: string where "rune_error = [CHR 0xEF, CHR 0xBF, CHR 0xBD]"

definition valid_rune :: "nat \<Rightarrow> bool" where
  "valid_rune v \<longleftrightarrow> v < 0xD800 \<or> 0xDFFF < v \<and> v \<le> 0x10FFFF"

definition utf8_encode :: "nat \<Rightarrow> string" where
  "utf8_encode v = map char_of (
     if v < 0x80 then [v]
     else if v < 0x800 then [0xC0 + v div 64, 0x80 + v mod 64]
     else if v < 0x10000 then [0xE0 + v div 4096, 0x80 + v div 64 mod 64, 0x80 + v mod 64]
     else [0xF0 + v div 262144, 0x80 + v div 4096 mod 64, 0x80 + v div 64 mod 64, 0x80 + v mod 64])"

definition unhex :: "char \<Rightarrow> nat option" where
  "unhex c = (let b = byte c in
     if 48 \<le> b \<and> b \<le> 57 then Some (b - 48)
     else if 97 \<le> b \<and> b \<le> 102 then Some (b - 87)
     else if 65 \<le> b \<and> b \<le> 70 then Some (b - 55) else None)"

definition unoctal :: "char \<Rightarrow> nat option" where
  "unoctal c = (let b = byte c in if 48 \<le> b \<and> b \<le> 55 then Some (b - 48) else None)"

text \<open>The value of the first n digits.\<close>
fun digits_of :: "(char \<Rightarrow> nat option) \<Rightarrow> nat \<Rightarrow> nat \<Rightarrow> nat \<Rightarrow> string \<Rightarrow> (nat \<times> string) option" where
  "digits_of digit base v 0 s = Some (v, s)"
| "digits_of digit base v (Suc n) [] = None"
| "digits_of digit base v (Suc n) (c # s) = (case digit c of None \<Rightarrow> None | Some x \<Rightarrow> digits_of digit base (v * base + x) n s)"

definition simple_escapes :: "(char \<times> nat) list" where
  "simple_escapes = [(CHR ''a'', 7), (CHR ''b'', 8), (CHR ''f'', 12), (CHR ''n'', 10), (CHR ''r'', 13), (CHR ''t'', 9), (CHR ''v'', 11),
     (CHR 0x5C, 0x5C)]"

text \<open>UnquoteChar on a non-empty string: the bytes of the character, and the rest; None is ErrSyntax.\<close>
definition unquote_char :: "char \<Rightarrow> string \<Rightarrow> (string \<times> string) option" where
  "unquote_char quote s = (let c = hd s in
     if c = quote then None
     else if byte c \<ge> 0x80 then (let n = utf8_length s in
       Some (if n = 0 then (rune_error, drop 1 s) else (take n s, drop n s)))
     else if c \<noteq> CHR 0x5C then Some ([c], drop 1 s)
     else (case drop 1 s of
         [] \<Rightarrow> None
       | e # r \<Rightarrow>
         (case map_of simple_escapes e of
            Some v \<Rightarrow> Some ([char_of v], r)
          | None \<Rightarrow>
            if e = CHR ''x'' then map_option (\<lambda>(v, r'). ([char_of v], r')) (digits_of unhex 16 0 2 r)
            else if e = CHR ''u'' \<or> e = CHR ''U'' then
              (case digits_of unhex 16 0 (if e = CHR ''u'' then 4 else 8) r of
                 None \<Rightarrow> None | Some (v, r') \<Rightarrow> if valid_rune v then Some (utf8_encode v, r') else None)
            else if unoctal e \<noteq> None then
              (case digits_of unoctal 8 0 3 (e # r) of
                 None \<Rightarrow> None | Some (v, r') \<Rightarrow> if v > 255 then None else Some ([char_of v], r'))
            else if e = quote then Some ([e], r) else None)))"

lemma digits_of_numeral:
  "digits_of digit base v (numeral k) [] = None"
  "digits_of digit base v (numeral k) (c # s) = (case digit c of None \<Rightarrow> None | Some x \<Rightarrow> digits_of digit base (v * base + x) (pred_numeral k) s)"
  by (simp_all add: numeral_eq_Suc)

lemma digits_of_shorter: "digits_of digit base v n s = Some (v', r) \<Longrightarrow> length r \<le> length s"
  by (induction digit base v n s rule: digits_of.induct) (auto split: option.splits)

lemma unquote_char_shorter: "s \<noteq> [] \<Longrightarrow> unquote_char quote s = Some (u, r) \<Longrightarrow> length r < length s"
  by (cases s; cases "tl s")
    (auto simp: unquote_char_def Let_def drop_Cons' split: if_splits option.splits dest!: digits_of_shorter)

text \<open>The loop of unquote over the characters behind the opening quote: the bytes, and what is left.\<close>
function unquote_chars :: "char \<Rightarrow> bool \<Rightarrow> string \<Rightarrow> string \<Rightarrow> (string \<times> string) option" where
  "unquote_chars quote one acc s =
     (if s = [] \<or> hd s = quote then Some (acc, s)
      else if hd s = newline then None
      else case unquote_char quote s of
          None \<Rightarrow> None
        | Some (u, r) \<Rightarrow> if one then Some (acc @ u, r) else unquote_chars quote one (acc @ u) r)"
  by pat_completeness auto
termination
  by (relation "measure (\<lambda>(quote, one, acc, s). length s)") (auto dest: unquote_char_shorter)

declare unquote_chars.simps [simp del]

definition unquote :: "string \<Rightarrow> string option" where
  "unquote s = (if length s < 2 then None else let quote = hd s in
     if quote \<notin> set (tl s) then None
     else if quote = CHR ''`'' then (case cut quote (tl s) of (body, rest, _) \<Rightarrow>
         if rest = [] then Some (filter (\<lambda>c. c \<noteq> carriage_return) body) else None)
     else if quote = CHR 0x22 \<or> quote = CHR 0x27 then
       (case unquote_chars quote (quote = CHR 0x27) [] (tl s) of
          None \<Rightarrow> None
        | Some (out, rest) \<Rightarrow> if rest = [quote] then Some out else None)
     else None)"

section \<open>kubecluster.go: getLabels\<close>

record labels_file =
  lf_stat :: error
  lf_open :: error
  lf_content :: string
  lf_read :: error
  lf_close :: error

fun parse_labels :: "string list \<Rightarrow> (string \<rightharpoonup> string) \<Rightarrow> string list \<Rightarrow> goerr + (string \<rightharpoonup> string)" where
  "parse_labels enabled labels [] = Inr labels"
| "parse_labels enabled labels (l # ls) =
     (let line = trim_space l in
      if line = [] then parse_labels enabled labels ls
      else (case cut (CHR ''='') line of (key, val, found) \<Rightarrow>
        if \<not> found then Inl (errorf ''line missing separator'')
        else if key \<notin> set enabled then parse_labels enabled labels ls
        else (case unquote val of
            None \<Rightarrow> Inl (WrapErr ''unquote value'' (errorf ''invalid syntax''))
          | Some u \<Rightarrow> parse_labels enabled (labels(key \<mapsto> u)) ls)))"

text \<open>What the function would return if closing the file did not matter.\<close>
definition read_labels :: "string list \<Rightarrow> labels_file \<Rightarrow> goerr + (string \<rightharpoonup> string)" where
  "read_labels enabled f = (case scan_tokens (lf_read f) (split_lines [] (lf_content f)) of (lines, scan_error) \<Rightarrow>
     (case parse_labels enabled Map.empty lines of
        Inl e \<Rightarrow> Inl e
      | Inr labels \<Rightarrow> (case scan_error of Some e \<Rightarrow> Inl (WrapErr ''read labels file'' e) | None \<Rightarrow> Inr labels)))"

text \<open>No labels (nil) without a path or a file.  The deferred close merges its error into the result.\<close>
definition get_labels :: "string \<Rightarrow> string list \<Rightarrow> labels_file \<Rightarrow> goerr + (string \<rightharpoonup> string) option" where
  "get_labels path enabled f =
     (if path = [] then Inr None
      else case lf_stat f of
        Some e \<Rightarrow> if is_kind NotExist e then Inr None else Inl (WrapErr ''check if labels file exists'' e)
      | None \<Rightarrow> (case lf_open f of
          Some e \<Rightarrow> Inl (WrapErr ''open labels file'' e)
        | None \<Rightarrow> (case (read_labels enabled f, trace_wrap ''close labels file'' (lf_close f)) of
            (Inr labels, None) \<Rightarrow> Inr (Some labels)
          | (r, close_error) \<Rightarrow> Inl (the (new_aggregate [case r of Inl e \<Rightarrow> Some e | Inr _ \<Rightarrow> None, close_error])))))"

definition default_enabled_labels :: "string list" where
  "default_enabled_labels = [''app.kubernetes.io/name'', ''app.kubernetes.io/instance'']"

section \<open>Reading a downward API volume\<close>

text \<open>The characters of label names and values.\<close>
definition label_char :: "char \<Rightarrow> bool" where
  "label_char c = (let b = byte c in 97 \<le> b \<and> b \<le> 122 \<or> 65 \<le> b \<and> b \<le> 90 \<or> 48 \<le> b \<and> b \<le> 57 \<or> b \<in> {45, 46, 47, 95})"

definition label_text :: "string \<Rightarrow> bool" where "label_text s \<longleftrightarrow> list_all label_char s"

text \<open>A line of the volume's file, without its end.\<close>
definition label_line :: "string \<times> string \<Rightarrow> string" where
  "label_line kv = fst kv @ ''='' @ [CHR 0x22] @ snd kv @ [CHR 0x22]"

definition downward_file :: "(string \<times> string) list \<Rightarrow> string" where
  "downward_file kvs = concat (map (\<lambda>kv. label_line kv @ [newline]) kvs)"

definition label_ok :: "string \<times> string \<Rightarrow> bool" where
  "label_ok kv \<longleftrightarrow> fst kv \<noteq> [] \<and> label_text (fst kv) \<and> label_text (snd kv) \<and> length (fst kv) + length (snd kv) < 65000"

lemma label_char_plain:
  assumes "label_char c"
  shows "byte c < 0x80" "c \<noteq> CHR 0x22" "c \<noteq> CHR 0x5C" "c \<noteq> newline" "c \<noteq> carriage_return" "c \<noteq> CHR ''=''"
    "u \<in> set spaces \<Longrightarrow> hd u \<noteq> c"
  using assms by (auto simp: label_char_def Let_def newline_def carriage_return_def spaces_def)

lemma label_text_plain:
  assumes "label_text s"
  shows "newline \<notin> set s" "CHR ''='' \<notin> set s" "CHR 0x22 \<notin> set s"
proof -
  have "\<not> label_char newline" "\<not> label_char (CHR ''='')" "\<not> label_char (CHR 0x22)"
    by (simp_all add: label_char_def newline_def)
  with assms show "newline \<notin> set s" "CHR ''='' \<notin> set s" "CHR 0x22 \<notin> set s"
    by (auto simp: label_text_def list_all_iff)
qed

lemma split_lines_line: "newline \<notin> set l \<Longrightarrow> split_lines acc (l @ newline # cs) = (rev acc @ l) # split_lines [] cs"
  by (induction l arbitrary: acc) auto

lemma label_line_plain: "label_ok kv \<Longrightarrow> newline \<notin> set (label_line kv)"
  by (auto simp: label_ok_def label_line_def newline_def dest!: label_text_plain(1))

lemma split_downward_file: "list_all label_ok kvs \<Longrightarrow> split_lines [] (downward_file kvs) = map label_line kvs"
  by (induction kvs) (simp_all add: downward_file_def split_lines_line label_line_plain)

lemma drop_cr_label_line: "drop_cr (label_line kv) = label_line kv"
  by (simp add: drop_cr_def label_line_def carriage_return_def)

lemma scan_label_lines:
  "list_all label_ok kvs \<Longrightarrow> scan_tokens e (map label_line kvs) = (map label_line kvs, e)"
proof (induction kvs)
  case (Cons kv kvs)
  then have "length (label_line kv) < max_scan_token_size" by (simp add: label_ok_def label_line_def max_scan_token_size_def)
  with Cons show ?case by (simp add: drop_cr_label_line)
qed simp

lemma drop_words_none: "s \<noteq> [] \<Longrightarrow> \<forall>u \<in> set ws. u \<noteq> [] \<longrightarrow> hd u \<noteq> hd s \<Longrightarrow> drop_words ws s = s"
proof -
  assume s: "s \<noteq> []" and ws: "\<forall>u \<in> set ws. u \<noteq> [] \<longrightarrow> hd u \<noteq> hd s"
  have "take (length u) s \<noteq> u" if "u \<in> set ws" "u \<noteq> []" for u
  proof
    assume "take (length u) s = u"
    with that(2) s have "hd u = hd s" by (metis hd_take length_greater_0_conv)
    with that ws show False by blast
  qed
  then have "List.find (\<lambda>u. u \<noteq> [] \<and> take (length u) s = u) ws = None" by (auto simp: find_None_iff)
  then show ?thesis by (subst drop_words.simps) simp
qed

lemma trim_label_line: "label_ok kv \<Longrightarrow> trim_space (label_line kv) = label_line kv"
proof -
  assume ok: "label_ok kv"
  then obtain c cs where c: "fst kv = c # cs" "label_char c" by (cases "fst kv") (auto simp: label_ok_def label_text_def)
  have "drop_words spaces (label_line kv) = label_line kv"
    by (rule drop_words_none) (use c label_char_plain(7) in \<open>auto simp: label_line_def\<close>)
  moreover have "drop_words (map rev spaces) (rev (label_line kv)) = rev (label_line kv)"
  proof (rule drop_words_none)
    have "\<forall>u \<in> set (map rev spaces). u \<noteq> [] \<longrightarrow> hd u \<noteq> CHR 0x22" by code_simp
    then show "\<forall>u \<in> set (map rev spaces). u \<noteq> [] \<longrightarrow> hd u \<noteq> hd (rev (label_line kv))" by (simp add: label_line_def)
  qed (simp add: label_line_def)
  ultimately show ?thesis by (simp add: trim_space_def)
qed

lemma cut_first: "sep \<notin> set k \<Longrightarrow> cut sep (k @ sep # v) = (k, v, True)"
  by (induction k) auto

lemma unquote_chars_plain:
  "label_text s \<Longrightarrow> unquote_chars (CHR 0x22) False acc (s @ [CHR 0x22]) = Some (acc @ s, [CHR 0x22])"
proof (induction s arbitrary: acc)
  case Nil
  show ?case by (subst unquote_chars.simps) simp
next
  case (Cons c s)
  then have c: "label_char c" and s: "label_text s" by (simp_all add: label_text_def)
  have "unquote_char (CHR 0x22) (c # s @ [CHR 0x22]) = Some ([c], s @ [CHR 0x22])"
    using label_char_plain [OF c] by (simp add: unquote_char_def)
  with label_char_plain [OF c] Cons.IH [OF s] show ?case by (subst unquote_chars.simps) simp
qed

lemma unquote_label: "label_text v \<Longrightarrow> unquote (CHR 0x22 # v @ [CHR 0x22]) = Some v"
  using unquote_chars_plain [of v "[]"] by (simp add: unquote_def)

lemma parse_label_lines:
  "list_all label_ok kvs \<Longrightarrow> parse_labels enabled m (map label_line kvs) =
     Inr (m ++ map_of (rev (filter (\<lambda>kv. fst kv \<in> set enabled) kvs)))"
proof (induction kvs arbitrary: m)
  case (Cons kv kvs)
  then have ok: "label_ok kv" by simp
  then have k: "CHR ''='' \<notin> set (fst kv)" and v: "label_text (snd kv)" by (auto simp: label_ok_def dest: label_text_plain)
  have "label_line kv \<noteq> []" by (simp add: label_line_def)
  moreover have "cut (CHR ''='') (label_line kv) = (fst kv, CHR 0x22 # snd kv @ [CHR 0x22], True)"
    using cut_first [OF k] by (simp add: label_line_def)
  ultimately show ?case
    using Cons trim_label_line [OF ok] unquote_label [OF v] by (cases kv) (auto simp: map_add_def fun_eq_iff split: option.splits)
qed simp



text \<open>Escapes, and what a quoted string may not hold.\<close>
lemma unquote_examples:
  "unquote [CHR 0x22, CHR ''a'', CHR 0x5C, CHR ''x'', CHR ''4'', CHR ''1'', CHR 0x22] = Some ''aA''"
  "unquote [CHR 0x22, CHR 0x5C, CHR ''u'', CHR ''0'', CHR ''0'', CHR ''e'', CHR ''9'', CHR 0x22] = Some [CHR 0xC3, CHR 0xA9]"
  "unquote [CHR 0x22, CHR 0x5C, CHR ''1'', CHR ''0'', CHR ''1'', CHR 0x22] = Some ''A''"
  "unquote [CHR 0x22, newline, CHR 0x22] = None"
  "unquote [CHR 0x27, CHR ''a'', CHR ''b'', CHR 0x27] = None"
  "unquote [CHR 0x22, CHR 0xFF, CHR 0x22] = Some rune_error"
  by (simp_all add: unquote_def unquote_chars.simps unquote_char_def simple_escapes_def utf8_length_def utf8_encode_def valid_rune_def
      unhex_def unoctal_def newline_def rune_error_def digits_of_numeral char_of_eq_iff Let_def)

section \<open>kubecluster.go: NewKubeClusterClient\<close>

datatype client_kind = CertManager | Cnpg | ExternalSnapshotter | CoreClient | ApproverPolicy | BarmanCloud

text \<open>The clients in the order of their construction, with the labels each was given; only two are given any.\<close>
fun build_clients :: "(client_kind \<Rightarrow> error) \<Rightarrow> (string \<rightharpoonup> string) option \<Rightarrow> client_kind list
    \<Rightarrow> goerr + (client_kind \<times> (string \<rightharpoonup> string) option) list" where
  "build_clients new_client labels [] = Inr []"
| "build_clients new_client labels (k # ks) = (case new_client k of
      Some e \<Rightarrow> Inl (WrapErr ''create client'' e)
    | None \<Rightarrow> (case build_clients new_client labels ks of
        Inl e \<Rightarrow> Inl e
      | Inr cs \<Rightarrow> Inr ((k, if k = Cnpg \<or> k = CoreClient then labels else None) # cs)))"

definition new_kube_cluster_client :: "error \<Rightarrow> goerr + (string \<rightharpoonup> string) option \<Rightarrow> (client_kind \<Rightarrow> error)
    \<Rightarrow> goerr + (client_kind \<times> (string \<rightharpoonup> string) option) list" where
  "new_kube_cluster_client config_error labels new_client = (case config_error of
      Some e \<Rightarrow> Inl (WrapErr ''get kubernetes config'' e)
    | None \<Rightarrow> (case labels of
        Inl e \<Rightarrow> Inl (WrapErr ''get common labels'' e)
      | Inr l \<Rightarrow> build_clients new_client l [CertManager, Cnpg, ExternalSnapshotter, CoreClient, ApproverPolicy, BarmanCloud]))"

end
