(* ===== verification/Contexts.thy ===== *)
theory Contexts
  imports Timestamps Cleanup
begin

text \<open>
  \<^verbatim>\<open>src/pkg/contexts\<close> (context.go, logging.go, stopwatch.go) and the context that
  \<^verbatim>\<open>src/pkg/cleanup/cleanup.go\<close> builds for a cleanup.  Contexts and loggers are shared by
  pointer and changed in place, so they live in a heap: an identifier is an index into the list of all
  contexts, or of all loggers, made so far.  A cancel function is the token it marks as dead.  The rules of
  \<^verbatim>\<open>heap_step\<close> are the operations; in every heap they reach a parent is older than its child,
  which makes IsChildOf return, and decides which contexts a cancellation reaches.  The logger underneath
  (charmbracelet/log) is its accumulated key-value pairs; levels and formatting are its own.
\<close>

section \<open>logging.go: deferred key-value pairs\<close>

datatype logval = VString string | VDuration duration | VError goerr

text \<open>An argument of a log call; a deferred one reads the state of the moment in which the line is written.\<close>
datatype 'h logarg = Given logval | DeferredKeyval "'h \<Rightarrow> logval list"

definition new_deferred_keyval :: "string \<Rightarrow> ('h \<Rightarrow> logval) \<Rightarrow> 'h logarg" where
  "new_deferred_keyval key value = DeferredKeyval (\<lambda>h. [VString key, value h])"

text \<open>The argument is a pointer to an error variable, or nil.\<close>
definition error_keyvals :: "('h \<Rightarrow> error) option \<Rightarrow> 'h logarg" where
  "error_keyvals err = DeferredKeyval (\<lambda>h. case err of None \<Rightarrow> []
     | Some var \<Rightarrow> (case var h of None \<Rightarrow> [] | Some e \<Rightarrow> [VString ''error'', VError e]))"

fun process_deferred_keyvals :: "'h \<Rightarrow> 'h logarg list \<Rightarrow> logval list" where
  "process_deferred_keyvals h [] = []"
| "process_deferred_keyvals h (Given v # args) = v # process_deferred_keyvals h args"
| "process_deferred_keyvals h (DeferredKeyval f # args) = f h @ process_deferred_keyvals h args"

definition process_logf_call :: "string \<Rightarrow> 'h \<Rightarrow> string \<Rightarrow> 'h logarg list \<Rightarrow> string \<times> logval list" where
  "process_logf_call pre h msg args =
     (if pre \<noteq> [] then pre @ '' '' @ msg else msg, process_deferred_keyvals h args)"

text \<open>A nil message is the empty one.\<close>
definition process_log_call :: "string \<Rightarrow> 'h \<Rightarrow> string option \<Rightarrow> 'h logarg list \<Rightarrow> string \<times> logval list" where
  "process_log_call pre h msg args = process_logf_call pre h (case msg of None \<Rightarrow> [] | Some m \<Rightarrow> m) args"

section \<open>The heap\<close>

record logger =
  lg_keyvals :: "logval list"
  lg_steps :: int
  lg_prefix :: string

text \<open>A standard library context: what \<^verbatim>\<open>context.Context\<close> points to.  \<^verbatim>\<open>ContextOf\<close>
  is a context of this package used as one; \<^verbatim>\<open>External\<close> is one made by another library.\<close>
datatype base =
    Background
  | WithCancel nat base
  | WithDeadline nat gotime base
  | External nat
  | ContextOf nat

record ctx_obj =
  co_base :: base
  co_log :: nat
  co_start :: gotime
  co_parent :: "nat option"

record heap =
  hp_loggers :: "logger list"
  hp_contexts :: "ctx_obj list"
  hp_tokens :: nat
  hp_dead :: "nat list"

definition empty_heap :: heap where
  "empty_heap = \<lparr> hp_loggers = [], hp_contexts = [], hp_tokens = 0, hp_dead = [] \<rparr>"

section \<open>logging.go: loggers\<close>

definition new_logger_context :: "heap \<Rightarrow> logger \<Rightarrow> heap \<times> nat" where
  "new_logger_context h lg = (h\<lparr>hp_loggers := hp_loggers h @ [lg]\<rparr>, length (hp_loggers h))"

definition fresh_logger :: "logval list \<Rightarrow> string \<Rightarrow> logger" where
  "fresh_logger kvs pre = \<lparr> lg_keyvals = kvs, lg_steps = 0, lg_prefix = pre \<rparr>"

definition get_step_prefix :: "string \<Rightarrow> int \<Rightarrow> string" where
  "get_step_prefix pre n = (if n > 0 then pre @ ''('' @ decimal (nat n) @ '')'' else pre)"

definition set_logger :: "nat \<Rightarrow> (logger \<Rightarrow> logger) \<Rightarrow> heap \<Rightarrow> heap" where
  "set_logger l f h = h\<lparr>hp_loggers := (hp_loggers h)[l := f (hp_loggers h ! l)]\<rparr>"

definition logger_child :: "heap \<Rightarrow> nat \<Rightarrow> heap \<times> nat" where
  "logger_child h l = (let lg = hp_loggers h ! l in
     new_logger_context h (fresh_logger (lg_keyvals lg) (get_step_prefix (lg_prefix lg) (lg_steps lg) @ '':::'')))"

definition set_prefix :: "heap \<Rightarrow> nat \<Rightarrow> string \<Rightarrow> heap" where
  "set_prefix h l p = set_logger l (\<lambda>lg. lg\<lparr>lg_prefix := p\<rparr>) h"

definition get_prefix :: "heap \<Rightarrow> nat \<Rightarrow> string" where
  "get_prefix h l = lg_prefix (hp_loggers h ! l)"

text \<open>With changes the logger it is called on and returns it.\<close>
definition logger_with :: "heap \<Rightarrow> nat \<Rightarrow> logval list \<Rightarrow> heap" where
  "logger_with h l kvs = set_logger l (\<lambda>lg. lg\<lparr>lg_keyvals := lg_keyvals lg @ kvs\<rparr>) h"

definition logger_step :: "heap \<Rightarrow> nat \<Rightarrow> heap \<times> nat" where
  "logger_step h l = (let h1 = set_logger l (\<lambda>lg. lg\<lparr>lg_steps := lg_steps lg + 1\<rparr>) h; lg = hp_loggers h1 ! l in
     new_logger_context h1 (fresh_logger (lg_keyvals lg) (get_step_prefix (lg_prefix lg) (lg_steps lg))))"

text \<open>A line of the log: the logger's pairs, the message behind the prefix, and the call's pairs.\<close>
definition log_line :: "heap \<Rightarrow> nat \<Rightarrow> 'h \<Rightarrow> string \<Rightarrow> 'h logarg list \<Rightarrow> logval list \<times> string \<times> logval list" where
  "log_line h l st msg args = (lg_keyvals (hp_loggers h ! l), process_log_call (get_prefix h l) st (Some msg) args)"

text \<open>The methods Log, Debug, Info, Warn, Error, Fatal and Print, and their formatting twins: the underlying logger's method of
  that level is called with the processed message and pairs, or with the processed format and arguments.\<close>
datatype log_level = DebugLevel | InfoLevel | WarnLevel | ErrorLevel | FatalLevel | PrintLevel

definition log_at :: "log_level \<Rightarrow> heap \<Rightarrow> nat \<Rightarrow> 'h \<Rightarrow> string option \<Rightarrow> 'h logarg list \<Rightarrow> log_level \<times> string \<times> logval list" where
  "log_at level h l st msg args = (level, process_log_call (get_prefix h l) st msg args)"

definition logf_at :: "log_level \<Rightarrow> heap \<Rightarrow> nat \<Rightarrow> 'h \<Rightarrow> string \<Rightarrow> 'h logarg list \<Rightarrow> log_level \<times> string \<times> logval list" where
  "logf_at level h l st format args = (level, process_logf_call (get_prefix h l) st format args)"

lemma log_line_at: "snd (log_line h l st msg args) = snd (log_at level h l st (Some msg) args)"
  by (simp add: log_line_def log_at_def)

section \<open>stopwatch.go\<close>

definition elapsed :: "gotime \<Rightarrow> gotime \<Rightarrow> duration" where
  "elapsed start now = now - start"

text \<open>The clock is part of the state that deferred pairs read.\<close>
definition stopwatch_keyval :: "('h \<Rightarrow> gotime) \<Rightarrow> gotime \<Rightarrow> 'h logarg" where
  "stopwatch_keyval clock start = new_deferred_keyval ''runtime'' (\<lambda>h. VDuration (elapsed start (clock h)))"

section \<open>context.go\<close>

definition add_context :: "heap \<Rightarrow> ctx_obj \<Rightarrow> heap \<times> nat" where
  "add_context h c = (h\<lparr>hp_contexts := hp_contexts h @ [c]\<rparr>, length (hp_contexts h))"

definition new_context :: "heap \<Rightarrow> gotime \<Rightarrow> base \<Rightarrow> heap \<times> nat" where
  "new_context h now b = (case new_logger_context h (fresh_logger [] []) of (h1, l) \<Rightarrow>
     add_context h1 \<lparr> co_base = b, co_log = l, co_start = now,
       co_parent = (case b of ContextOf p \<Rightarrow> Some p | _ \<Rightarrow> None) \<rparr>)"

definition set_context :: "nat \<Rightarrow> (ctx_obj \<Rightarrow> ctx_obj) \<Rightarrow> heap \<Rightarrow> heap" where
  "set_context c f h = h\<lparr>hp_contexts := (hp_contexts h)[c := f (hp_contexts h ! c)]\<rparr>"

definition with_logger :: "heap \<Rightarrow> nat \<Rightarrow> nat \<Rightarrow> heap" where
  "with_logger h c l = set_context c (\<lambda>x. x\<lparr>co_log := l\<rparr>) h"

definition context_child :: "heap \<Rightarrow> gotime \<Rightarrow> nat \<Rightarrow> heap \<times> nat" where
  "context_child h now c = (let x = hp_contexts h ! c in
     case logger_child h (co_log x) of (h1, l) \<Rightarrow>
     add_context h1 (x\<lparr>co_start := now, co_log := l, co_parent := Some c\<rparr>))"

text \<open>The receiver itself gets the deadline; the result is its cancel function.\<close>
definition with_timeout :: "heap \<Rightarrow> gotime \<Rightarrow> nat \<Rightarrow> duration \<Rightarrow> heap \<times> nat" where
  "with_timeout h now c t = (let k = hp_tokens h; b = co_base (hp_contexts h ! c) in
     (set_context c (\<lambda>x. x\<lparr>co_base := (if t = 0 then WithCancel k b else WithDeadline k (now + t) b)\<rparr>)
        (h\<lparr>hp_tokens := Suc k\<rparr>), k))"

definition cancel :: "heap \<Rightarrow> nat \<Rightarrow> heap" where
  "cancel h k = h\<lparr>hp_dead := k # hp_dead h\<rparr>"

text \<open>None when it does not return.\<close>
partial_function (option) is_child_of :: "heap \<Rightarrow> nat \<Rightarrow> nat \<Rightarrow> bool option" where
  "is_child_of h c p = (case co_parent (hp_contexts h ! c) of
      None \<Rightarrow> Some False
    | Some q \<Rightarrow> if q = p then Some True else is_child_of h q p)"

definition wrap_handler_context :: "heap \<Rightarrow> base \<Rightarrow> nat \<Rightarrow> heap \<times> base" where
  "wrap_handler_context h call c = (set_context c (\<lambda>x. x\<lparr>co_base := call\<rparr>) h, ContextOf c)"

definition unwrap_handler_context :: "heap \<Rightarrow> gotime \<Rightarrow> base \<Rightarrow> heap \<times> nat" where
  "unwrap_handler_context h now b = (case b of ContextOf c \<Rightarrow> (h, c)
     | _ \<Rightarrow> (case new_context h now b of (h1, c) \<Rightarrow>
         (logger_with h1 (co_log (hp_contexts h1 ! c)) [VString ''bug'', VString ''context was not properly attached''], c)))"

text \<open>Whether a context has been cancelled or is past its deadline; an external one is dead when its library says so.\<close>
partial_function (option) is_done :: "heap \<Rightarrow> gotime \<Rightarrow> base \<Rightarrow> bool option" where
  "is_done h now b = (case b of
      Background \<Rightarrow> Some False
    | WithCancel k b' \<Rightarrow> if k \<in> set (hp_dead h) then Some True else is_done h now b'
    | WithDeadline k t b' \<Rightarrow> if k \<in> set (hp_dead h) \<or> t \<le> now then Some True else is_done h now b'
    | External k \<Rightarrow> Some (k \<in> set (hp_dead h))
    | ContextOf c \<Rightarrow> is_done h now (co_base (hp_contexts h ! c)))"

section \<open>cleanup.go: the context of a cleanup\<close>

definition build_cleanup_context :: "heap \<Rightarrow> gotime \<Rightarrow> nat option \<Rightarrow> duration \<Rightarrow> heap \<times> nat \<times> nat" where
  "build_cleanup_context h now parent timeout =
     (case new_context h now Background of (h1, c) \<Rightarrow>
      let h2 = (case parent of None \<Rightarrow> h1
         | Some p \<Rightarrow> (let pl = co_log (hp_contexts h1 ! p) in
             case new_logger_context h1 (fresh_logger (lg_keyvals (hp_loggers h1 ! pl)) []) of (h', l) \<Rightarrow>
             set_prefix (with_logger h' c l) l (get_prefix h' pl)))
      in case with_timeout h2 now c (if timeout = 0 then default_cleanup_timeout else timeout) of (h3, k) \<Rightarrow>
        let l = co_log (hp_contexts h3 ! c) in (set_prefix h3 l (get_prefix h3 l @ ''***''), c, k))"

section \<open>Reachable heaps\<close>

fun base_ok :: "nat \<Rightarrow> nat \<Rightarrow> base \<Rightarrow> bool" where
  "base_ok n k Background = True"
| "base_ok n k (WithCancel j b) = (j < k \<and> base_ok n k b)"
| "base_ok n k (WithDeadline j t b) = (j < k \<and> base_ok n k b)"
| "base_ok n k (External j) = (j < k)"
| "base_ok n k (ContextOf c) = (c < n)"

inductive heap_step :: "heap \<Rightarrow> heap \<Rightarrow> bool" where
  make: "base_ok (length (hp_contexts h)) (hp_tokens h) b \<Longrightarrow> heap_step h (fst (new_context h now b))"
| child: "c < length (hp_contexts h) \<Longrightarrow> heap_step h (fst (context_child h now c))"
| timeout: "c < length (hp_contexts h) \<Longrightarrow> heap_step h (fst (with_timeout h now c t))"
| attach: "c < length (hp_contexts h) \<Longrightarrow> k < hp_tokens h \<Longrightarrow> heap_step h (fst (wrap_handler_context h (External k) c))"
| use_logger: "c < length (hp_contexts h) \<Longrightarrow> l < length (hp_loggers h) \<Longrightarrow> heap_step h (with_logger h c l)"
| cancel: "heap_step h (cancel h k)"
| token: "heap_step h (h\<lparr>hp_tokens := Suc (hp_tokens h)\<rparr>)"
| make_logger: "heap_step h (fst (new_logger_context h lg))"
| change_logger: "heap_step h (set_logger l f h)"

abbreviation reaches :: "heap \<Rightarrow> heap \<Rightarrow> bool" where
  "reaches \<equiv> heap_step\<^sup>*\<^sup>*"

text \<open>Every identifier is in range, and what a context refers to is older than it.\<close>
definition ctx_ok :: "heap \<Rightarrow> nat \<Rightarrow> ctx_obj \<Rightarrow> bool" where
  "ctx_ok h i x \<longleftrightarrow> co_log x < length (hp_loggers h) \<and> (\<forall>p. co_parent x = Some p \<longrightarrow> p < i) \<and> base_ok i (hp_tokens h) (co_base x)"

definition heap_ok :: "heap \<Rightarrow> bool" where
  "heap_ok h \<longleftrightarrow> (\<forall>i < length (hp_contexts h). ctx_ok h i (hp_contexts h ! i))"

lemma base_ok_mono: "base_ok n k b \<Longrightarrow> n \<le> n' \<Longrightarrow> k \<le> k' \<Longrightarrow> base_ok n' k' b"
  by (induction b) auto

lemma ctx_ok_mono:
  "ctx_ok h i x \<Longrightarrow> length (hp_loggers h) \<le> length (hp_loggers h') \<Longrightarrow> hp_tokens h \<le> hp_tokens h' \<Longrightarrow> ctx_ok h' i x"
  by (auto simp: ctx_ok_def intro: base_ok_mono)

lemma heap_okD: "heap_ok h \<Longrightarrow> i < length (hp_contexts h) \<Longrightarrow> ctx_ok h i (hp_contexts h ! i)"
  by (simp add: heap_ok_def)

lemma heap_ok_grow:
  "heap_ok h \<Longrightarrow> hp_contexts h' = hp_contexts h \<Longrightarrow> length (hp_loggers h) \<le> length (hp_loggers h') \<Longrightarrow>
   hp_tokens h \<le> hp_tokens h' \<Longrightarrow> heap_ok h'"
  by (auto simp: heap_ok_def intro: ctx_ok_mono)

lemma heap_ok_set:
  "heap_ok h \<Longrightarrow> ctx_ok h c (f (hp_contexts h ! c)) \<Longrightarrow> heap_ok (set_context c f h)"
  by (cases "c < length (hp_contexts h)")
    (auto simp: heap_ok_def set_context_def nth_list_update list_update_beyond ctx_ok_def)

lemma heap_ok_add:
  "heap_ok h \<Longrightarrow> ctx_ok h (length (hp_contexts h)) x \<Longrightarrow> heap_ok (fst (add_context h x))"
  by (auto simp: heap_ok_def add_context_def nth_append less_Suc_eq ctx_ok_def)

lemma set_logger_sels [simp]:
  "hp_contexts (set_logger l f h) = hp_contexts h" "length (hp_loggers (set_logger l f h)) = length (hp_loggers h)"
  "hp_tokens (set_logger l f h) = hp_tokens h" "hp_dead (set_logger l f h) = hp_dead h"
  by (simp_all add: set_logger_def)

lemma heap_step_ok: "heap_step h h' \<Longrightarrow> heap_ok h \<Longrightarrow> heap_ok h'"
proof (induction rule: heap_step.induct)
  case (make h b now)
  let ?h1 = "h\<lparr>hp_loggers := hp_loggers h @ [fresh_logger [] []]\<rparr>"
  have "heap_ok ?h1" by (rule heap_ok_grow [OF make(2)]) simp_all
  moreover have "ctx_ok ?h1 (length (hp_contexts ?h1)) \<lparr> co_base = b, co_log = length (hp_loggers h), co_start = now,
      co_parent = (case b of ContextOf p \<Rightarrow> Some p | _ \<Rightarrow> None) \<rparr>"
    using make(1) by (cases b) (auto simp: ctx_ok_def)
  ultimately show ?case by (simp add: new_context_def new_logger_context_def heap_ok_add)
next
  case (child c h now)
  let ?lg = "hp_loggers h ! co_log (hp_contexts h ! c)"
  let ?h1 = "h\<lparr>hp_loggers := hp_loggers h @ [fresh_logger (lg_keyvals ?lg) (get_step_prefix (lg_prefix ?lg) (lg_steps ?lg) @ '':::'')]\<rparr>"
  have ok: "heap_ok ?h1" by (rule heap_ok_grow [OF child(2)]) simp_all
  from heap_okD [OF child(2,1)] child(1)
  have "ctx_ok ?h1 (length (hp_contexts ?h1)) ((hp_contexts h ! c)\<lparr>co_start := now, co_log := length (hp_loggers h), co_parent := Some c\<rparr>)"
    by (auto simp: ctx_ok_def intro: base_ok_mono)
  from heap_ok_add [OF ok this] show ?case
    by (simp add: context_child_def logger_child_def new_logger_context_def Let_def)
next
  case (timeout c h now t)
  let ?h1 = "h\<lparr>hp_tokens := Suc (hp_tokens h)\<rparr>"
  have ok: "heap_ok ?h1" by (rule heap_ok_grow [OF timeout(2)]) simp_all
  from heap_okD [OF timeout(2,1)] show ?case
    unfolding with_timeout_def Let_def fst_conv
    by (intro heap_ok_set [OF ok]) (auto simp: ctx_ok_def intro: base_ok_mono)
next
  case (attach c h k)
  from heap_ok_set [OF attach(3)] heap_okD [OF attach(3,1)] attach(2) show ?case
    by (simp add: wrap_handler_context_def ctx_ok_def)
next
  case (use_logger c h l)
  from heap_ok_set [OF use_logger(3)] heap_okD [OF use_logger(3,1)] use_logger(2) show ?case
    by (simp add: with_logger_def ctx_ok_def)
qed (erule heap_ok_grow; simp add: cancel_def new_logger_context_def)+

lemma reaches_ok: "reaches h h' \<Longrightarrow> heap_ok h \<Longrightarrow> heap_ok h'"
  by (induction rule: rtranclp_induct) (auto intro: heap_step_ok)

lemma reachable_ok: "reaches empty_heap h \<Longrightarrow> heap_ok h"
  by (erule reaches_ok) (simp add: heap_ok_def empty_heap_def)

section \<open>Parents\<close>

definition parent_of :: "heap \<Rightarrow> (nat \<times> nat) set" where
  "parent_of h = {(c, p). c < length (hp_contexts h) \<and> co_parent (hp_contexts h ! c) = Some p}"

lemma parent_older:
  assumes "heap_ok h"
  shows "(c, p) \<in> (parent_of h)\<^sup>+ \<Longrightarrow> p < c"
proof (induction rule: trancl_induct)
  case (base p)
  with heap_okD [OF assms] show ?case by (auto simp: parent_of_def ctx_ok_def)
next
  case (step p q)
  with heap_okD [OF assms] show ?case by (fastforce simp: parent_of_def ctx_ok_def)
qed

lemma is_child_of_ok:
  assumes ok: "heap_ok h"
  shows "c < length (hp_contexts h) \<Longrightarrow> is_child_of h c p = Some ((c, p) \<in> (parent_of h)\<^sup>+)"
proof (induction c rule: less_induct)
  case (less c)
  show ?case
  proof (cases "co_parent (hp_contexts h ! c)")
    case None
    then have "(c, p) \<notin> (parent_of h)\<^sup>+" by (auto simp: parent_of_def dest: tranclD)
    with None show ?thesis by (subst is_child_of.simps) simp
  next
    case (Some q)
    with less.prems have q: "(c, q) \<in> parent_of h" and only: "\<And>q'. (c, q') \<in> parent_of h \<Longrightarrow> q' = q"
      by (auto simp: parent_of_def)
    from heap_okD [OF ok less.prems] Some have "q < c" by (auto simp: ctx_ok_def)
    with less have IH: "is_child_of h q p = Some ((q, p) \<in> (parent_of h)\<^sup>+)" by simp
    have "(c, p) \<in> (parent_of h)\<^sup>+ \<longleftrightarrow> q = p \<or> (q, p) \<in> (parent_of h)\<^sup>+"
      using q only by (metis converse_tranclE r_into_trancl trancl_into_trancl2)
    with Some IH show ?thesis by (subst is_child_of.simps) simp
  qed
qed

text \<open>C24: in every heap that the operations can reach, IsChildOf returns, and says whether one context descends from
  the other.\<close>
theorem is_child_of_decides:
  assumes "reaches empty_heap h" "c < length (hp_contexts h)"
  shows "is_child_of h c p = Some ((c, p) \<in> (parent_of h)\<^sup>+)"
  by (rule is_child_of_ok [OF reachable_ok [OF assms(1)] assms(2)])

section \<open>Cancellation\<close>

lemma is_done_simps [simp]:
  "is_done h now Background = Some False"
  "is_done h now (WithCancel k b) = (if k \<in> set (hp_dead h) then Some True else is_done h now b)"
  "is_done h now (WithDeadline k t b) = (if k \<in> set (hp_dead h) \<or> t \<le> now then Some True else is_done h now b)"
  "is_done h now (External k) = Some (k \<in> set (hp_dead h))"
  "is_done h now (ContextOf c) = is_done h now (co_base (hp_contexts h ! c))"
  by (subst is_done.simps, simp)+

lemma is_done_returns: "heap_ok h \<Longrightarrow> base_ok n k b \<Longrightarrow> n \<le> length (hp_contexts h) \<Longrightarrow> is_done h now b \<noteq> None"
proof (induction n arbitrary: k b rule: less_induct)
  case (less n)
  from less.prems(2) show ?case
  proof (induction b)
    case (ContextOf c)
    with heap_okD [OF less.prems(1), of c] less.prems(3) have "base_ok c (hp_tokens h) (co_base (hp_contexts h ! c))"
      by (simp add: ctx_ok_def)
    with less.IH [OF _ less.prems(1) this] ContextOf less.prems(3) show ?case by simp
  qed auto
qed

text \<open>What a context refers to is older than it, so a change of the newest context does not reach the others.\<close>
lemma is_done_frame:
  "heap_ok h \<Longrightarrow> base_ok n k b \<Longrightarrow> n \<le> length (hp_contexts h) \<Longrightarrow> hp_dead h' = hp_dead h \<Longrightarrow>
   (\<And>i. i < n \<Longrightarrow> co_base (hp_contexts h' ! i) = co_base (hp_contexts h ! i)) \<Longrightarrow> is_done h' now b = is_done h now b"
proof (induction n arbitrary: k b rule: less_induct)
  case (less n)
  from less.prems(2) show ?case
  proof (induction b)
    case (ContextOf c)
    with less.prems(1,3) heap_okD [of h c] have b: "base_ok c (hp_tokens h) (co_base (hp_contexts h ! c))" "c < n"
      by (simp_all add: ctx_ok_def)
    from less.IH [OF b(2) less.prems(1) b(1)] less.prems(3-5) b(2) show ?case by simp
  qed (auto simp: less.prems(4))
qed

text \<open>The context of a wait, a child with a timeout, is done when its parent is, when it has been cancelled, or past
  its deadline; and giving it the timeout changes no context that was there before.\<close>
lemma child_with_timeout:
  assumes h: "reaches empty_heap h" "c < length (hp_contexts h)" "e < length (hp_contexts h)"
    and child: "context_child h now c = (h1, d)" and timeout: "with_timeout h1 now d t = (h2, k)"
  shows "is_done (h2\<lparr>hp_dead := dead\<rparr>) later (ContextOf e) = is_done (h\<lparr>hp_dead := dead\<rparr>) later (ContextOf e) \<and>
    is_done (h2\<lparr>hp_dead := dead\<rparr>) later (ContextOf d) = (if k \<in> set dead \<or> t \<noteq> 0 \<and> now + t \<le> later then Some True
       else is_done (h2\<lparr>hp_dead := dead\<rparr>) later (ContextOf c))"
proof -
  have old: "hp_contexts h2 ! i = hp_contexts h ! i" if "i < length (hp_contexts h)" for i
    using child timeout that by (auto simp: context_child_def with_timeout_def logger_child_def new_logger_context_def
        add_context_def set_context_def Let_def nth_append)
  have "heap_ok (h\<lparr>hp_dead := dead\<rparr>)" by (rule heap_ok_grow [OF reachable_ok [OF h(1)]]) simp_all
  from is_done_frame [OF this, of "Suc e" 0 "ContextOf e" "h2\<lparr>hp_dead := dead\<rparr>" later] h(3) old
  have "is_done (h2\<lparr>hp_dead := dead\<rparr>) later (ContextOf e) = is_done (h\<lparr>hp_dead := dead\<rparr>) later (ContextOf e)" by simp
  moreover have "is_done (h2\<lparr>hp_dead := dead\<rparr>) later (ContextOf d) = (if k \<in> set dead \<or> t \<noteq> 0 \<and> now + t \<le> later then Some True
       else is_done (h2\<lparr>hp_dead := dead\<rparr>) later (ContextOf c))"
    using child timeout h(2) by (auto simp: context_child_def with_timeout_def logger_child_def new_logger_context_def
        add_context_def set_context_def Let_def nth_append)
  ultimately show ?thesis ..
qed

text \<open>C20: the context of a cleanup lives until its own timeout or cancel function ends it, whatever has happened to the
  context it was given, and logs behind that context's prefix.\<close>
theorem cleanup_context_survives:
  assumes h: "reaches empty_heap h" "\<forall>p. parent = Some p \<longrightarrow> p < length (hp_contexts h)"
    and build: "build_cleanup_context h now parent timeout = (h1, c, k)"
  shows "is_done (h1\<lparr>hp_dead := dead\<rparr>) later (ContextOf c) =
      Some (k \<in> set dead \<or> now + (if timeout = 0 then default_cleanup_timeout else timeout) \<le> later) \<and>
    get_prefix h1 (co_log (hp_contexts h1 ! c)) =
      (case parent of None \<Rightarrow> [] | Some p \<Rightarrow> get_prefix h (co_log (hp_contexts h ! p))) @ ''***''"
proof (cases parent)
  case None
  with build show ?thesis
    by (auto simp: build_cleanup_context_def new_context_def new_logger_context_def add_context_def with_timeout_def set_context_def
        set_prefix_def set_logger_def get_prefix_def fresh_logger_def Let_def default_cleanup_timeout_def minute_def second_def)
next
  case (Some p)
  with h(2) have p: "p < length (hp_contexts h)" by simp
  with heap_okD [OF reachable_ok [OF h(1)] p] have "co_log (hp_contexts h ! p) < length (hp_loggers h)" by (simp add: ctx_ok_def)
  with Some build p show ?thesis
    by (auto simp: build_cleanup_context_def new_context_def new_logger_context_def add_context_def with_timeout_def set_context_def
        set_prefix_def set_logger_def get_prefix_def fresh_logger_def with_logger_def Let_def default_cleanup_timeout_def minute_def second_def nth_append nth_list_update)
qed

section \<open>A heap\<close>

text \<open>A context on the background and its child, both made by the operations.\<close>
definition sample_heap :: heap where
  "sample_heap = fst (context_child (fst (new_context empty_heap 0 Background)) 1 0)"

lemma sample_heap_length [simp]: "length (hp_contexts sample_heap) = 2"
  by code_simp

lemma sample_heap_reachable: "reaches empty_heap sample_heap"
proof -
  have "heap_step empty_heap (fst (new_context empty_heap 0 Background))" by (rule heap_step.make) simp
  moreover have "0 < length (hp_contexts (fst (new_context empty_heap 0 Background)))" by code_simp
  then have "heap_step (fst (new_context empty_heap 0 Background)) sample_heap"
    unfolding sample_heap_def by (rule heap_step.child)
  ultimately show ?thesis by simp
qed

theorem is_child_of_decides_witness: "is_child_of sample_heap 1 0 = Some True \<and> is_child_of sample_heap 0 1 = Some False"
proof -
  have "co_parent (hp_contexts sample_heap ! 1) = Some 0" by code_simp
  then have "(1, 0) \<in> (parent_of sample_heap)\<^sup>+" by (auto simp: parent_of_def)
  moreover have "(0, 1) \<notin> (parent_of sample_heap)\<^sup>+"
    using parent_older [OF reachable_ok [OF sample_heap_reachable]] by fastforce
  moreover have "1 < length (hp_contexts sample_heap)" "0 < length (hp_contexts sample_heap)" by simp_all
  ultimately show ?thesis
    using is_child_of_decides [OF sample_heap_reachable] by metis
qed

theorem child_with_timeout_witness:
  "case context_child sample_heap 3 1 of (h1, d) \<Rightarrow> (case with_timeout h1 3 d 4 of (h2, k) \<Rightarrow>
     is_done h2 6 (ContextOf d) = Some False \<and> is_done h2 7 (ContextOf d) = Some True \<and> is_done h2 7 (ContextOf 1) = Some False)"
proof -
  obtain h1 d where 1: "context_child sample_heap 3 1 = (h1, d)" by (cases "context_child sample_heap 3 1")
  obtain h2 k where 2: "with_timeout h1 3 d 4 = (h2, k)" by (cases "with_timeout h1 3 d 4")
  have b: "co_base (hp_contexts sample_heap ! 1) = Background" by code_simp
  have dead: "hp_dead h2 = []" and k: "h2\<lparr>hp_dead := []\<rparr> = h2"
    using 1 2 by (auto simp: context_child_def with_timeout_def logger_child_def new_logger_context_def
        add_context_def set_context_def Let_def sample_heap_def new_context_def empty_heap_def)
  have l: "1 < length (hp_contexts sample_heap)" by simp
  note run = child_with_timeout [OF sample_heap_reachable l l 1 2, of "[]", unfolded k]
  from run [of 6] run [of 7] 1 2 b show ?thesis by simp
qed

theorem cleanup_context_survives_witness:
  "case build_cleanup_context sample_heap 10 (Some 1) 5 of (h, c, k) \<Rightarrow>
     is_done h 14 (ContextOf c) = Some False \<and> is_done h 15 (ContextOf c) = Some True \<and>
     get_prefix h (co_log (hp_contexts h ! c)) = '':::***''"
proof -
  obtain h c k where 1: "build_cleanup_context sample_heap 10 (Some 1) 5 = (h, c, k)" by (cases "build_cleanup_context sample_heap 10 (Some 1) 5")
  have p: "\<forall>p. Some 1 = Some p \<longrightarrow> p < length (hp_contexts sample_heap)" by simp
  have "hp_dead (fst (build_cleanup_context sample_heap 10 (Some 1) 5)) = []" by code_simp
  with 1 have dead: "h\<lparr>hp_dead := []\<rparr> = h" by (cases h) simp
  have pre: "get_prefix sample_heap (co_log (hp_contexts sample_heap ! 1)) = '':::''" by code_simp
  note run = cleanup_context_survives [OF sample_heap_reachable p 1, of "[]", unfolded dead]
  from run [of 14] run [of 15] 1 pre show ?thesis by simp
qed

end
