(* ===== verification/Server.thy ===== *)
theory Server
  imports Contexts
begin

text \<open>
  \<^verbatim>\<open>src/pkg/grpc/servers/server.go\<close> (with the port of \<^verbatim>\<open>src/pkg/grpc/grpc.go\<close>): the server that runs in the
  tool's pod, and what its interceptors do to the contexts of concurrent requests.  A step of \<^verbatim>\<open>server_step\<close>
  is one statement of an interceptor, or the work of a handler, for one of the requests; any interleaving is a
  run.  The transport, the health service and the handlers are those of the grpc library and of Channel.
\<close>

section \<open>StartServer\<close>

definition grpc_port :: int where "grpc_port = 40983"
definition system_service :: string where "system_service = []"

datatype service = FilesService | PostgresService | S3Service | HealthService
datatype serving_status = Serving | NotServing

record grpc_server =
  gs_services :: "service list"
  gs_health :: "(string \<times> serving_status) list"

definition register_servers :: "grpc_server \<Rightarrow> grpc_server" where
  "register_servers g = g\<lparr>gs_services := gs_services g @ [FilesService, PostgresService, S3Service, HealthService],
     gs_health := (system_service, Serving) # gs_health g\<rparr>"

text \<open>\<^verbatim>\<open>listen\<close> is net.Listen; \<^verbatim>\<open>serve\<close> is Serve of the grpc library, which returns when the
  server has stopped.\<close>
definition start_server :: "(int \<Rightarrow> error) \<Rightarrow> (grpc_server \<Rightarrow> error) \<Rightarrow> error" where
  "start_server listen serve = (case listen grpc_port of
      Some e \<Rightarrow> Some (WrapErr ''listen'' e)
    | None \<Rightarrow> trace_wrap ''grpc server failed'' (serve (register_servers \<lparr> gs_services = [], gs_health = [] \<rparr>)))"

section \<open>The interceptors\<close>

text \<open>Where a request is: its context is attached, the logging interceptor has made a context, has labelled its logger, and
  has evaluated the receiver and the stopwatch of the deferred line.\<close>
datatype phase = Attached | Nested | Labelled | Handling nat gotime | Finished

record rpc =
  rq_method :: string
  rq_call :: nat
  rq_ctx :: nat
  rq_phase :: phase

text \<open>\<^verbatim>\<open>sv_ctx\<close> is the context StartServer was given, \<^verbatim>\<open>sv_log_ctx\<close> the variable
  \<^verbatim>\<open>ctx\<close> that the closure of a logging interceptor captured.\<close>
record server =
  sv_heap :: heap
  sv_ctx :: nat
  sv_log_ctx :: nat
  sv_requests :: "rpc list"
  sv_lines :: "(logval list \<times> string \<times> logval list) list"

text \<open>unaryContextAttachInterceptor and streamContextAttachInterceptor: the handler's context is a child of the server's
  whose standard library context is the one that the library made for the call.\<close>
definition context_attach_interceptor :: "gotime \<Rightarrow> string \<Rightarrow> server \<Rightarrow> server" where
  "context_attach_interceptor now method s = (let call = hp_tokens (sv_heap s) in
     case context_child (sv_heap s\<lparr>hp_tokens := Suc call\<rparr>) now (sv_ctx s) of (h1, c) \<Rightarrow>
      s\<lparr>sv_heap := fst (wrap_handler_context h1 (External call) c),
        sv_requests := sv_requests s @ [\<lparr> rq_method = method, rq_call = call, rq_ctx = c, rq_phase = Attached \<rparr>]\<rparr>)"

definition set_phase :: "nat \<Rightarrow> phase \<Rightarrow> server \<Rightarrow> server" where
  "set_phase i p s = s\<lparr>sv_requests := (sv_requests s)[i := (sv_requests s ! i)\<lparr>rq_phase := p\<rparr>]\<rparr>"

definition grpc_keyvals :: "string \<Rightarrow> logval list" where
  "grpc_keyvals method = [VString ''method'', VString method]"

text \<open>\<^verbatim>\<open>ctx = ctx.Child()\<close>: an assignment to the captured variable.\<close>
definition logging_nest :: "gotime \<Rightarrow> nat \<Rightarrow> server \<Rightarrow> server" where
  "logging_nest now i s = (case context_child (sv_heap s) now (sv_log_ctx s) of (h1, c) \<Rightarrow>
     set_phase i Nested (s\<lparr>sv_heap := h1, sv_log_ctx := c\<rparr>))"

definition log_ctx_logger :: "server \<Rightarrow> nat" where
  "log_ctx_logger s = co_log (hp_contexts (sv_heap s) ! sv_log_ctx s)"

text \<open>\<^verbatim>\<open>ctx.Log.With(grpcKeyvals(...)...).Debug(...)\<close>\<close>
definition logging_label :: "nat \<Rightarrow> server \<Rightarrow> server" where
  "logging_label i s = (let l = log_ctx_logger s; h1 = logger_with (sv_heap s) l (grpc_keyvals (rq_method (sv_requests s ! i))) in
     set_phase i Labelled (s\<lparr>sv_heap := h1,
       sv_lines := sv_lines s @ [log_line h1 l () ''Processing GRPC method invokation'' []]\<rparr>))"

text \<open>The defer statement evaluates \<^verbatim>\<open>ctx.Log\<close> and the stopwatch.\<close>
definition logging_defer :: "nat \<Rightarrow> server \<Rightarrow> server" where
  "logging_defer i s = set_phase i (Handling (log_ctx_logger s) (co_start (hp_contexts (sv_heap s) ! sv_log_ctx s))) s"

definition logging_finish :: "gotime \<Rightarrow> error \<Rightarrow> nat \<Rightarrow> server \<Rightarrow> server" where
  "logging_finish now err i s = (case rq_phase (sv_requests s ! i) of
      Handling l start \<Rightarrow> set_phase i Finished (s\<lparr>sv_lines := sv_lines s @
        [log_line (sv_heap s) l (now, err) ''Finished processing GRPC method invokation'' [stopwatch_keyval fst start, error_keyvals (Some snd)]]\<rparr>)
    | _ \<Rightarrow> s)"

text \<open>What a handler may do to the heap: its operations work on the descendants of its context, and on the loggers of these
  and its own; a parent is never changed.\<close>
definition handler_work :: "nat \<Rightarrow> heap \<Rightarrow> heap \<Rightarrow> bool" where
  "handler_work c h h' \<longleftrightarrow> heap_ok h' \<and> hp_tokens h \<le> hp_tokens h' \<and> length (hp_contexts h) \<le> length (hp_contexts h') \<and>
     (\<forall>j < length (hp_contexts h). co_parent (hp_contexts h' ! j) = co_parent (hp_contexts h ! j) \<and>
       ((j, c) \<notin> (parent_of h)\<^sup>+ \<longrightarrow> hp_contexts h' ! j = hp_contexts h ! j)) \<and>
     (\<forall>l < length (hp_loggers h). hp_loggers h' ! l = hp_loggers h ! l \<or> l = co_log (hp_contexts h ! c) \<or>
       (\<exists>j. (j, c) \<in> (parent_of h)\<^sup>+ \<and> co_log (hp_contexts h ! j) = l))"

inductive server_step :: "server \<Rightarrow> server \<Rightarrow> bool" where
  arrive: "server_step s (context_attach_interceptor now method s)"
| nest: "i < length (sv_requests s) \<Longrightarrow> rq_phase (sv_requests s ! i) = Attached \<Longrightarrow> server_step s (logging_nest now i s)"
| label: "i < length (sv_requests s) \<Longrightarrow> rq_phase (sv_requests s ! i) = Nested \<Longrightarrow> server_step s (logging_label i s)"
| defer_line: "i < length (sv_requests s) \<Longrightarrow> rq_phase (sv_requests s ! i) = Labelled \<Longrightarrow> server_step s (logging_defer i s)"
| work: "i < length (sv_requests s) \<Longrightarrow> rq_phase (sv_requests s ! i) = Handling l start \<Longrightarrow>
     handler_work (rq_ctx (sv_requests s ! i)) (sv_heap s) h' \<Longrightarrow> server_step s (s\<lparr>sv_heap := h'\<rparr>)"
| finish: "i < length (sv_requests s) \<Longrightarrow> rq_phase (sv_requests s ! i) = Handling l start \<Longrightarrow>
     server_step s (logging_finish now err i s)"

definition started :: "heap \<Rightarrow> nat \<Rightarrow> server" where
  "started h c = \<lparr> sv_heap = h, sv_ctx = c, sv_log_ctx = c, sv_requests = [], sv_lines = [] \<rparr>"

inductive reachable_server :: "heap \<Rightarrow> nat \<Rightarrow> server \<Rightarrow> bool" for h c where
  start: "reachable_server h c (started h c)"
| step: "reachable_server h c s \<Longrightarrow> server_step s s' \<Longrightarrow> reachable_server h c s'"

section \<open>What holds in every run\<close>

text \<open>The requests whose logging interceptor has made its context.\<close>
definition nested :: "server \<Rightarrow> nat set" where
  "nested s = {i. i < length (sv_requests s) \<and> rq_phase (sv_requests s ! i) \<noteq> Attached}"

definition rpc_ok :: "heap \<Rightarrow> nat \<Rightarrow> rpc \<Rightarrow> bool" where
  "rpc_ok h c r \<longleftrightarrow> rq_ctx r < length (hp_contexts h) \<and> co_parent (hp_contexts h ! rq_ctx r) = Some c \<and>
     co_base (hp_contexts h ! rq_ctx r) = External (rq_call r)"

definition server_ok :: "server \<Rightarrow> bool" where
  "server_ok s \<longleftrightarrow> heap_ok (sv_heap s) \<and> sv_ctx s < length (hp_contexts (sv_heap s)) \<and>
     sv_log_ctx s < length (hp_contexts (sv_heap s)) \<and>
     (sv_log_ctx s, sv_ctx s) \<in> parent_of (sv_heap s) ^^ card (nested s) \<and>
     (\<forall>i < length (sv_requests s). rpc_ok (sv_heap s) (sv_ctx s) (sv_requests s ! i))"

lemma server_okD:
  assumes "server_ok s"
  shows "heap_ok (sv_heap s)" "sv_ctx s < length (hp_contexts (sv_heap s))" "sv_log_ctx s < length (hp_contexts (sv_heap s))"
    "(sv_log_ctx s, sv_ctx s) \<in> parent_of (sv_heap s) ^^ card (nested s)"
    "i < length (sv_requests s) \<Longrightarrow> rpc_ok (sv_heap s) (sv_ctx s) (sv_requests s ! i)"
  using assms by (simp_all add: server_ok_def)

lemma relpow_parent_mono:
  assumes "(c, p) \<in> parent_of h ^^ n"
    and "length (hp_contexts h) \<le> length (hp_contexts h')"
    and "\<And>j. j < length (hp_contexts h) \<Longrightarrow> co_parent (hp_contexts h' ! j) = co_parent (hp_contexts h ! j)"
  shows "(c, p) \<in> parent_of h' ^^ n"
proof -
  have "parent_of h \<subseteq> parent_of h'" using assms(2,3) by (auto simp: parent_of_def)
  then have "parent_of h ^^ n \<subseteq> parent_of h' ^^ n" by (induction n) (auto intro: relcomp_mono)
  with assms(1) show ?thesis by blast
qed

text \<open>The invariant survives a change of the heap that keeps parents and the handlers' contexts.\<close>
lemma server_ok_heap:
  assumes ok: "server_ok s" and h': "heap_ok h'" "length (hp_contexts (sv_heap s)) \<le> length (hp_contexts h')"
    and par: "\<And>j. j < length (hp_contexts (sv_heap s)) \<Longrightarrow> co_parent (hp_contexts h' ! j) = co_parent (hp_contexts (sv_heap s) ! j)"
    and base: "\<And>i. i < length (sv_requests s) \<Longrightarrow>
      co_base (hp_contexts h' ! rq_ctx (sv_requests s ! i)) = co_base (hp_contexts (sv_heap s) ! rq_ctx (sv_requests s ! i))"
  shows "server_ok (s\<lparr>sv_heap := h'\<rparr>)"
proof -
  have "rpc_ok h' (sv_ctx s) (sv_requests s ! i)" if "i < length (sv_requests s)" for i
    using server_okD(5) [OF ok that] par base [OF that] h'(2) by (simp add: rpc_ok_def)
  moreover have "nested (s\<lparr>sv_heap := h'\<rparr>) = nested s" by (simp add: nested_def)
  ultimately show ?thesis
    using relpow_parent_mono [OF server_okD(4) [OF ok] h'(2) par] server_okD(2,3) [OF ok] h' by (simp add: server_ok_def)
qed

lemma server_ok_lines: "server_ok s \<Longrightarrow> server_ok (s\<lparr>sv_lines := ls\<rparr>)"
  by (simp add: server_ok_def nested_def)

lemma set_phase_nested:
  "i < length (sv_requests s) \<Longrightarrow> p \<noteq> Attached \<Longrightarrow> nested (set_phase i p s) = insert i (nested s)"
  by (auto simp: nested_def set_phase_def nth_list_update)

lemma set_phase_rpc_ok:
  "i < length (sv_requests s) \<Longrightarrow> j < length (sv_requests s) \<Longrightarrow>
   rpc_ok h c (sv_requests (set_phase i p s) ! j) \<longleftrightarrow> rpc_ok h c (sv_requests s ! j)"
  by (simp add: set_phase_def rpc_ok_def nth_list_update)

lemma set_phase_sels [simp]:
  "sv_heap (set_phase i p s) = sv_heap s" "sv_ctx (set_phase i p s) = sv_ctx s" "sv_log_ctx (set_phase i p s) = sv_log_ctx s"
  "length (sv_requests (set_phase i p s)) = length (sv_requests s)"
  by (simp_all add: set_phase_def)

lemma set_phase_ok:
  assumes "server_ok s" "i < length (sv_requests s)" "rq_phase (sv_requests s ! i) \<noteq> Attached" "p \<noteq> Attached"
  shows "server_ok (set_phase i p s)"
proof -
  from assms(2,3) have "i \<in> nested s" by (simp add: nested_def)
  with set_phase_nested [OF assms(2,4)] have "nested (set_phase i p s) = nested s" by auto
  with assms(1,2) show ?thesis by (simp add: server_ok_def set_phase_rpc_ok)
qed

lemma context_child_shape:
  assumes "context_child h now c = (h1, d)"
  shows "\<exists>x. d = length (hp_contexts h) \<and> hp_contexts h1 = hp_contexts h @ [x] \<and> co_parent x = Some c \<and> hp_tokens h1 = hp_tokens h"
  using assms by (auto simp: context_child_def logger_child_def new_logger_context_def add_context_def Let_def)

lemma context_child_ok:
  "heap_ok h \<Longrightarrow> c < length (hp_contexts h) \<Longrightarrow> context_child h now c = (h1, d) \<Longrightarrow> heap_ok h1"
  using heap_step_ok [OF heap_step.child] by (metis fst_conv)

lemma arrive_ok:
  assumes ok: "server_ok s"
  shows "server_ok (context_attach_interceptor now method s)"
proof -
  let ?k = "hp_tokens (sv_heap s)"
  let ?h = "sv_heap s\<lparr>hp_tokens := Suc ?k\<rparr>"
  obtain h1 c where 1: "context_child ?h now (sv_ctx s) = (h1, c)" by fastforce
  let ?h2 = "fst (wrap_handler_context h1 (External ?k) c)"
  from context_child_shape [OF 1] obtain x where x: "c = length (hp_contexts (sv_heap s))" "hp_contexts h1 = hp_contexts (sv_heap s) @ [x]"
    "co_parent x = Some (sv_ctx s)" "hp_tokens h1 = Suc ?k" by auto
  have "heap_ok ?h" by (rule heap_ok_grow [OF server_okD(1) [OF ok]]) simp_all
  from context_child_ok [OF this _ 1] server_okD(2) [OF ok] have "heap_ok h1" by simp
  with x have h2: "heap_ok ?h2" by (intro heap_step_ok [OF heap_step.attach]) simp_all
  have c2: "hp_contexts ?h2 = hp_contexts (sv_heap s) @ [x\<lparr>co_base := External ?k\<rparr>]"
    using x by (simp add: wrap_handler_context_def set_context_def)
  let ?r = "\<lparr> rq_method = method, rq_call = ?k, rq_ctx = c, rq_phase = Attached \<rparr>"
  have run: "context_attach_interceptor now method s = s\<lparr>sv_heap := ?h2, sv_requests := sv_requests s @ [?r]\<rparr>"
    using 1 by (simp add: context_attach_interceptor_def Let_def)
  have s2: "server_ok (s\<lparr>sv_heap := ?h2\<rparr>)"
    using server_okD(5) [OF ok] by (intro server_ok_heap [OF ok h2]) (auto simp: c2 nth_append rpc_ok_def)
  have "rpc_ok ?h2 (sv_ctx s) ?r" using x(1,3) c2 by (simp add: rpc_ok_def)
  moreover have "nested (s\<lparr>sv_heap := ?h2, sv_requests := sv_requests s @ [?r]\<rparr>) = nested (s\<lparr>sv_heap := ?h2\<rparr>)"
    by (auto simp: nested_def nth_append less_Suc_eq)
  ultimately show ?thesis
    using s2 by (auto simp: run server_ok_def nth_append less_Suc_eq)
qed

lemma nest_ok:
  assumes ok: "server_ok s" and i: "i < length (sv_requests s)" "rq_phase (sv_requests s ! i) = Attached"
  shows "server_ok (logging_nest now i s)"
proof -
  obtain h1 c where 1: "context_child (sv_heap s) now (sv_log_ctx s) = (h1, c)" by fastforce
  from context_child_shape [OF 1] obtain x where x: "c = length (hp_contexts (sv_heap s))" "hp_contexts h1 = hp_contexts (sv_heap s) @ [x]"
    "co_parent x = Some (sv_log_ctx s)" by auto
  have h1: "heap_ok h1" by (rule context_child_ok [OF server_okD(1,3) [OF ok] 1])
  have s1: "server_ok (s\<lparr>sv_heap := h1\<rparr>)"
    using server_okD(5) [OF ok] by (intro server_ok_heap [OF ok h1]) (auto simp: x(2) nth_append rpc_ok_def)
  have "(c, sv_log_ctx s) \<in> parent_of h1" using x by (simp add: parent_of_def)
  moreover have "(sv_log_ctx s, sv_ctx s) \<in> parent_of h1 ^^ card (nested s)"
    using server_okD(4) [OF s1] by (simp add: nested_def)
  ultimately have "(c, sv_ctx s) \<in> parent_of h1 ^^ Suc (card (nested s))" by (rule relpow_Suc_I2)
  moreover have "card (insert i (nested s)) = Suc (card (nested s))"
    using i by (simp add: nested_def)
  moreover have "nested (logging_nest now i s) = insert i (nested s)"
    using 1 set_phase_nested [of i "s\<lparr>sv_heap := h1, sv_log_ctx := c\<rparr>" Nested] i by (simp add: logging_nest_def nested_def)
  ultimately show ?thesis
    using 1 x s1 i by (auto simp: server_ok_def logging_nest_def set_phase_rpc_ok)
qed

text \<open>No handler's context descends from another handler's.\<close>
lemma handlers_apart:
  assumes ok: "server_ok s" and ij: "i < length (sv_requests s)" "j < length (sv_requests s)"
  shows "(rq_ctx (sv_requests s ! i), rq_ctx (sv_requests s ! j)) \<notin> (parent_of (sv_heap s))\<^sup>+"
proof
  assume below: "(rq_ctx (sv_requests s ! i), rq_ctx (sv_requests s ! j)) \<in> (parent_of (sv_heap s))\<^sup>+"
  from server_okD(5) [OF ok] ij have par: "co_parent (hp_contexts (sv_heap s) ! rq_ctx (sv_requests s ! i)) = Some (sv_ctx s)"
    "(rq_ctx (sv_requests s ! j), sv_ctx s) \<in> parent_of (sv_heap s)" by (simp_all add: rpc_ok_def parent_of_def)
  from parent_older [OF server_okD(1) [OF ok] r_into_trancl [OF par(2)]] have "sv_ctx s < rq_ctx (sv_requests s ! j)" .
  moreover from tranclD [OF below] par(1) have "(sv_ctx s, rq_ctx (sv_requests s ! j)) \<in> (parent_of (sv_heap s))\<^sup>*"
    by (auto simp: parent_of_def)
  then have "rq_ctx (sv_requests s ! j) \<le> sv_ctx s"
    by (auto simp: rtrancl_eq_or_trancl dest: parent_older [OF server_okD(1) [OF ok]])
  ultimately show False by simp
qed

lemma server_step_ok: "server_step s s' \<Longrightarrow> server_ok s \<Longrightarrow> server_ok s'"
proof (induction rule: server_step.induct)
  case (arrive s now mth)
  then show ?case by (rule arrive_ok)
next
  case (nest i s now)
  then show ?case by (intro nest_ok)
next
  case (label i s)
  let ?h1 = "logger_with (sv_heap s) (log_ctx_logger s) (grpc_keyvals (rq_method (sv_requests s ! i)))"
  have "heap_ok ?h1" by (rule heap_ok_grow [OF server_okD(1) [OF label(3)]]) (simp_all add: logger_with_def)
  then have "server_ok (s\<lparr>sv_heap := ?h1\<rparr>)" by (rule server_ok_heap [OF label(3)]) (simp_all add: logger_with_def)
  then show ?case unfolding logging_label_def Let_def
    by (intro set_phase_ok) (use label(1,2) server_ok_lines in simp_all)
next
  case (defer_line i s)
  then show ?case unfolding logging_defer_def by (intro set_phase_ok) simp_all
next
  case (work i s l start h')
  with handlers_apart [OF work(4) _ work(1)] show ?case
    using server_okD(5) [OF work(4)] by (intro server_ok_heap) (auto simp: handler_work_def rpc_ok_def)
next
  case (finish i s l start now err)
  then show ?case unfolding logging_finish_def by simp (intro set_phase_ok server_ok_lines; simp)
qed

lemma reachable_server_ok:
  assumes "reachable_server h c s" "heap_ok h" "c < length (hp_contexts h)"
  shows "server_ok s"
  using assms(1)
proof (induction rule: reachable_server.induct)
  case start
  from assms(2,3) show ?case by (simp add: server_ok_def started_def nested_def)
qed (rule server_step_ok)

lemma server_step_ctx: "server_step s s' \<Longrightarrow> sv_ctx s' = sv_ctx s"
  by (induction rule: server_step.induct)
    (auto simp: context_attach_interceptor_def logging_nest_def logging_label_def logging_defer_def logging_finish_def Let_def
      split: prod.splits phase.splits)

lemma reachable_server_ctx: "reachable_server h c s \<Longrightarrow> sv_ctx s = c"
  by (induction rule: reachable_server.induct) (simp_all add: started_def server_step_ctx)

text \<open>C21: however the requests interleave, the context of a handler is a child of the server's and is cancelled exactly
  when its own call is.\<close>
theorem handler_context_isolated:
  assumes "reaches empty_heap h" "c < length (hp_contexts h)" "reachable_server h c s" "r \<in> set (sv_requests s)"
  shows "(rq_ctx r, c) \<in> parent_of (sv_heap s) \<and>
    is_done (sv_heap s\<lparr>hp_dead := dead\<rparr>) now (ContextOf (rq_ctx r)) = Some (rq_call r \<in> set dead)"
proof -
  from assms(4) obtain i where "i < length (sv_requests s)" "r = sv_requests s ! i" by (auto simp: in_set_conv_nth)
  with server_okD(5) [OF reachable_server_ok [OF assms(3) reachable_ok [OF assms(1)] assms(2)]]
  show ?thesis using reachable_server_ctx [OF assms(3)] by (simp add: rpc_ok_def parent_of_def)
qed


section \<open>One request after another\<close>

definition serve_one :: "gotime \<Rightarrow> error \<Rightarrow> string \<Rightarrow> server \<Rightarrow> server" where
  "serve_one now err method s = (let i = length (sv_requests s) in
     logging_finish now err i (logging_defer i (logging_label i (logging_nest now i (context_attach_interceptor now method s)))))"

fun serve_in_turn :: "gotime \<Rightarrow> error \<Rightarrow> string list \<Rightarrow> server \<Rightarrow> server" where
  "serve_in_turn now err [] s = s"
| "serve_in_turn now err (m # ms) s = serve_in_turn now err ms (serve_one now err m s)"

definition log_keyvals :: "server \<Rightarrow> logval list" where
  "log_keyvals s = lg_keyvals (hp_loggers (sv_heap s) ! log_ctx_logger s)"

lemma serve_one_steps: "server_step\<^sup>*\<^sup>* s (serve_one now err method s)"
proof -
  let ?i = "length (sv_requests s)"
  let ?s1 = "context_attach_interceptor now method s"
  let ?s2 = "logging_nest now ?i ?s1" and ?s3 = "logging_label ?i (logging_nest now ?i ?s1)"
  have n: "length (sv_requests ?s1) = Suc ?i" "rq_phase (sv_requests ?s1 ! ?i) = Attached"
    by (simp_all add: context_attach_interceptor_def Let_def split: prod.splits)
  have n2: "length (sv_requests ?s2) = Suc ?i" "rq_phase (sv_requests ?s2 ! ?i) = Nested"
    using n by (simp_all add: logging_nest_def set_phase_def split: prod.splits)
  have n3: "length (sv_requests ?s3) = Suc ?i" "rq_phase (sv_requests ?s3 ! ?i) = Labelled"
    using n2 by (simp_all add: logging_label_def Let_def set_phase_def)
  obtain l start where n4: "length (sv_requests (logging_defer ?i ?s3)) = Suc ?i" "rq_phase (sv_requests (logging_defer ?i ?s3) ! ?i) = Handling l start"
    using n3 by (simp add: logging_defer_def set_phase_def)
  have "server_step s ?s1" by (rule server_step.arrive)
  moreover have "server_step ?s1 ?s2" by (rule server_step.nest) (simp_all add: n)
  moreover have "server_step ?s2 ?s3" by (rule server_step.label) (simp_all add: n2)
  moreover have "server_step ?s3 (logging_defer ?i ?s3)" by (rule server_step.defer_line) (simp_all add: n3)
  moreover have "server_step (logging_defer ?i ?s3) (serve_one now err method s)"
    unfolding serve_one_def Let_def by (rule server_step.finish) (simp_all add: n4)
  ultimately show ?thesis by (meson converse_rtranclp_into_rtranclp rtranclp.rtrancl_refl)
qed

lemma serve_one_log:
  assumes ok: "server_ok s"
  shows "log_keyvals (serve_one now err method s) = log_keyvals s @ grpc_keyvals method \<and>
    map fst (sv_lines (serve_one now err method s)) = map fst (sv_lines s) @ replicate 2 (log_keyvals s @ grpc_keyvals method)"
proof -
  have "co_log (hp_contexts (sv_heap s) ! sv_log_ctx s) < length (hp_loggers (sv_heap s))"
    using heap_okD [OF server_okD(1,3) [OF ok]] by (simp add: ctx_ok_def)
  with server_okD(2,3) [OF ok] show ?thesis
    by (simp add: serve_one_def context_attach_interceptor_def logging_nest_def logging_label_def logging_defer_def logging_finish_def
        context_child_def logger_child_def new_logger_context_def add_context_def wrap_handler_context_def set_context_def
        logger_with_def set_logger_def log_ctx_logger_def log_keyvals_def log_line_def set_phase_def fresh_logger_def
        nth_append numeral_2_eq_2 Let_def)
qed

lemma serve_one_ok: "server_ok s \<Longrightarrow> server_ok (serve_one now err m s)"
  using serve_one_steps [of s now err m] by (induction rule: rtranclp_induct) (simp_all add: server_step_ok)

lemma serve_in_turn_log:
  "server_ok s \<Longrightarrow> map fst (sv_lines (serve_in_turn now err ms s)) = map fst (sv_lines s) @
    concat (map (\<lambda>n. replicate 2 (log_keyvals s @ concat (map grpc_keyvals (take (Suc n) ms)))) [0..<length ms])"
proof (induction ms arbitrary: s)
  case (Cons m ms)
  have "[0..<length (m # ms)] = 0 # map Suc [0..<length ms]"
    by (simp add: upt_conv_Cons map_Suc_upt del: upt_Suc)
  with Cons.IH [OF serve_one_ok [OF Cons.prems], of now err m] serve_one_log [OF Cons.prems, of now err m]
  show ?case by (simp add: comp_def)
qed simp

text \<open>When requests are served one after another, the log lines of each carry the labels of all the requests before
  it.\<close>
lemma requests_inherit_labels:
  assumes "reaches empty_heap h" "c < length (hp_contexts h)"
  shows "map fst (sv_lines (serve_in_turn now err ms (started h c))) =
    concat (map (\<lambda>n. replicate 2 (log_keyvals (started h c) @ concat (map grpc_keyvals (take (Suc n) ms)))) [0..<length ms])"
proof -
  have "server_ok (started h c)" by (rule reachable_server_ok [OF reachable_server.start reachable_ok [OF assms(1)] assms(2)])
  from serve_in_turn_log [OF this] show ?thesis by (simp add: started_def)
qed

section \<open>The interceptors of the client\<close>

text \<open>clients/client.go: the context of the call is unwrapped, its logger labelled, and a line written before and after.  The
  call itself changes the heap and the clock.\<close>
definition client_logging_interceptor :: "heap \<Rightarrow> gotime \<Rightarrow> base \<Rightarrow> string \<Rightarrow> (heap \<Rightarrow> heap \<times> gotime \<times> error)
    \<Rightarrow> heap \<times> (logval list \<times> string \<times> logval list) list \<times> error" where
  "client_logging_interceptor h now b method invoke = (case unwrap_handler_context h now b of (h1, c) \<Rightarrow>
     let x = hp_contexts h1 ! c; l = co_log x; h2 = logger_with h1 l (grpc_keyvals method) in
     (case invoke h2 of (h3, later, err) \<Rightarrow>
       (h3, [log_line h2 l () ''Calling GRPC method'' [],
             log_line h3 l (later, err) ''Finished calling GRPC method'' [stopwatch_keyval fst (co_start x), error_keyvals (Some snd)]],
        err)))"

text \<open>A caller that passes a child of its context, as the clients' callers do, keeps its own logger as it was.\<close>
lemma client_logging_child:
  assumes h: "heap_ok h" "l < length (hp_loggers h)" and child: "context_child h now c = (h1, d)"
    and invoke: "\<And>h'. hp_loggers (fst (invoke h')) ! l = hp_loggers h' ! l"
    and run: "client_logging_interceptor h1 now (ContextOf d) m invoke = (h2, lines, err)"
  shows "hp_loggers h2 ! l = hp_loggers h ! l"
proof -
  from child have d: "co_log (hp_contexts h1 ! d) = length (hp_loggers h)" and old: "hp_loggers h1 ! l = hp_loggers h ! l"
    using h(2) by (auto simp: context_child_def logger_child_def new_logger_context_def add_context_def nth_append Let_def)
  from run have "h2 = fst (invoke (logger_with h1 (length (hp_loggers h)) (grpc_keyvals m)))"
    by (auto simp: client_logging_interceptor_def unwrap_handler_context_def d Let_def split: prod.splits)
  with invoke h(2) old show ?thesis by (simp add: logger_with_def set_logger_def)
qed

section \<open>A server with two requests\<close>

definition sample_server :: server where
  "sample_server = serve_in_turn 5 None [''SyncFiles'', ''DumpAll''] (started sample_heap 0)"

lemma sample_server_reachable: "reachable_server sample_heap 0 sample_server"
proof -
  have run: "server_step\<^sup>*\<^sup>* s s' \<Longrightarrow> reachable_server h c s \<Longrightarrow> reachable_server h c s'" for h c s s'
    by (induction rule: rtranclp_induct) (auto intro: reachable_server.step)
  show ?thesis
    unfolding sample_server_def serve_in_turn.simps
    by (rule run [OF serve_one_steps run [OF serve_one_steps reachable_server.start]])
qed

lemma sample_server_requests:
  "map rq_call (sv_requests sample_server) = [0, 1]" "nested sample_server = {0, 1}"
proof -
  have "map (\<lambda>r. (rq_call r, rq_phase r)) (sv_requests sample_server) = [(0, Finished), (1, Finished)]" by code_simp
  then show "map rq_call (sv_requests sample_server) = [0, 1]" "nested sample_server = {0, 1}"
    by (auto simp: nested_def less_Suc_eq Cons_eq_map_conv)
qed

theorem handler_context_isolated_witness:
  "\<exists>r r'. sv_requests sample_server = [r, r'] \<and> (rq_ctx r, 0) \<in> parent_of (sv_heap sample_server) \<and>
     is_done (sv_heap sample_server\<lparr>hp_dead := [1]\<rparr>) 9 (ContextOf (rq_ctx r)) = Some False \<and>
     is_done (sv_heap sample_server\<lparr>hp_dead := [1]\<rparr>) 9 (ContextOf (rq_ctx r')) = Some True"
proof -
  from sample_server_requests(1) obtain r r' where rs: "sv_requests sample_server = [r, r']" "rq_call r = 0" "rq_call r' = 1"
    by (auto simp: map_eq_Cons_conv)
  with handler_context_isolated [OF sample_heap_reachable _ sample_server_reachable] show ?thesis by simp
qed


theorem requests_inherit_labels_witness:
  "map fst (sv_lines sample_server) = replicate 2 (grpc_keyvals ''SyncFiles'') @ replicate 2 (grpc_keyvals ''SyncFiles'' @ grpc_keyvals ''DumpAll'')"
proof -
  have "log_keyvals (started sample_heap 0) = []" by code_simp
  with requests_inherit_labels [OF sample_heap_reachable, of 0 5 None "[''SyncFiles'', ''DumpAll'']"]
  show ?thesis by (simp add: sample_server_def numeral_2_eq_2)
qed

end
