(* ===== verification/Commands.thy ===== *)
theory Commands
  imports Ordering Labels Server
begin

text \<open>
  The command line: \<^verbatim>\<open>src/cmd/disasterrecovery\<close> (the configuration of each application and how it becomes the
  arguments of Backup and Restore; clusterdrcommand.go, dreventcommand.go, drcommand.go), \<^verbatim>\<open>src/cmd/root.go\<close>, and the
  context of a command (\<^verbatim>\<open>src/pkg/cli/features/context.go\<close>).  Every application's commands interpret
  \<^verbatim>\<open>dr_command\<close>; the properties hold for whatever command is run.  Reading YAML, connecting to the cluster and
  cobra's dispatch are the libraries'; their results are arguments.
\<close>

section \<open>Configurations\<close>

text \<open>options.go.  The creation options of the tool's instance are read by no event, so they are left out.\<close>
record config_backup_volume =
  cbv_size :: quantity
  cbv_class :: string

text \<open>What the configurations of all applications have.\<close>
record event_config =
  evc_ns :: string
  evc_name :: string
  evc_cleanup :: duration

record backup_config = event_config +
  bc_volume :: config_backup_volume
  bc_snapshot :: options_backup_snapshot

record backup_config_cnpg =
  bcc_name :: string
  bcc_cloning :: clone_cluster_options

record restore_config_cnpg =
  rcc_name :: string
  rcc_serving :: string
  rcc_issuer :: issuer_ref
  rcc_cert :: user_cert_options

record config_s3 =
  cs_path :: string
  cs_credentials :: s3_credentials

record vaultwarden_backup_config = backup_config +
  vbc_data_pvc :: string
  vbc_cluster :: backup_config_cnpg

record vaultwarden_restore_config = event_config +
  vrc_data_pvc :: string
  vrc_cluster :: restore_config_cnpg

record authentik_backup_config = backup_config +
  abc_cluster :: backup_config_cnpg
  abc_s3 :: config_s3

record authentik_restore_config = event_config +
  arc_cluster :: restore_config_cnpg
  arc_s3 :: config_s3

record teleport_backup_config = backup_config +
  tbc_core :: string
  tbc_audit :: string
  tbc_logs :: config_s3
  tbc_cloning :: clone_cluster_options

record teleport_restore_config = event_config +
  trc_core :: restore_config_cnpg
  trc_audit :: restore_config_cnpg
  trc_logs :: config_s3

section \<open>The applications' commands\<close>

text \<open>\<^verbatim>\<open>_, err := app.Backup(...); return err\<close>\<close>
definition discard_event :: "('s, dr_event option \<times> error) prog \<Rightarrow> ('s, unit) prog" where
  "discard_event m = bnd m (\<lambda>(_, err). lift_err err)"

definition config_backup_options :: "'a backup_config_scheme \<Rightarrow> clone_cluster_options \<Rightarrow> backup_options" where
  "config_backup_options c cloning = \<lparr> bo_size = cbv_size (bc_volume c), bo_class = cbv_class (bc_volume c), bo_cloning = cloning,
     bo_snapshot = bc_snapshot c, bo_cleanup = evc_cleanup c \<rparr>"

definition vaultwarden_backup_command :: "(label_selector \<Rightarrow> error) \<Rightarrow> vaultwarden_backup_config \<Rightarrow> ('s, unit) prog" where
  "vaultwarden_backup_command as_selector c = discard_event (vaultwarden_backup as_selector (evc_ns c) (evc_name c)
     (vbc_data_pvc c) (bcc_name (vbc_cluster c)) (config_backup_options c (bcc_cloning (vbc_cluster c))))"

definition vaultwarden_restore_command :: "(label_selector \<Rightarrow> error) \<Rightarrow> vaultwarden_restore_config \<Rightarrow> ('s, unit) prog" where
  "vaultwarden_restore_command as_selector c = (let db = vrc_cluster c in discard_event (vaultwarden_restore as_selector (evc_ns c) (evc_name c)
     (vrc_data_pvc c) (rcc_name db) (rcc_serving db) (rcc_issuer db) \<lparr> ro_cert = rcc_cert db, ro_cleanup = evc_cleanup c \<rparr>))"

definition authentik_backup_command :: "(label_selector \<Rightarrow> error) \<Rightarrow> authentik_backup_config \<Rightarrow> ('s, unit) prog" where
  "authentik_backup_command as_selector c = discard_event (authentik_backup as_selector (evc_ns c) (evc_name c)
     (bcc_name (abc_cluster c)) (cs_path (abc_s3 c)) (cs_credentials (abc_s3 c)) (config_backup_options c (bcc_cloning (abc_cluster c))))"

definition authentik_restore_command :: "(label_selector \<Rightarrow> error) \<Rightarrow> authentik_restore_config \<Rightarrow> ('s, unit) prog" where
  "authentik_restore_command as_selector c = (let db = arc_cluster c in discard_event (authentik_restore as_selector (evc_ns c) (evc_name c)
     (rcc_name db) (rcc_serving db) (rcc_issuer db) (cs_path (arc_s3 c)) (cs_credentials (arc_s3 c))
     \<lparr> ro_cert = rcc_cert db, ro_cleanup = evc_cleanup c \<rparr>))"

text \<open>An optional part is enabled by its name.\<close>
definition config_session_logs :: "config_s3 \<Rightarrow> teleport_s3_sync" where
  "config_session_logs l = \<lparr> ts_enabled = cs_path l \<noteq> [], ts_path = cs_path l, ts_credentials = cs_credentials l \<rparr>"

definition teleport_backup_config_options :: "teleport_backup_config \<Rightarrow> teleport_backup_options" where
  "teleport_backup_config_options c = backup_options.extend (config_backup_options c (tbc_cloning c))
     \<lparr> tb_audit = \<lparr> ta_enabled = tbc_audit c \<noteq> [], ta_name = tbc_audit c \<rparr>, tb_session_logs = config_session_logs (tbc_logs c) \<rparr>"

definition teleport_backup_command :: "(label_selector \<Rightarrow> error) \<Rightarrow> teleport_backup_config \<Rightarrow> ('s, unit) prog" where
  "teleport_backup_command as_selector c = discard_event (teleport_backup as_selector (evc_ns c) (evc_name c) (tbc_core c)
     (teleport_backup_config_options c))"

definition teleport_restore_config_options :: "teleport_restore_config \<Rightarrow> teleport_restore_options" where
  "teleport_restore_config_options c = (let audit = trc_audit c in
     \<lparr> ro_cert = rcc_cert (trc_core c), ro_cleanup = evc_cleanup c,
       tr_audit = \<lparr> ta_enabled = rcc_name audit \<noteq> [], ta_name = rcc_name audit, tra_serving = rcc_serving audit,
         tra_issuer = rcc_issuer audit, tra_cert = rcc_cert audit \<rparr>,
       tr_session_logs = config_session_logs (trc_logs c) \<rparr>)"

definition teleport_restore_command :: "(label_selector \<Rightarrow> error) \<Rightarrow> teleport_restore_config \<Rightarrow> ('s, unit) prog" where
  "teleport_restore_command as_selector c = discard_event (teleport_restore as_selector (evc_ns c) (evc_name c) (rcc_name (trc_core c))
     (rcc_serving (trc_core c)) (rcc_issuer (trc_core c)) (teleport_restore_config_options c))"

definition generic_backup_command :: "(label_selector \<Rightarrow> error) \<Rightarrow> file_env \<Rightarrow> (string \<Rightarrow> string) \<Rightarrow> generic_backup_config \<Rightarrow> ('s, unit) prog" where
  "generic_backup_command as_selector env getenv c = discard_event (generic_backup as_selector env getenv c)"

definition generic_restore_command :: "(label_selector \<Rightarrow> error) \<Rightarrow> (string \<Rightarrow> string) \<Rightarrow> generic_restore_config \<Rightarrow> ('s, unit) prog" where
  "generic_restore_command as_selector getenv c = discard_event (generic_restore as_selector getenv c)"

section \<open>clusterdrcommand.go\<close>

text \<open>The clients talk to the cluster with the labels they were given.\<close>
definition in_cluster :: "(string \<rightharpoonup> string) option \<Rightarrow> ('s, 'a) prog \<Rightarrow> ('s, 'a) prog" where
  "in_cluster labels m = (\<lambda>w. m (w\<lparr>w_common_labels := labels\<rparr>))"

definition event_command_setup :: "goerr + 'c \<Rightarrow> goerr + 'k \<Rightarrow> goerr + 'c \<times> 'k" where
  "event_command_setup config client = (case config of
      Inl e \<Rightarrow> Inl (WrapErr ''read backup configuration from file'' e)
    | Inr c \<Rightarrow> (case client of Inl e \<Rightarrow> Inl (WrapErr ''create new kubernetes cluster client'' e) | Inr k \<Rightarrow> Inr (c, k)))"

definition event_command_run :: "goerr + 'c \<Rightarrow> goerr + (client_kind \<times> (string \<rightharpoonup> string) option) list
    \<Rightarrow> ('c \<Rightarrow> ('s, unit) prog) \<Rightarrow> ('s, unit) prog" where
  "event_command_run config client run = (case event_command_setup config client of
      Inl e \<Rightarrow> fail (WrapErr ''setup for backup'' e)
    | Inr (c, k) \<Rightarrow> wrapping ''backup'' (in_cluster (Option.bind (map_of k CoreClient) id) (run c)))"

section \<open>The contract of a command\<close>

lemma usable_labels [simp]: "usable (w\<lparr>w_common_labels := l\<rparr>) \<longleftrightarrow> usable w"
  by (simp add: usable_def world_ok_def policies_become_ready_def distinct_member_sources_def)

text \<open>
  The backup and the restore command of an application, and the namespace and the name of a backup.  A backup
  leaves at most its DR volume and a snapshot of it, a restore nothing.
\<close>
locale dr_command =
  fixes backup :: "'b \<Rightarrow> ('s, unit) prog" and restore :: "'r \<Rightarrow> ('t, unit) prog" and target :: "'b \<Rightarrow> string \<times> string"
  assumes backup_keeps: "usable w \<Longrightarrow> snd (target c) \<noteq> [] \<Longrightarrow> backup c w s tr = (r, s', tr') \<Longrightarrow>
      \<exists>k. outstanding tr' \<subseteq># outstanding tr + {#(KPVC, fst (target c), snd (target c)), (KSnapshot, fst (target c), k)#}"
    and restore_keeps: "usable w \<Longrightarrow> restore c' w t tr = (r, t', tr') \<Longrightarrow> outstanding tr' \<subseteq># outstanding tr"
begin

text \<open>The same for the whole run of the command line, with the labels of the client it builds.\<close>
lemma backup_run_keeps:
  assumes "usable w" "\<And>c. config = Inr c \<Longrightarrow> snd (target c) \<noteq> []"
    and run: "event_command_run config client backup w s tr = (r, s', tr')"
  shows "case config of Inl e \<Rightarrow> outstanding tr' \<subseteq># outstanding tr
    | Inr c \<Rightarrow> \<exists>k. outstanding tr' \<subseteq># outstanding tr + {#(KPVC, fst (target c), snd (target c)), (KSnapshot, fst (target c), k)#}"
proof (cases "event_command_setup config client")
  case (Inl e)
  with run have "tr' = tr" by (simp add: event_command_run_def prog_simps)
  then show ?thesis by (simp split: sum.split)
next
  case (Inr ck)
  obtain c k where ck: "ck = (c, k)" by (cases ck)
  with Inr have config: "config = Inr c" by (auto simp: event_command_setup_def split: sum.splits)
  from run Inr ck obtain r1 where "backup c (w\<lparr>w_common_labels := Option.bind (map_of k CoreClient) id\<rparr>) s tr = (r1, s', tr')"
    by (auto simp: event_command_run_def in_cluster_def elim: wrappingE)
  from backup_keeps [OF _ assms(2) [OF config] this] assms(1) show ?thesis by (simp add: config)
qed

lemma restore_run_keeps:
  assumes "usable w" and run: "event_command_run config client restore w s tr = (r, s', tr')"
  shows "outstanding tr' \<subseteq># outstanding tr"
proof (cases "event_command_setup config client")
  case (Inl e)
  with run show ?thesis by (simp add: event_command_run_def prog_simps)
next
  case (Inr ck)
  obtain c k where ck: "ck = (c, k)" by (cases ck)
  from run Inr ck obtain r1 where "restore c (w\<lparr>w_common_labels := Option.bind (map_of k CoreClient) id\<rparr>) s tr = (r1, s', tr')"
    by (auto simp: event_command_run_def in_cluster_def elim: wrappingE)
  from restore_keeps [OF _ this] assms(1) show ?thesis by simp
qed

end

lemma discard_event_run:
  "discard_event m w s tr = (r, s', tr') \<Longrightarrow> \<exists>r1. m w s tr = (r1, s', tr')"
  by (auto simp: discard_event_def prog_simps split: prod.splits sum.splits option.splits)

lemma teleport_restore_leaves:
  assumes w: "usable w" and run: "teleport_restore as_selector ns n core serving issuer ropts w s tr = (r, s', tr')"
  shows "outstanding tr' \<subseteq># outstanding tr"
proof -
  let ?bopts = "sample_teleport_backup\<lparr>tb_audit := teleport_audit.truncate (tr_audit ropts), tb_session_logs := tr_session_logs ropts\<rparr>"
  have "matching_restore ?bopts ropts = ropts"
    by (rule matching_restore_same) (simp_all add: teleport_audit.truncate_def)
  with teleport.restore_leaves [OF w, of ns n core serving issuer ?bopts ropts] run show ?thesis
    unfolding teleport_restore_def by (intro restoration_leaves [OF run [unfolded teleport_restore_def]]) simp
qed

interpretation vaultwarden_command: dr_command "vaultwarden_backup_command as_selector" "vaultwarden_restore_command as_selector"
    "\<lambda>c. (evc_ns c, evc_name c)" for as_selector
proof (unfold_locales, goal_cases)
  case 1
  from discard_event_run [OF 1(3) [unfolded vaultwarden_backup_command_def]] vaultwarden_backup_leaves [OF 1(1)] 1(2)
  show ?case by (metis fst_conv snd_conv)
next
  case 2
  from discard_event_run [OF 2(2) [unfolded vaultwarden_restore_command_def Let_def]] vaultwarden_restore_leaves [OF 2(1)]
  show ?case by metis
qed

interpretation authentik_command: dr_command "authentik_backup_command as_selector" "authentik_restore_command as_selector"
    "\<lambda>c. (evc_ns c, evc_name c)" for as_selector
proof (unfold_locales, goal_cases)
  case 1
  from discard_event_run [OF 1(3) [unfolded authentik_backup_command_def]] authentik_backup_leaves [OF 1(1)] 1(2)
  show ?case by (metis fst_conv snd_conv)
next
  case 2
  from discard_event_run [OF 2(2) [unfolded authentik_restore_command_def Let_def]] authentik_restore_leaves [OF 2(1)]
  show ?case by metis
qed

interpretation teleport_command: dr_command "teleport_backup_command as_selector" "teleport_restore_command as_selector"
    "\<lambda>c. (evc_ns c, evc_name c)" for as_selector
proof (unfold_locales, goal_cases)
  case 1
  from discard_event_run [OF 1(3) [unfolded teleport_backup_command_def]] teleport_backup_leaves [OF 1(1)] 1(2)
  show ?case by (metis fst_conv snd_conv)
next
  case 2
  from discard_event_run [OF 2(2) [unfolded teleport_restore_command_def]] teleport_restore_leaves [OF 2(1)]
  show ?case by metis
qed

interpretation generic_command: dr_command "generic_backup_command as_selector env getenv" "generic_restore_command as_selector getenv"
    "\<lambda>c. (gbc_ns c, gbc_name c)" for as_selector env getenv
proof (unfold_locales, goal_cases)
  case 1
  from discard_event_run [OF 1(3) [unfolded generic_backup_command_def]] generic_backup_leaves [OF 1(1)] 1(2)
  show ?case by (metis fst_conv snd_conv)
next
  case 2
  from discard_event_run [OF 2(2) [unfolded generic_restore_command_def]] generic_restore_leaves_nothing [OF 2(1)]
  show ?case by metis
qed

section \<open>The run of an event\<close>

text \<open>The events that a user can run, with what reading the configuration file gave.\<close>
datatype invocation =
    VaultwardenBackup "goerr + vaultwarden_backup_config"
  | VaultwardenRestore "goerr + vaultwarden_restore_config"
  | TeleportBackup "goerr + teleport_backup_config"
  | TeleportRestore "goerr + teleport_restore_config"
  | AuthentikBackup "goerr + authentik_backup_config"
  | AuthentikRestore "goerr + authentik_restore_config"
  | GenericBackup "goerr + generic_backup_config"
  | GenericRestore "goerr + generic_restore_config"

fun run_invocation :: "(label_selector \<Rightarrow> error) \<Rightarrow> file_env \<Rightarrow> (string \<Rightarrow> string) \<Rightarrow>
    goerr + (client_kind \<times> (string \<rightharpoonup> string) option) list \<Rightarrow> invocation \<Rightarrow> ('s, unit) prog" where
  "run_invocation sel env getenv client (VaultwardenBackup c) = event_command_run c client (vaultwarden_backup_command sel)"
| "run_invocation sel env getenv client (VaultwardenRestore c) = event_command_run c client (vaultwarden_restore_command sel)"
| "run_invocation sel env getenv client (TeleportBackup c) = event_command_run c client (teleport_backup_command sel)"
| "run_invocation sel env getenv client (TeleportRestore c) = event_command_run c client (teleport_restore_command sel)"
| "run_invocation sel env getenv client (AuthentikBackup c) = event_command_run c client (authentik_backup_command sel)"
| "run_invocation sel env getenv client (AuthentikRestore c) = event_command_run c client (authentik_restore_command sel)"
| "run_invocation sel env getenv client (GenericBackup c) = event_command_run c client (generic_backup_command sel env getenv)"
| "run_invocation sel env getenv client (GenericRestore c) = event_command_run c client (generic_restore_command sel getenv)"

text \<open>The namespace and name of the DR volume of a backup.\<close>
fun backup_target :: "invocation \<Rightarrow> (string \<times> string) option" where
  "backup_target (VaultwardenBackup (Inr c)) = Some (evc_ns c, evc_name c)"
| "backup_target (TeleportBackup (Inr c)) = Some (evc_ns c, evc_name c)"
| "backup_target (AuthentikBackup (Inr c)) = Some (evc_ns c, evc_name c)"
| "backup_target (GenericBackup (Inr c)) = Some (gbc_ns c, gbc_name c)"
| "backup_target _ = None"


definition sample_clients :: "goerr + (client_kind \<times> (string \<rightharpoonup> string) option) list" where
  "sample_clients = new_kube_cluster_client None (Inr None) (\<lambda>_. None)"


section \<open>drcommand.go, dreventcommand.go and root.go\<close>

text \<open>A command: its name, what it runs, and its subcommands.\<close>
datatype 'a command = Command (cmd_use: string) (cmd_run: "'a option") (cmd_subs: "'a command list")

record 'a event_command =
  em_run :: 'a
  em_schema :: "'a option"   \<comment> \<open>a DREventGenerateSchemaCommand\<close>

record 'a dr_app =
  da_name :: string
  da_backup :: "'a event_command option"   \<comment> \<open>a DRBackupCommand\<close>
  da_restore :: "'a event_command option"   \<comment> \<open>a DRRestoreCommand\<close>

definition build_dr_event_command :: "'a event_command \<Rightarrow> string \<Rightarrow> 'a command" where
  "build_dr_event_command c event_name = Command event_name None (Command ''run'' (Some (em_run c)) [] #
     (case em_schema c of None \<Rightarrow> [] | Some g \<Rightarrow> [Command ''gen-config-schema'' (Some g) []]))"

definition build_dr_command :: "'a dr_app \<Rightarrow> 'a command option" where
  "build_dr_command d = (let subs = (case da_backup d of None \<Rightarrow> [] | Some c \<Rightarrow> [build_dr_event_command c ''backup'']) @
       (case da_restore d of None \<Rightarrow> [] | Some c \<Rightarrow> [build_dr_event_command c ''restore''])
     in if subs = [] then None else Some (Command (da_name d) None subs))"

definition get_dr_command :: "'a dr_app list \<Rightarrow> 'a command" where
  "get_dr_command ds = Command ''dr'' None (List.map_filter build_dr_command ds)"

datatype leaf = PrintVersion | ServeGRPC | RunEvent string string | PrintSchema string string

definition cluster_dr_app :: "string \<Rightarrow> leaf dr_app" where
  "cluster_dr_app n = \<lparr> da_name = n,
     da_backup = Some \<lparr> em_run = RunEvent n ''backup'', em_schema = Some (PrintSchema n ''backup'') \<rparr>,
     da_restore = Some \<lparr> em_run = RunEvent n ''restore'', em_schema = Some (PrintSchema n ''restore'') \<rparr> \<rparr>"

definition dr_commands :: "leaf dr_app list" where
  "dr_commands = map cluster_dr_app [''vaultwarden'', ''teleport'', ''authentik'', ''generic'']"

definition root_command :: "leaf command" where
  "root_command = Command tool_name None [Command ''version'' (Some PrintVersion) [], Command ''grpc'' (Some ServeGRPC) [],
     get_dr_command dr_commands]"

text \<open>cmd/grpc.go: the run of the grpc command.\<close>
definition grpc_command_run :: "(int \<Rightarrow> error) \<Rightarrow> (grpc_server \<Rightarrow> error) \<Rightarrow> error" where
  "grpc_command_run listen run_server = trace_wrap ''GRPC server failed'' (start_server listen run_server)"

text \<open>Following the names of subcommands.\<close>
fun find_command :: "string list \<Rightarrow> 'a command \<Rightarrow> 'a option" where
  "find_command [] c = cmd_run c"
| "find_command (n # ns) c = (case List.find (\<lambda>d. cmd_use d = n) (cmd_subs c) of None \<Rightarrow> None | Some d \<Rightarrow> find_command ns d)"

lemma find_dr_command:
  assumes "distinct (map da_name ds)" "d \<in> set ds" "build_dr_command d = Some c"
  shows "find_command (da_name d # path) (get_dr_command ds) = find_command path c"
proof -
  have use: "cmd_use c' = da_name d'" if "build_dr_command d' = Some c'" for d' :: "'a dr_app" and c'
    using that by (auto simp: build_dr_command_def Let_def split: if_splits)
  have "List.find (\<lambda>d'. cmd_use d' = da_name d) (List.map_filter build_dr_command ds) = Some c"
    using assms
  proof (induction ds)
    case (Cons d' ds)
    show ?case
    proof (cases "build_dr_command d'")
      case None
      with Cons show ?thesis by (auto simp: List.map_filter_simps)
    next
      case (Some c')
      with use [OF Some] Cons show ?thesis by (auto simp: List.map_filter_simps image_iff)
    qed
  qed simp
  then show ?thesis by (simp add: get_dr_command_def)
qed

text \<open>For every application, each of its events is run, and its schema printed, by the command of that name.\<close>
lemma dr_commands_dispatch:
  assumes "app \<in> {''vaultwarden'', ''teleport'', ''authentik'', ''generic''}" "event_name \<in> {''backup'', ''restore''}"
  shows "find_command [''dr'', app, event_name, ''run''] root_command = Some (RunEvent app event_name) \<and>
    find_command [''dr'', app, event_name, ''gen-config-schema''] root_command = Some (PrintSchema app event_name)"
proof -
  have d: "distinct (map da_name dr_commands)" by (simp add: dr_commands_def cluster_dr_app_def)
  have m: "cluster_dr_app app \<in> set dr_commands" using assms(1) by (auto simp: dr_commands_def)
  obtain c where c: "build_dr_command (cluster_dr_app app) = Some c"
    "c = Command app None [build_dr_event_command \<lparr> em_run = RunEvent app ''backup'', em_schema = Some (PrintSchema app ''backup'') \<rparr> ''backup'',
      build_dr_event_command \<lparr> em_run = RunEvent app ''restore'', em_schema = Some (PrintSchema app ''restore'') \<rparr> ''restore'']"
    by (simp add: build_dr_command_def cluster_dr_app_def)
  have "find_command (''dr'' # app # path) root_command = find_command path c" for path
    using find_dr_command [OF d m c(1), of path] by (simp add: root_command_def get_dr_command_def cluster_dr_app_def)
  then show ?thesis using assms(2) by (auto simp: c(2) build_dr_event_command_def)
qed

section \<open>features/context.go\<close>

datatype log_formatter = TextFormatter | JSONFormatter | LogfmtFormatter | OtherFormatter int

definition set_log_format :: "string \<Rightarrow> goerr + log_formatter" where
  "set_log_format v = (if v = ''text'' then Inr TextFormatter else if v = ''json'' then Inr JSONFormatter
     else if v = ''logfmt'' then Inr LogfmtFormatter else Inl (errorf ''unknown log format''))"

fun log_format_string :: "log_formatter \<Rightarrow> string" where
  "log_format_string TextFormatter = ''text''"
| "log_format_string JSONFormatter = ''json''"
| "log_format_string LogfmtFormatter = ''logfmt''"
| "log_format_string (OtherFormatter k) = ''unknown''"

lemma set_log_format_string: "set_log_format v = Inr f \<longleftrightarrow> log_format_string f = v \<and> (\<forall>k. f \<noteq> OtherFormatter k)"
  by (cases f) (auto simp: set_log_format_def)

record log_options =
  lo_level :: int
  lo_formatter :: log_formatter
  lo_caller :: bool
  lo_timestamp :: bool

definition debug_level :: int where "debug_level = -4"
definition info_level :: int where "info_level = 0"

definition get_log_options :: "int \<Rightarrow> log_formatter \<Rightarrow> log_options" where
  "get_log_options level f = \<lparr> lo_level = level, lo_formatter = f, lo_caller = (level = debug_level),
     lo_timestamp = (level = debug_level \<or> level = info_level) \<rparr>"

text \<open>GetCommandContext: the signal context under a timeout; both cancel functions are in the combined one.\<close>
definition get_command_context :: "heap \<Rightarrow> gotime \<Rightarrow> duration \<Rightarrow> heap \<times> nat \<times> nat list" where
  "get_command_context h now timeout = (let sigint = hp_tokens h in
     case new_context (h\<lparr>hp_tokens := Suc sigint\<rparr>) now (WithCancel sigint Background) of (h1, c) \<Rightarrow>
     (case with_timeout h1 now c timeout of (h2, k) \<Rightarrow>
     (case new_logger_context h2 (fresh_logger [] []) of (h3, l) \<Rightarrow> (with_logger h3 c l, c, [k, sigint]))))"

text \<open>The context of a command ends with a signal, with its cancel function, or after the timeout when one is set.\<close>
lemma command_context_done:
  assumes "get_command_context h now timeout = (h', c, ks)"
  shows "is_done (h'\<lparr>hp_dead := dead\<rparr>) later (ContextOf c) =
    Some ((\<exists>k \<in> set ks. k \<in> set dead) \<or> timeout \<noteq> 0 \<and> now + timeout \<le> later)"
  using assms by (auto simp: get_command_context_def new_context_def new_logger_context_def add_context_def with_timeout_def
      set_context_def with_logger_def Let_def)

end
