(* ===== verification/ConfigFile.thy ===== *)
theory ConfigFile
  imports Prelude
begin

text \<open>
  \<^verbatim>\<open>src/pkg/cli/features/configfile.go\<close>: reading a configuration file.  The file is unmarshalled and then checked with
  the validator, after the type of the configuration has been rebuilt with every \<^verbatim>\<open>jsonschema:"required"\<close> tag turned
  into a \<^verbatim>\<open>validate:"required"\<close> tag.  The translation is modelled on types; the tags of a field are what
  structtag.Parse makes of them (an error when it fails), and structtag's Get and Set are association by key.  Reading the
  file, the YAML decoder, the copier and the validator are arguments.  The property is that the translated type requires
  exactly the fields that either tag requires, in nested structs too.
\<close>

section \<open>Types with tags\<close>

record tag =
  tg_key :: string
  tg_name :: string
  tg_options :: "string list"

type_synonym tags = "tag list"

text \<open>reflect.Type: a struct with its fields, or another kind.  A field has its name, its tags and its type.\<close>
datatype go_type = StructType "(string \<times> (goerr + tags) \<times> go_type) list" | OtherType string

definition tag_keys :: "tags \<Rightarrow> string list" where
  "tag_keys = map tg_key"

definition get_tag :: "string \<Rightarrow> tags \<Rightarrow> tag option" where
  "get_tag k ts = List.find (\<lambda>t. tg_key t = k) ts"

text \<open>Set replaces the tag of the same key, or adds one.\<close>
fun set_tag :: "tag \<Rightarrow> tags \<Rightarrow> tags" where
  "set_tag t [] = [t]"
| "set_tag t (u # us) = (if tg_key u = tg_key t then t # us else u # set_tag t us)"

section \<open>The translation\<close>

definition marks_required :: "tag \<Rightarrow> bool" where
  "marks_required t \<longleftrightarrow> tg_name t = ''required'' \<or> ''required'' \<in> set (tg_options t)"

definition require :: "tag \<Rightarrow> tag" where
  "require t = (if tg_name t = [] then t\<lparr>tg_name := ''required''\<rparr> else t\<lparr>tg_options := tg_options t @ [''required'']\<rparr>)"

text \<open>processField, on the tags of the field.\<close>
definition process_tags :: "goerr + tags \<Rightarrow> goerr + tags" where
  "process_tags parsed = (case parsed of
      Inl e \<Rightarrow> Inl (WrapErr ''parse struct tags'' e)
    | Inr ts \<Rightarrow> Inr (case get_tag ''jsonschema'' ts of
        None \<Rightarrow> ts
      | Some j \<Rightarrow> if \<not> marks_required j then ts
          else set_tag (require (case get_tag ''validate'' ts of
             Some v \<Rightarrow> v | None \<Rightarrow> \<lparr> tg_key = ''validate'', tg_name = [], tg_options = [] \<rparr>)) ts))"

text \<open>translateJsonSchemaTagsToValidateTags: fields that are structs are translated in turn.\<close>
fun translate :: "go_type \<Rightarrow> goerr + go_type" and
  translate_fields :: "(string \<times> (goerr + tags) \<times> go_type) list \<Rightarrow> goerr + (string \<times> (goerr + tags) \<times> go_type) list" where
  "translate (OtherType k) = Inl (errorf ''expected a struct type'')"
| "translate (StructType fs) = (case translate_fields fs of Inl e \<Rightarrow> Inl e | Inr fs' \<Rightarrow> Inr (StructType fs'))"
| "translate_fields [] = Inr []"
| "translate_fields ((n, parsed, t) # fs) = (case process_tags parsed of
      Inl e \<Rightarrow> Inl (WrapErr ''process field'' e)
    | Inr ts \<Rightarrow> (case (case t of OtherType k \<Rightarrow> Inr t
           | StructType gs \<Rightarrow> (case translate t of Inl e \<Rightarrow> Inl (WrapErr ''translate field'' e) | Inr t' \<Rightarrow> Inr t')) of
        Inl e \<Rightarrow> Inl e
      | Inr t' \<Rightarrow> (case translate_fields fs of Inl e \<Rightarrow> Inl e | Inr fs' \<Rightarrow> Inr ((n, Inr ts, t') # fs'))))"

section \<open>Validation and reading\<close>

text \<open>\<^verbatim>\<open>copy\<close> and \<^verbatim>\<open>check\<close> are copier.Copy into a value of the translated type, and the validator on it.\<close>
definition validate_config :: "go_type \<Rightarrow> (go_type \<Rightarrow> 'c \<Rightarrow> goerr + 'v) \<Rightarrow> (go_type \<Rightarrow> 'v \<Rightarrow> error) \<Rightarrow> 'c \<Rightarrow> error" where
  "validate_config t copy check config = (case translate t of
      Inl e \<Rightarrow> Some (WrapErr ''translate jsonschema tags to validate tags'' (WrapErr ''translate tags'' e))
    | Inr t' \<Rightarrow> (case copy t' config of
        Inl e \<Rightarrow> Some (WrapErr ''copy values from config to translated config'' e)
      | Inr v \<Rightarrow> trace_wrap ''validate'' (check t' v)))"

definition read_config_file :: "go_type \<Rightarrow> (go_type \<Rightarrow> 'c \<Rightarrow> goerr + 'v) \<Rightarrow> (go_type \<Rightarrow> 'v \<Rightarrow> error) \<Rightarrow> (string \<Rightarrow> goerr + 'c)
    \<Rightarrow> goerr + string \<Rightarrow> goerr + 'c" where
  "read_config_file t copy check unmarshal content = (case content of
      Inl e \<Rightarrow> Inl (WrapErr ''read config file'' e)
    | Inr text \<Rightarrow> (case unmarshal text of
        Inl e \<Rightarrow> Inl (WrapErr ''unmarshal config file'' e)
      | Inr config \<Rightarrow> (case validate_config t copy check config of
          Some e \<Rightarrow> Inl (WrapErr ''validate config file'' e)
        | None \<Rightarrow> Inr config)))"

section \<open>What the translated type requires\<close>

definition requires :: "string \<Rightarrow> goerr + tags \<Rightarrow> bool" where
  "requires k parsed = (case parsed of Inl _ \<Rightarrow> False
     | Inr ts \<Rightarrow> (case get_tag k ts of None \<Rightarrow> False | Some t \<Rightarrow> marks_required t))"

text \<open>The fields of a type by their paths, with what a predicate says of their tags.\<close>
fun field_marks :: "(goerr + tags \<Rightarrow> bool) \<Rightarrow> go_type \<Rightarrow> (string list \<times> bool) list" and
  fields_marks :: "(goerr + tags \<Rightarrow> bool) \<Rightarrow> (string \<times> (goerr + tags) \<times> go_type) list \<Rightarrow> (string list \<times> bool) list" where
  "field_marks P (OtherType k) = []"
| "field_marks P (StructType fs) = fields_marks P fs"
| "fields_marks P [] = []"
| "fields_marks P ((n, parsed, t) # fs) =
     ([n], P parsed) # map (\<lambda>(path, b). (n # path, b)) (field_marks P t) @ fields_marks P fs"

lemma get_set_tag: "get_tag k (set_tag t ts) = (if k = tg_key t then Some t else get_tag k ts)"
  by (induction ts) (auto simp: get_tag_def)

lemma get_tag_key: "get_tag k ts = Some t \<Longrightarrow> tg_key t = k"
  by (auto simp: get_tag_def find_Some_iff)

lemma require_simps [simp]: "tg_key (require t) = tg_key t" "marks_required (require t)"
  by (simp_all add: require_def marks_required_def)

lemma process_tags_requires:
  "process_tags parsed = Inr ts \<Longrightarrow> requires ''validate'' (Inr ts) \<longleftrightarrow> requires ''validate'' parsed \<or> requires ''jsonschema'' parsed"
  by (cases parsed; cases "get_tag ''jsonschema'' (projr parsed)"; cases "get_tag ''validate'' (projr parsed)")
    (auto simp: process_tags_def requires_def get_set_tag split: if_splits dest: get_tag_key)

lemma translate_marks:
  "translate t = Inr t' \<Longrightarrow> field_marks (requires ''validate'') t' =
     field_marks (\<lambda>p. requires ''validate'' p \<or> requires ''jsonschema'' p) t"
  "translate_fields fs = Inr fs' \<Longrightarrow> fields_marks (requires ''validate'') fs' =
     fields_marks (\<lambda>p. requires ''validate'' p \<or> requires ''jsonschema'' p) fs"
  by (induction t and fs arbitrary: t' and fs' rule: translate_translate_fields.induct)
    (auto split: sum.splits go_type.splits simp: process_tags_requires, force)

text \<open>C23: the type that a configuration is validated against has the fields of its type, at every depth of nested structs, and
  requires exactly those that a validate or a jsonschema tag of the type requires.\<close>
theorem translated_type_requires:
  assumes "translate t = Inr t'"
  shows "field_marks (requires ''validate'') t' = field_marks (\<lambda>p. requires ''validate'' p \<or> requires ''jsonschema'' p) t"
  using assms by (rule translate_marks(1))

text \<open>A configuration with a required name in a nested struct.\<close>
definition sample_type :: go_type where
  "sample_type = StructType [
     (''Namespace'', Inr [\<lparr> tg_key = ''yaml'', tg_name = ''namespace'', tg_options = [] \<rparr>,
        \<lparr> tg_key = ''jsonschema'', tg_name = ''required'', tg_options = [] \<rparr>], OtherType ''string''),
     (''Cluster'', Inr [\<lparr> tg_key = ''yaml'', tg_name = ''cluster'', tg_options = [] \<rparr>], StructType [
        (''Name'', Inr [\<lparr> tg_key = ''jsonschema'', tg_name = ''required'', tg_options = [] \<rparr>,
           \<lparr> tg_key = ''validate'', tg_name = ''max=40'', tg_options = [] \<rparr>], OtherType ''string'')])]"

theorem translated_type_requires_witness:
  "\<exists>t'. translate sample_type = Inr t' \<and> field_marks (requires ''validate'') t' =
     [([''Namespace''], True), ([''Cluster''], False), ([''Cluster'', ''Name''], True)]"
proof -
  have "\<not> isl (translate sample_type)" by code_simp
  then obtain t' where t': "translate sample_type = Inr t'" by (cases "translate sample_type") auto
  have "field_marks (\<lambda>p. requires ''validate'' p \<or> requires ''jsonschema'' p) sample_type =
     [([''Namespace''], True), ([''Cluster''], False), ([''Cluster'', ''Name''], True)]" by code_simp
  with translated_type_requires [OF t'] t' show ?thesis by simp
qed

end
