(* ===== verification/LocalRuntime.thy ===== *)
theory LocalRuntime
  imports Channel
begin

text \<open>
  The PostgreSQL runtime behind the channel: \<^verbatim>\<open>src/pkg/postgres/restore.go\<close> on the local machine, with the
  process as an argument (command.go wraps os/exec for the tests), and what a remote dump or restore does: it runs
  the local command with the variables of the caller's credentials.
\<close>

section \<open>restore.go\<close>

text \<open>What psql does when it is given these arguments and variables: the error of CombinedOutput, and the output.\<close>
record restore_env =
  rv_combined_output :: "string list \<Rightarrow> credential_variables \<Rightarrow> error \<times> string"

definition restore_args :: "string \<Rightarrow> string list" where
  "restore_args path = [''-X'', ''-f'', path]"

definition restore_all :: "restore_env \<Rightarrow> credentials \<Rightarrow> string \<Rightarrow> error" where
  "restore_all env creds path = (let vars = set_database_name ''postgres'' (get_variables creds) in
     case rv_combined_output env (restore_args path) vars of
       (Some e, out) \<Rightarrow> Some (WrapErr ''database restoration command failed'' e)
     | (None, out) \<Rightarrow> None)"

section \<open>The PostgreSQL calls of a server\<close>

text \<open>The local PostgreSQL runtime: the dump's environment depends on the output file.  Other calls are left to
  \<^verbatim>\<open>rest\<close>.\<close>
definition postgres_runtime :: "(string \<Rightarrow> dump_env) \<Rightarrow> restore_env \<Rightarrow> (runtime_call \<Rightarrow> goerr + response) \<Rightarrow> runtime_call \<Rightarrow> goerr + response" where
  "postgres_runtime dumps restores rest c = (case c of
      DumpAll creds path timeout \<Rightarrow> (case fst (dump_all (dumps path) creds) of Some e \<Rightarrow> Inl e | None \<Rightarrow> Inr EmptyResponse)
    | Restore creds path \<Rightarrow> (case restore_all restores creds path of Some e \<Rightarrow> Inl e | None \<Rightarrow> Inr EmptyResponse)
    | _ \<Rightarrow> rest c)"

lemma dump_all_variables: "dump_all env (EnvironmentCredentials (get_variables c)) = dump_all env c"
  by (simp add: dump_all_def)

lemma restore_all_variables: "restore_all env (EnvironmentCredentials (get_variables c)) path = restore_all env c path"
  by (simp add: restore_all_def)

text \<open>Called through the channel, the runtime does what it would do with the caller's own credentials.\<close>
lemma postgres_runtime_plain:
  "postgres_runtime dumps restores rest (plain_call c) = postgres_runtime dumps restores rest c"
  by (cases c) (simp_all add: postgres_runtime_def dump_all_variables restore_all_variables)

text \<open>C25: a remote dump or restore succeeds exactly when the local one does with the credentials of the caller.\<close>
theorem remote_postgres_runs_locally:
  assumes "\<And>q. w_call w tr q = serve send (postgres_runtime dumps restores rest) q"
  shows "fst (client_run c w s tr) = (case postgres_runtime dumps restores rest c of Inl e \<Rightarrow> Inl (send e) | Inr _ \<Rightarrow> Inr ())"
proof -
  from decode_encode [of c] obtain q where q: "encode_call c = Inr q" "decode_call q = plain_call c" by blast
  with assms show ?thesis
    by (simp add: client_run_def client_call_def prog_simps serve_decode postgres_runtime_plain split: sum.split)
qed

text \<open>A server whose psql wants a host and a database.\<close>
definition sample_restore_env :: restore_env where
  "sample_restore_env = \<lparr> rv_combined_output = \<lambda>args vars.
     if vars PGHOST = Some ''pg'' \<and> vars PGDATABASE = Some ''postgres'' \<and> args = [''-X'', ''-f'', ''/dr/dump.sql'']
     then (None, []) else (Some (errorf ''psql''), []) \<rparr>"

definition no_dump :: dump_env where
  "no_dump = \<lparr> dv_pipe = Some (errorf ''pipe''), dv_open = None, dv_start = None, dv_stdout = (\<lambda>_ _. []), dv_read_err = None,
     dv_write = (\<lambda>_. None), dv_wait = None, dv_flush = None, dv_close = None \<rparr>"

theorem remote_postgres_runs_locally_witness:
  "fst (client_run (Restore (KubernetesSecretCredentials \<lparr> sec_host = ''pg'', sec_port = [], sec_user = [],
       sec_ca_path = ''/ca'', sec_cert_path = ''/crt'', sec_key_path = ''/key'' \<rparr>) ''/dr/dump.sql'')
     (sample_world\<lparr>w_call := \<lambda>tr. serve id (postgres_runtime (\<lambda>_. no_dump) sample_restore_env (\<lambda>_. Inl (errorf ''other'')))\<rparr>) () []) = Inr ()"
proof -
  let ?c = "Restore (KubernetesSecretCredentials \<lparr> sec_host = ''pg'', sec_port = [], sec_user = [],
       sec_ca_path = ''/ca'', sec_cert_path = ''/crt'', sec_key_path = ''/key'' \<rparr>) ''/dr/dump.sql''"
  let ?rt = "postgres_runtime (\<lambda>_. no_dump) sample_restore_env (\<lambda>_. Inl (errorf ''other''))"
  let ?w = "sample_world\<lparr>w_call := \<lambda>tr. serve id ?rt\<rparr>"
  have "\<And>q. w_call ?w [] q = serve id ?rt q" by simp
  from remote_postgres_runs_locally [of ?w "[]" id "\<lambda>_. no_dump" sample_restore_env "\<lambda>_. Inl (errorf ''other'')", OF this, of ?c "()"]
  show ?thesis
    by (simp add: postgres_runtime_def restore_all_def restore_args_def sample_restore_env_def set_database_name_def)
qed

end
