(* ===== verification/LocalWalk.thy ===== *)
theory LocalWalk
  imports S3
begin

text \<open>
  \<^verbatim>\<open>src/pkg/s3/transfer.go\<close>, the local side of an upload: the walk that lists the regular files of a
  directory (listLocalFiles), and the upload of what it lists.  A directory is a tree whose entries are in the
  order in which os.ReadDir gives them.  The property is what an upload of a directory leaves in the bucket.
\<close>

section \<open>The tree\<close>

datatype fs_node = PlainFile string gotime | LinkFile | SpecialFile | Folder "(string \<times> fs_node) list"

fun fs_lookup :: "fs_node \<Rightarrow> string list \<Rightarrow> fs_node option" where
  "fs_lookup n [] = Some n"
| "fs_lookup (Folder es) (c # cs) = (case map_of es c of None \<Rightarrow> None | Some m \<Rightarrow> fs_lookup m cs)"
| "fs_lookup n (c # cs) = None"

text \<open>What a file system guarantees: the names in a directory are distinct, and are single path components.\<close>
function fs_ok :: "fs_node \<Rightarrow> bool" where
  "fs_ok (Folder es) \<longleftrightarrow> distinct (map fst es) \<and> (\<forall>e \<in> set es. plain_comp (fst e) \<and> fs_ok (snd e))"
| "fs_ok (PlainFile d t) \<longleftrightarrow> True" | "fs_ok LinkFile \<longleftrightarrow> True" | "fs_ok SpecialFile \<longleftrightarrow> True"
  by pat_completeness auto
termination
proof (relation "measure size")
  show "(snd e, Folder es) \<in> measure size" if "e \<in> set es" for es e
  proof -
    have "size_prod (\<lambda>_. 0) size e \<le> size_list (size_prod (\<lambda>_. 0) size) es" using that by (rule size_list_estimation') simp
    then show ?thesis by (cases e) simp
  qed
qed simp

section \<open>listLocalFiles\<close>

text \<open>\<^verbatim>\<open>we_stat\<close> follows a link at the base directory, the walk's own \<^verbatim>\<open>we_lstat\<close> does not.\<close>
record walk_env =
  we_stat :: "goerr + fs_node"
  we_lstat :: "goerr + fs_node"
  we_read :: "string list \<Rightarrow> error"   \<comment> \<open>ReadDir of a directory below the base\<close>
  we_info :: "string list \<Rightarrow> error"

text \<open>The walk with its callback: the regular files below a node, by slash-separated relative path.\<close>
function (sequential) walk_files :: "walk_env \<Rightarrow> string list \<Rightarrow> fs_node \<Rightarrow> goerr + local_dir"
  and walk_folder :: "walk_env \<Rightarrow> string list \<Rightarrow> (string \<times> fs_node) list \<Rightarrow> goerr + local_dir" where
  "walk_files env rel (PlainFile data t) = (case we_info env rel of
      Some e \<Rightarrow> Inl (WrapErr ''stat'' e)
    | None \<Rightarrow> Inr [(join_with ''/'' rel, \<lparr> lf_data = data, lf_modified = t \<rparr>)])"
| "walk_files env rel (Folder es) = (case we_read env rel of
      Some e \<Rightarrow> Inl (WrapErr ''walk'' e) | None \<Rightarrow> walk_folder env rel es)"
| "walk_files env rel n = Inr []"
| "walk_folder env rel [] = Inr []"
| "walk_folder env rel ((name, n) # es) = (case walk_files env (rel @ [name]) n of
      Inl e \<Rightarrow> Inl e
    | Inr fs \<Rightarrow> (case walk_folder env rel es of Inl e \<Rightarrow> Inl e | Inr gs \<Rightarrow> Inr (fs @ gs)))"
  by pat_completeness auto
termination
  by (relation "measure (\<lambda>x. case x of Inl (_, _, n) \<Rightarrow> size n | Inr (_, _, es) \<Rightarrow> size_list (size_prod (\<lambda>_. 0) size) es)") auto

definition list_local_files :: "walk_env \<Rightarrow> goerr + local_dir" where
  "list_local_files env = (case we_stat env of
      Inl e \<Rightarrow> if is_kind NotExist e then Inr [] else Inl (WrapErr ''stat'' e)
    | Inr (Folder _) \<Rightarrow> (case (case we_lstat env of Inl e \<Rightarrow> Inl (WrapErr ''walk'' e) | Inr n \<Rightarrow> walk_files env [] n) of
          Inl e \<Rightarrow> Inl (WrapErr ''walk'' e) | Inr fs \<Rightarrow> Inr fs)
    | Inr _ \<Rightarrow> Inl (errorf ''source path is not a directory''))"

text \<open>An upload of what the walk lists, or the error of the walk.\<close>
definition upload_directory :: "s3_env \<Rightarrow> walk_env \<Rightarrow> s3_store \<Rightarrow> string \<Rightarrow> error \<times> s3_store" where
  "upload_directory env wenv store pfx = (case list_local_files wenv of
      Inl e \<Rightarrow> s3_upload (env\<lparr>se_dir := Some e\<rparr>) [] store pfx
    | Inr dir \<Rightarrow> s3_upload (env\<lparr>se_dir := None\<rparr>) dir store pfx)"

section \<open>What the walk lists\<close>

function (sequential) files_of :: "fs_node \<Rightarrow> (string list \<times> local_file) list"
  and files_in :: "(string \<times> fs_node) list \<Rightarrow> (string list \<times> local_file) list" where
  "files_of (PlainFile data t) = [([], \<lparr> lf_data = data, lf_modified = t \<rparr>)]"
| "files_of (Folder es) = files_in es"
| "files_of n = []"
| "files_in [] = []"
| "files_in ((name, n) # es) = map (\<lambda>(p, f). (name # p, f)) (files_of n) @ files_in es"
  by pat_completeness auto
termination
  by (relation "measure (\<lambda>x. case x of Inl n \<Rightarrow> size n | Inr es \<Rightarrow> size_list (size_prod (\<lambda>_. 0) size) es)") auto

lemma walk_lists:
  "walk_files env rel n = Inr fs \<Longrightarrow> fs = map (\<lambda>(p, f). (join_with ''/'' (rel @ p), f)) (files_of n)"
  "walk_folder env rel es = Inr fs \<Longrightarrow> fs = map (\<lambda>(p, f). (join_with ''/'' (rel @ p), f)) (files_in es)"
  by (induction env rel n and env rel es arbitrary: fs and fs rule: walk_files_walk_folder.induct)
    (auto split: option.splits sum.splits)

lemma files_of_mem:
  "fs_ok n \<Longrightarrow> (p, f) \<in> set (files_of n) \<longleftrightarrow> fs_lookup n p = Some (PlainFile (lf_data f) (lf_modified f))"
  "fs_ok (Folder es) \<Longrightarrow> (p, f) \<in> set (files_in es) \<longleftrightarrow> fs_lookup (Folder es) p = Some (PlainFile (lf_data f) (lf_modified f))"
proof (induction n and es arbitrary: p and p rule: files_of_files_in.induct, goal_cases)
  case (1 data t p)
  show ?case by (cases p; cases f) auto
next
  case (2 es p)
  then show ?case by simp
next
  case (3 p)
  show ?case by (cases p) auto
next
  case (4 p)
  show ?case by (cases p) auto
next
  case (5 p)
  show ?case by (cases p) auto
next
  case (6 name n es p)
  from 6(3) have ok: "fs_ok n" "fs_ok (Folder es)" and new: "map_of es name = None" by (auto simp: map_of_eq_None_iff)
  show ?case
  proof (cases p)
    case Nil
    with 6(2) [OF ok(2), of p] show ?thesis by auto
  next
    case (Cons c cs)
    have "(c # cs, f) \<notin> set (files_in es)" if "c = name"
      using 6(2) [OF ok(2), of "c # cs"] new that by simp
    with Cons 6(1) [OF ok(1)] 6(2) [OF ok(2), of p] show ?thesis by auto
  qed
qed

lemma files_of_plain:
  "fs_ok n \<Longrightarrow> (p, f) \<in> set (files_of n) \<Longrightarrow> list_all plain_comp p"
  "fs_ok (Folder es) \<Longrightarrow> (p, f) \<in> set (files_in es) \<Longrightarrow> list_all plain_comp p \<and> p \<noteq> []"
  by (induction n and es arbitrary: p and p rule: files_of_files_in.induct) auto

lemma files_of_distinct:
  "fs_ok n \<Longrightarrow> distinct (map fst (files_of n))"
  "fs_ok (Folder es) \<Longrightarrow> distinct (map fst (files_in es))"
proof (induction n and es rule: files_of_files_in.induct, goal_cases)
  case (6 name n es)
  then have ok: "fs_ok n" "fs_ok (Folder es)" and new: "map_of es name = None" by (auto simp: map_of_eq_None_iff)
  have "(name # p, f) \<notin> set (files_in es)" for p f using files_of_mem(2) [OF ok(2)] new by simp
  moreover have "map fst (map (\<lambda>(p, f). (name # p, f)) (files_of n)) = map ((#) name) (map fst (files_of n))"
    by (simp add: case_prod_unfold)
  ultimately show ?case using 6(1) [OF ok(1)] 6(2) [OF ok(2)]
    by (fastforce simp: distinct_map inj_on_def)
qed simp_all

section \<open>Keys\<close>

lemma join_split: "join_with ''/'' (split_on slash s) = s"
proof (induction s)
  case (Cons x xs)
  obtain y ys where y: "split_on slash xs = y # ys" by (cases "split_on slash xs") auto
  with Cons show ?case by (cases ys) (auto simp: join_with_Cons slash_def)
qed simp

lemma clean_comps_append:
  "list_all plain_comp cs \<Longrightarrow> clean_comps r acc (cs @ ds) = clean_comps r (rev cs @ acc) ds"
  by (induction cs arbitrary: acc) (auto simp: plain_comp_def)

lemma plain_join_ends:
  assumes "cs \<noteq> []" "list_all plain_comp cs"
  shows "join_with ''/'' cs \<noteq> []" "hd (join_with ''/'' cs) \<noteq> slash" "last (join_with ''/'' cs) \<noteq> slash"
proof -
  have ends: "c \<noteq> [] \<and> hd c \<noteq> slash \<and> last c \<noteq> slash" if "plain_comp c" for c
    using that unfolding plain_comp_def by (metis hd_in_set last_in_set)
  obtain d ds where cs: "cs = d # ds" using assms(1) by (cases cs) auto
  with assms(2) ends [of d] show "join_with ''/'' cs \<noteq> []" "hd (join_with ''/'' cs) \<noteq> slash"
    by (cases ds; simp)+
  from assms show "last (join_with ''/'' cs) \<noteq> slash"
  proof (induction cs)
    case (Cons c cs)
    show ?case
    proof (cases "cs = []")
      case True
      with Cons.prems ends show ?thesis by simp
    next
      case False
      with Cons have "last (join_with ''/'' cs) \<noteq> slash" by simp
      moreover have "join_with ''/'' cs \<noteq> []" using False by (cases cs rule: remdups_adj.cases) (use Cons.prems ends in auto)
      ultimately show ?thesis using False by (simp add: join_with_Cons)
    qed
  qed simp
qed

lemma not_rooted: "s \<noteq> [] \<Longrightarrow> hd s \<noteq> slash \<Longrightarrow> \<not> is_rooted s"
  by (cases s) (auto simp: is_rooted_def has_prefix_def slash_def)

lemma split_join_append:
  "cs \<noteq> [] \<Longrightarrow> list_all plain_comp cs \<Longrightarrow> split_on slash (join_with ''/'' cs @ slash # s) = cs @ split_on slash s"
proof (induction cs)
  case (Cons c cs)
  show ?case
  proof (cases "cs = []")
    case True
    with Cons.prems show ?thesis by (simp add: split_on_append plain_comp_def)
  next
    case False
    with Cons have "split_on slash (join_with ''/'' cs @ slash # s) = cs @ split_on slash s" by simp
    with Cons.prems split_on_append [of slash c "join_with ''/'' cs @ slash # s"] False show ?thesis
      by (simp add: join_with_Cons plain_comp_def slash_def)
  qed
qed simp

lemma path_clean_plain:
  assumes "cs \<noteq> []" "list_all plain_comp cs" shows "path_clean (join_with ''/'' cs) = join_with ''/'' cs"
proof -
  have "split_on slash (join_with ''/'' cs) = cs" using assms by (intro split_join) (auto simp: list_all_iff plain_comp_def)
  moreover have "clean_comps False [] cs = cs" using clean_comps_append [OF assms(2), of False "[]" "[]"] by simp
  ultimately show ?thesis using not_rooted plain_join_ends [OF assms] by (simp add: path_clean_def)
qed

text \<open>A prefix without empty, \<^verbatim>\<open>.\<close> or \<^verbatim>\<open>..\<close> components, but perhaps with a slash behind it.\<close>
definition clean_prefix :: "string \<Rightarrow> bool" where
  "clean_prefix pfx \<longleftrightarrow> pfx = [] \<or> list_all plain_comp (split_on slash (if last pfx = slash then butlast pfx else pfx))"

text \<open>What the keys below a prefix start with.\<close>
definition prefix_dir :: "string \<Rightarrow> string" where
  "prefix_dir pfx = (if pfx = [] \<or> last pfx = slash then pfx else pfx @ ''/'')"

lemma clean_prefix_cases:
  assumes "clean_prefix pfx"
  obtains "pfx = []"
  | cs where "cs \<noteq> []" "list_all plain_comp cs" "pfx = join_with ''/'' cs" "last pfx \<noteq> slash"
  | cs where "cs \<noteq> []" "list_all plain_comp cs" "pfx = join_with ''/'' cs @ ''/''"
proof (cases "pfx = []")
  case False
  let ?p = "if last pfx = slash then butlast pfx else pfx"
  have "pfx = ?p @ (if last pfx = slash then ''/'' else [])" using False by (cases pfx rule: rev_cases) (auto simp: slash_def)
  with assms False that(2,3) [OF split_on_ne] join_split [of ?p] show ?thesis by (auto simp: clean_prefix_def split: if_splits)
qed (rule that(1))

lemma path_join_two: "a \<noteq> [] \<Longrightarrow> b \<noteq> [] \<Longrightarrow> path_join [a, b] = path_clean (a @ ''/'' @ b)"
  by (simp add: path_join_def)

lemma put_key_under:
  assumes pfx: "clean_prefix pfx" and ds: "ds \<noteq> []" "list_all plain_comp ds"
  shows "path_join [pfx, join_with ''/'' ds] = prefix_dir pfx @ join_with ''/'' ds"
  using pfx
proof (cases rule: clean_prefix_cases)
  case 1
  with path_clean_plain [OF ds] plain_join_ends [OF ds] show ?thesis by (simp add: path_join_def prefix_dir_def)
next
  case (2 cs)
  have ne: "pfx \<noteq> []" unfolding 2(3) by (rule plain_join_ends(1) [OF 2(1,2)])
  have "path_join [pfx, join_with ''/'' ds] = path_clean (join_with ''/'' (cs @ ds))"
    by (subst path_join_two [OF ne plain_join_ends(1) [OF ds]]) (simp only: join_with_append [OF 2(1) ds(1)] 2(3))
  also have "\<dots> = join_with ''/'' (cs @ ds)" using 2 ds by (intro path_clean_plain) auto
  finally show ?thesis using 2 ds(1) ne by (simp add: prefix_dir_def join_with_append)
next
  case (3 cs)
  let ?key = "join_with ''/'' cs @ slash # slash # join_with ''/'' ds"
  have "split_on slash ?key = cs @ [] # ds"
    using split_join_append [OF 3(1,2)] split_join [OF ds(1)] ds(2) by (auto simp: list_all_iff plain_comp_def)
  moreover have "clean_comps False [] (cs @ [] # ds) = cs @ ds"
    using clean_comps_append [OF 3(2), of False "[]" "[] # ds"] clean_comps_append [OF ds(2), of False "rev cs" "[]"] by simp
  moreover have "\<not> is_rooted ?key" using not_rooted [of ?key] plain_join_ends [OF 3(1,2)] by simp
  ultimately have "path_clean ?key = join_with ''/'' (cs @ ds)"
    using plain_join_ends(1) [of "cs @ ds"] 3 ds by (simp add: path_clean_def)
  moreover have "path_join [pfx, join_with ''/'' ds] = path_clean ?key"
    using path_join_two [OF _ plain_join_ends(1) [OF ds], of pfx] 3(3) by (simp add: slash_def)
  ultimately show ?thesis using 3 ds(1) by (simp add: prefix_dir_def join_with_append slash_def)
qed

lemma relative_key_under:
  assumes "ds \<noteq> []" "list_all plain_comp ds"
  shows "relative_key pfx (prefix_dir pfx @ join_with ''/'' ds) = join_with ''/'' ds"
proof -
  let ?r = "join_with ''/'' ds"
  note r = plain_join_ends [OF assms]
  have "rev ?r \<noteq> [] \<and> hd (rev ?r) \<noteq> slash" using r by (simp add: hd_rev)
  then have "\<not> has_suffix ''/'' (s @ ?r)" for s
    by (cases "rev ?r") (auto simp: has_suffix_def has_prefix_def slash_def)
  moreover have "trim_prefix ''/'' ?r = ?r" using r by (cases ?r) (auto simp: trim_prefix_def has_prefix_def slash_def)
  moreover have "trim_prefix ''/'' (''/'' @ ?r) = ?r" by (rule trim_prefix_append)
  ultimately show ?thesis by (simp add: relative_key_def prefix_dir_def)
qed

section \<open>The upload of a directory\<close>

lemma listed_files:
  assumes "we_stat env = Inr (Folder es)" "we_lstat env = Inr (Folder es)" "list_local_files env = Inr fs"
  shows "fs = map (\<lambda>(p, f). (join_with ''/'' p, f)) (files_in es)"
  using assms walk_lists(2) [of env "[]" es] by (auto simp: list_local_files_def split: sum.splits option.splits)

lemma listed_distinct:
  assumes "fs_ok (Folder es)" shows "distinct (map fst (map (\<lambda>(p, f). (join_with ''/'' p, f)) (files_in es)))"
proof -
  have "inj_on (join_with ''/'') (fst ` set (files_in es))"
  proof (rule inj_onI)
    have split: "split_on slash (join_with ''/'' p) = p" if "p \<in> fst ` set (files_in es)" for p
    proof -
      from that obtain f where "(p, f) \<in> set (files_in es)" by auto
      from files_of_plain(2) [OF assms this] show ?thesis by (intro split_join) (auto simp: list_all_iff plain_comp_def)
    qed
    fix p q assume "p \<in> fst ` set (files_in es)" "q \<in> fst ` set (files_in es)" and eq: "join_with ''/'' p = join_with ''/'' q"
    with split [of p] split [of q] show "p = q" by metis
  qed
  moreover have "map fst (map (\<lambda>(p, f). (join_with ''/'' p, f)) xs) = map (join_with ''/'') (map fst xs)"
    for xs :: "(string list \<times> local_file) list" by (simp add: case_prod_unfold)
  ultimately show ?thesis using files_of_distinct(2) [OF assms] by (simp only: distinct_map set_map)
qed


text \<open>The walk does not follow a link at its base: a source directory that is a symbolic link is listed as empty, and its
  upload deletes every object behind the prefix.\<close>
lemma linked_source_is_empty:
  "we_stat env = Inr (Folder es) \<Longrightarrow> we_lstat env = Inr LinkFile \<Longrightarrow> list_local_files env = Inr []"
  by (simp add: list_local_files_def)

section \<open>A directory with two files\<close>

definition sample_walk :: walk_env where
  "sample_walk = (let tree = Folder [(''c'', PlainFile ''C'' 1), (''d'', Folder [(''e'', PlainFile ''EE'' 2), (''link'', LinkFile)])] in
     \<lparr> we_stat = Inr tree, we_lstat = Inr tree, we_read = \<lambda>_. None, we_info = \<lambda>_. None \<rparr>)"


end
